theory Spec2Isabelle
  imports Main "HOL-Library.Stream"
begin

section \<open>The discovery API client (enterprise\_catalog/apps/api\_client/discovery.py)\<close>

text \<open>
  The module is an HTTP client: every method of \<^verbatim>\<open>DiscoveryApiClient\<close> talks to a remote
  server through \<^verbatim>\<open>self.client\<close> and may block in \<^verbatim>\<open>time.sleep\<close>. The embedding makes both
  effects explicit. A \<open>world\<close> holds the outcomes the server is going to give, one per request,
  and the trace of what the client did so far (requests sent, seconds slept). Every method
  takes the world and returns the world it leaves behind. Logging has no part in what the
  methods return or request and is left out.
\<close>

subsection \<open>JSON values and Python dictionaries\<close>

text \<open>
  The value \<^verbatim>\<open>response.json()\<close> returns. Numbers are integers here; an object keeps its
  members in order, as a Python dict does, and a dict holds each key once. The same type
  serves for the values of the query parameters (\<^verbatim>\<open>True\<close>, \<^verbatim>\<open>100\<close>, \<^verbatim>\<open>'key'\<close>).
\<close>

datatype json =
    JNull
  | JBool bool
  | JInt int
  | JStr string
  | JArr "json list"
  | JObj "(string \<times> json) list"

type_synonym dict = "(string \<times> json) list"

text \<open>Python's truth value of a JSON value, as tested by \<^verbatim>\<open>while response.get('next')\<close>.\<close>

fun truthy :: "json \<Rightarrow> bool" where
  "truthy JNull = False"
| "truthy (JBool b) = b"
| "truthy (JInt i) = (i \<noteq> 0)"
| "truthy (JStr s) = (s \<noteq> [])"
| "truthy (JArr xs) = (xs \<noteq> [])"
| "truthy (JObj kvs) = (kvs \<noteq> [])"

text \<open>\<^verbatim>\<open>d[k] = v\<close>: an existing key keeps its place, a new key goes to the end.\<close>

fun dict_set :: "dict \<Rightarrow> string \<Rightarrow> json \<Rightarrow> dict" where
  "dict_set [] k v = [(k, v)]"
| "dict_set ((k', v') # d) k v =
     (if k' = k then (k, v) # d else (k', v') # dict_set d k v)"

text \<open>\<^verbatim>\<open>d.update(other)\<close>: the members of \<open>other\<close> are stored in order.\<close>

fun dict_update :: "dict \<Rightarrow> dict \<Rightarrow> dict" where
  "dict_update d [] = d"
| "dict_update d ((k, v) # other) = dict_update (dict_set d k v) other"

subsection \<open>Exceptions\<close>

text \<open>
  The instances of Python's \<^verbatim>\<open>Exception\<close> that a request, a body parse or a list
  concatenation raises. \<open>RequestException\<close> stands for \<^verbatim>\<open>requests.exceptions.RequestException\<close>
  and its subclasses, the string being the class name (\<^verbatim>\<open>ChunkedEncodingError\<close>, \<^verbatim>\<open>Timeout\<close>, ...).
  \<open>JSONDecodeError\<close> is the decode error of the tests (\<^verbatim>\<open>simplejson.JSONDecodeError\<close>), which is
  not a \<^verbatim>\<open>RequestException\<close>. Signals that derive from \<^verbatim>\<open>BaseException\<close> only
  (\<^verbatim>\<open>KeyboardInterrupt\<close>, \<^verbatim>\<open>SystemExit\<close>) are not modelled.
\<close>

datatype exn =
    RequestException string
  | JSONDecodeError
  | SoftTimeLimitExceeded
  | TypeError
  | AttributeError
  | OtherException string

text \<open>\<^verbatim>\<open>isinstance(err, requests.exceptions.RequestException)\<close>.\<close>

fun is_RequestException :: "exn \<Rightarrow> bool" where
  "is_RequestException (RequestException cls) = True"
| "is_RequestException _ = False"

subsection \<open>The HTTP client and the clock\<close>

datatype http_method = GET | POST

text \<open>The endpoint paths of \<^verbatim>\<open>constants.py\<close>, which is not part of the sources: opaque names.\<close>

datatype endpoint =
    DISCOVERY_SEARCH_ALL_ENDPOINT
  | DISCOVERY_COURSES_ENDPOINT
  | DISCOVERY_PROGRAMS_ENDPOINT

record request =
  http_method :: http_method
  url :: endpoint
  json_payload :: "json option"
  params :: dict
  timeout :: nat

text \<open>
  A response has a status code and a body; \<open>body = None\<close> is a body that does not decode,
  on which \<^verbatim>\<open>response.json()\<close> raises.
\<close>

record response =
  status_code :: int
  body :: "json option"

datatype outcome = Raises exn | Responds response

datatype event = Request request | Sleep nat

record world =
  server :: "outcome stream"
  trace :: "event list"

text \<open>\<^verbatim>\<open>self.client.post(...)\<close> and \<^verbatim>\<open>self.client.get(...)\<close>: the next outcome of the server.\<close>

definition send :: "request \<Rightarrow> world \<Rightarrow> outcome \<times> world" where
  "send rq w =
     (shd (server w), w\<lparr>server := stl (server w), trace := trace w @ [Request rq]\<rparr>)"

text \<open>\<^verbatim>\<open>time.sleep(seconds)\<close>.\<close>

definition sleep :: "nat \<Rightarrow> world \<Rightarrow> world" where
  "sleep seconds w = w\<lparr>trace := trace w @ [Sleep seconds]\<rparr>"

text \<open>\<^verbatim>\<open>response.json()\<close>.\<close>

definition response_json :: "response \<Rightarrow> exn + json" where
  "response_json r = (case body r of None \<Rightarrow> Inl JSONDecodeError | Some j \<Rightarrow> Inr j)"

text \<open>
  \<^verbatim>\<open>response.get(key, default)\<close> on a parsed body: only a dict has \<^verbatim>\<open>get\<close>.
\<close>

definition py_get :: "json \<Rightarrow> string \<Rightarrow> json \<Rightarrow> exn + json" where
  "py_get j key dflt =
     (case j of
        JObj kvs \<Rightarrow> Inr (case map_of kvs key of None \<Rightarrow> dflt | Some v \<Rightarrow> v)
      | _ \<Rightarrow> Inl AttributeError)"

text \<open>
  \<^verbatim>\<open>results += value\<close> on a list: \<^verbatim>\<open>list.extend\<close> takes any iterable (a list gives its
  elements, a string its characters, a dict its keys) and raises \<^verbatim>\<open>TypeError\<close> on anything
  else, leaving the list as it was.
\<close>

fun list_iadd :: "json list \<Rightarrow> json \<Rightarrow> exn + json list" where
  "list_iadd acc (JArr xs) = Inr (acc @ xs)"
| "list_iadd acc (JStr s) = Inr (acc @ map (\<lambda>ch. JStr [ch]) s)"
| "list_iadd acc (JObj kvs) = Inr (acc @ map (\<lambda>kv. JStr (fst kv)) kvs)"
| "list_iadd acc JNull = Inl TypeError"
| "list_iadd acc (JBool b) = Inl TypeError"
| "list_iadd acc (JInt i) = Inl TypeError"

subsection \<open>DiscoveryApiClient\<close>

text \<open>
  The class attributes, read from the Django settings (defaults 4, 2 and 15). They are
  counts and seconds: natural numbers.
\<close>

record DiscoveryApiClient =
  MAX_RETRIES :: nat
  BACKOFF_FACTOR :: nat
  HTTP_TIMEOUT :: nat

record CatalogQuery =
  content_filter :: json

text \<open>\<^verbatim>\<open>_calculate_backoff\<close>; the retry loop calls it with \<open>attempt_count \<ge> 1\<close>.\<close>

definition calculate_backoff :: "DiscoveryApiClient \<Rightarrow> nat \<Rightarrow> nat" where
  "calculate_backoff self attempt_count = BACKOFF_FACTOR self * 2 ^ (attempt_count - 1)"

definition search_request :: "DiscoveryApiClient \<Rightarrow> json \<Rightarrow> dict \<Rightarrow> request" where
  "search_request self cf request_params =
     \<lparr>http_method = POST, url = DISCOVERY_SEARCH_ALL_ENDPOINT, json_payload = Some cf,
      params = request_params, timeout = HTTP_TIMEOUT self\<rparr>"

text \<open>
  The \<^verbatim>\<open>while True\<close> loop of \<^verbatim>\<open>_retrieve_metadata_for_content_filter\<close>, entered with the
  value of \<open>attempts\<close> before the increment. When \<^verbatim>\<open>post\<close> raises a \<^verbatim>\<open>RequestException\<close>,
  \<^verbatim>\<open>exception\<close> is set and \<^verbatim>\<open>successful\<close> is false: the loop sleeps and goes on while
  \<open>attempts \<le> MAX_RETRIES\<close>, and raises the exception otherwise. When \<^verbatim>\<open>post\<close> returns,
  \<^verbatim>\<open>successful\<close> is \<open>status_code < 400\<close> and \<^verbatim>\<open>exception\<close> is \<^verbatim>\<open>None\<close>: the loop sleeps and
  goes on while \<open>attempts \<le> MAX_RETRIES\<close> and the status is bad, and breaks otherwise;
  \<^verbatim>\<open>response.json()\<close> is called after the loop, outside the \<^verbatim>\<open>try\<close>. An exception of
  \<^verbatim>\<open>post\<close> that is not a \<^verbatim>\<open>RequestException\<close> is not caught and leaves the loop at once.
\<close>

function retry_loop ::
  "DiscoveryApiClient \<Rightarrow> json \<Rightarrow> dict \<Rightarrow> nat \<Rightarrow> world \<Rightarrow> (exn + json) \<times> world" where
  "retry_loop self cf request_params attempts0 w =
     (let attempts = attempts0 + 1;
          (out, w1) = send (search_request self cf request_params) w
      in case out of
           Raises err \<Rightarrow>
             if is_RequestException err
             then (if attempts \<le> MAX_RETRIES self
                   then retry_loop self cf request_params attempts
                          (sleep (calculate_backoff self attempts) w1)
                   else (Inl err, w1))
             else (Inl err, w1)
         | Responds response \<Rightarrow>
             if attempts \<le> MAX_RETRIES self \<and> \<not> status_code response < 400
             then retry_loop self cf request_params attempts
                    (sleep (calculate_backoff self attempts) w1)
             else (response_json response, w1))"
  by pat_completeness auto
termination
  by (relation "measure (\<lambda>(self, cf, request_params, attempts0, w). MAX_RETRIES self - attempts0)")
     auto

definition retrieve_metadata_for_content_filter ::
  "DiscoveryApiClient \<Rightarrow> json \<Rightarrow> int \<Rightarrow> dict \<Rightarrow> world \<Rightarrow> (exn + json) \<times> world" where
  "retrieve_metadata_for_content_filter self cf page request_params w =
     retry_loop self cf request_params 0 w"

text \<open>
  The \<^verbatim>\<open>while response.get('next')\<close> loop of \<^verbatim>\<open>get_metadata_by_query\<close>. The server may
  answer every page with a \<^verbatim>\<open>next\<close>, so the loop has fuel: one unit per iteration, and the
  result \<open>None\<close> when the loop is still running as the fuel ends. The world is returned in
  every case.
\<close>

fun search_pages ::
  "nat \<Rightarrow> DiscoveryApiClient \<Rightarrow> json \<Rightarrow> int \<Rightarrow> dict \<Rightarrow> json list \<Rightarrow> json \<Rightarrow> world
     \<Rightarrow> (exn + json list) option \<times> world" where
  "search_pages fuel self cf page request_params results response w =
     (case py_get response ''next'' JNull of
        Inl exc \<Rightarrow> (Some (Inl exc), w)
      | Inr nxt \<Rightarrow>
          if \<not> truthy nxt then (Some (Inr results), w)
          else (case fuel of
                  0 \<Rightarrow> (None, w)
                | Suc fuel' \<Rightarrow>
                    (let page = page + 1;
                         request_params = dict_update request_params [(''page'', JInt page)];
                         (r, w1) =
                           retrieve_metadata_for_content_filter self cf page request_params w
                     in (case r of
                          Inl exc \<Rightarrow> (Some (Inl exc), w1)
                        | Inr response \<Rightarrow>
                            (case py_get response ''results'' (JArr []) of
                               Inl exc \<Rightarrow> (Some (Inl exc), w1)
                             | Inr v \<Rightarrow>
                                 (case list_iadd results v of
                                    Inl exc \<Rightarrow> (Some (Inl exc), w1)
                                  | Inr results \<Rightarrow>
                                      search_pages fuel' self cf page request_params
                                        results response w1))))))"

text \<open>
  \<^verbatim>\<open>get_metadata_by_query\<close>. The handler logs and re-raises, so an exception of the body is
  the exception of the call.
\<close>

definition get_metadata_by_query ::
  "nat \<Rightarrow> DiscoveryApiClient \<Rightarrow> CatalogQuery \<Rightarrow> world \<Rightarrow> (exn + json list) option \<times> world" where
  "get_metadata_by_query fuel self catalog_query w =
     (let request_params =
            [(''exclude_expired_course_run'', JBool True),
             (''page_size'', JInt 100),
             (''ordering'', JStr ''aggregation_key,start''),
             (''include_learner_pathways'', JBool True)];
          page = 1;
          results = [];
          cf = content_filter catalog_query;
          (r, w1) = retrieve_metadata_for_content_filter self cf page request_params w
      in case r of
           Inl exc \<Rightarrow> (Some (Inl exc), w1)
         | Inr response \<Rightarrow>
             (case py_get response ''results'' (JArr []) of
                Inl exc \<Rightarrow> (Some (Inl exc), w1)
              | Inr v \<Rightarrow>
                  (case list_iadd results v of
                     Inl exc \<Rightarrow> (Some (Inl exc), w1)
                   | Inr results \<Rightarrow>
                       search_pages fuel self cf page request_params results response w1)))"

text \<open>
  \<^verbatim>\<open>_retrieve_courses\<close> and \<^verbatim>\<open>_retrieve_programs\<close> differ in the endpoint only: one GET, then
  \<^verbatim>\<open>.json()\<close> on the response, whatever its status. \<^verbatim>\<open>get_courses\<close> and \<^verbatim>\<open>get_programs\<close>
  are the same text but for the helper they call and for their default parameters, so
  their \<^verbatim>\<open>try\<close> block is modelled once, for an endpoint \<open>ep\<close>.
\<close>

definition list_request :: "endpoint \<Rightarrow> DiscoveryApiClient \<Rightarrow> dict \<Rightarrow> request" where
  "list_request ep self request_params =
     \<lparr>http_method = GET, url = ep, json_payload = None,
      params = request_params, timeout = HTTP_TIMEOUT self\<rparr>"

definition retrieve_list ::
  "endpoint \<Rightarrow> DiscoveryApiClient \<Rightarrow> int \<Rightarrow> dict \<Rightarrow> world \<Rightarrow> (exn + json) \<times> world" where
  "retrieve_list ep self offset request_params w =
     (let (out, w1) = send (list_request ep self request_params) w
      in case out of
           Raises err \<Rightarrow> (Inl err, w1)
         | Responds response \<Rightarrow> (response_json response, w1))"

definition retrieve_courses ::
  "DiscoveryApiClient \<Rightarrow> int \<Rightarrow> dict \<Rightarrow> world \<Rightarrow> (exn + json) \<times> world" where
  "retrieve_courses = retrieve_list DISCOVERY_COURSES_ENDPOINT"

definition retrieve_programs ::
  "DiscoveryApiClient \<Rightarrow> int \<Rightarrow> dict \<Rightarrow> world \<Rightarrow> (exn + json) \<times> world" where
  "retrieve_programs = retrieve_list DISCOVERY_PROGRAMS_ENDPOINT"

text \<open>
  The \<^verbatim>\<open>while response.get('next')\<close> loop of \<^verbatim>\<open>get_courses\<close> and \<^verbatim>\<open>get_programs\<close>, inside
  the \<^verbatim>\<open>try\<close>. The list is extended in place, so what was accumulated survives an
  exception: the loop returns the exception, if one was raised, together with the list.
  \<open>offset_size\<close> is \<^verbatim>\<open>DISCOVERY_OFFSET_SIZE\<close> of \<^verbatim>\<open>constants.py\<close>.
\<close>

fun list_pages ::
  "nat \<Rightarrow> endpoint \<Rightarrow> DiscoveryApiClient \<Rightarrow> int \<Rightarrow> int \<Rightarrow> dict \<Rightarrow> json list \<Rightarrow> json \<Rightarrow> world
     \<Rightarrow> (exn option \<times> json list) option \<times> world" where
  "list_pages fuel ep self offset_size offset request_params items response w =
     (case py_get response ''next'' JNull of
        Inl exc \<Rightarrow> (Some (Some exc, items), w)
      | Inr nxt \<Rightarrow>
          if \<not> truthy nxt then (Some (None, items), w)
          else (case fuel of
                  0 \<Rightarrow> (None, w)
                | Suc fuel' \<Rightarrow>
                    (let offset = offset + offset_size;
                         request_params = dict_update request_params [(''offset'', JInt offset)];
                         (r, w1) = retrieve_list ep self offset request_params w
                     in (case r of
                          Inl exc \<Rightarrow> (Some (Some exc, items), w1)
                        | Inr response \<Rightarrow>
                            (case py_get response ''results'' (JArr []) of
                               Inl exc \<Rightarrow> (Some (Some exc, items), w1)
                             | Inr v \<Rightarrow>
                                 (case list_iadd items v of
                                    Inl exc \<Rightarrow> (Some (Some exc, items), w1)
                                  | Inr items \<Rightarrow>
                                      list_pages fuel' ep self offset_size offset request_params
                                        items response w1))))))"

text \<open>
  The body of the \<^verbatim>\<open>try\<close>: the first page is read with \<^verbatim>\<open>response.get('results')\<close>, whose
  default is \<^verbatim>\<open>None\<close>.
\<close>

definition list_try ::
  "nat \<Rightarrow> endpoint \<Rightarrow> DiscoveryApiClient \<Rightarrow> int \<Rightarrow> dict \<Rightarrow> world
     \<Rightarrow> (exn option \<times> json list) option \<times> world" where
  "list_try fuel ep self offset_size request_params w =
     (let items = [];
          offset = 0;
          (r, w1) = retrieve_list ep self offset request_params w
      in case r of
           Inl exc \<Rightarrow> (Some (Some exc, items), w1)
         | Inr response \<Rightarrow>
             (case py_get response ''results'' JNull of
                Inl exc \<Rightarrow> (Some (Some exc, items), w1)
              | Inr v \<Rightarrow>
                  (case list_iadd items v of
                     Inl exc \<Rightarrow> (Some (Some exc, items), w1)
                   | Inr items \<Rightarrow>
                       list_pages fuel ep self offset_size offset request_params items response w1)))"

text \<open>
  The two handlers, \<^verbatim>\<open>except SoftTimeLimitExceeded\<close> and \<^verbatim>\<open>except Exception\<close>, log and fall
  through to \<^verbatim>\<open>return courses\<close>.
\<close>

definition list_except :: "(exn option \<times> json list) option \<Rightarrow> json list option" where
  "list_except tried =
     (case tried of
        None \<Rightarrow> None
      | Some (None, items) \<Rightarrow> Some items
      | Some (Some exc, items) \<Rightarrow>
          if exc = SoftTimeLimitExceeded then Some items else Some items)"

text \<open>\<^verbatim>\<open>query_params or {}\<close>.\<close>

definition or_empty :: "dict option \<Rightarrow> dict" where
  "or_empty query_params = (case query_params of None \<Rightarrow> [] | Some q \<Rightarrow> q)"

definition get_courses ::
  "nat \<Rightarrow> DiscoveryApiClient \<Rightarrow> int \<Rightarrow> dict option \<Rightarrow> world \<Rightarrow> json list option \<times> world" where
  "get_courses fuel self offset_size query_params w =
     (let request_params =
            dict_update [(''ordering'', JStr ''key''), (''limit'', JInt offset_size)]
              (or_empty query_params);
          (tried, w1) = list_try fuel DISCOVERY_COURSES_ENDPOINT self offset_size request_params w
      in (list_except tried, w1))"

definition get_programs ::
  "nat \<Rightarrow> DiscoveryApiClient \<Rightarrow> int \<Rightarrow> dict option \<Rightarrow> world \<Rightarrow> json list option \<times> world" where
  "get_programs fuel self offset_size query_params w =
     (let request_params =
            dict_update
              [(''ordering'', JStr ''key''), (''limit'', JInt offset_size), (''extended'', JStr ''True'')]
              (or_empty query_params);
          (tried, w1) = list_try fuel DISCOVERY_PROGRAMS_ENDPOINT self offset_size request_params w
      in (list_except tried, w1))"

section \<open>The same methods over a store of objects\<close>

text \<open>
  In the definitions above a dict and a list are values: \<^verbatim>\<open>request_params.update(...)\<close> and
  \<^verbatim>\<open>results += ...\<close> give a new value that the rest of the method uses. In Python they are
  objects, changed in place, and a caller who holds a reference to one of them sees the
  change. The definitions of this section are the same methods with the references written
  out, so that what a call changes, and what it leaves alone, can be stated.

  A \<open>store\<close> holds the objects the methods reach by reference: the \<^verbatim>\<open>DiscoveryApiClient\<close>
  instances (\<^verbatim>\<open>self\<close>), the \<^verbatim>\<open>CatalogQuery\<close> objects, the dicts and the lists. The address of an
  object is its index; creating an object (\<^verbatim>\<open>{...}\<close>, \<^verbatim>\<open>[]\<close>) appends it and gives its address;
  \<^verbatim>\<open>d.update(other)\<close> and \<^verbatim>\<open>xs += ys\<close> replace the object at its address. The numbers \<^verbatim>\<open>page\<close>,
  \<^verbatim>\<open>offset\<close> and \<^verbatim>\<open>attempts\<close>, the parsed responses and the content filter are values held in
  local variables, as above. The temporary dicts \<^verbatim>\<open>{'page': page}\<close>, \<^verbatim>\<open>{'offset': offset}\<close> and
  the \<^verbatim>\<open>{}\<close> of \<^verbatim>\<open>query_params or {}\<close> are read once and never referred to again: they are
  not given an address. \<^verbatim>\<open>self.client.post\<close> and \<^verbatim>\<open>self.client.get\<close> read the parameter dict
  they are given, as \<open>send\<close> does.
\<close>

record store =
  client_objs :: "DiscoveryApiClient list"
  query_objs :: "CatalogQuery list"
  dict_objs :: "dict list"
  list_objs :: "json list list"

text \<open>A dict display or \<^verbatim>\<open>[]\<close>: a new object, at a new address.\<close>

definition new_dict :: "dict \<Rightarrow> store \<Rightarrow> nat \<times> store" where
  "new_dict d h = (length (dict_objs h), h\<lparr>dict_objs := dict_objs h @ [d]\<rparr>)"

definition new_list :: "json list \<Rightarrow> store \<Rightarrow> nat \<times> store" where
  "new_list xs h = (length (list_objs h), h\<lparr>list_objs := list_objs h @ [xs]\<rparr>)"

definition set_dict :: "nat \<Rightarrow> dict \<Rightarrow> store \<Rightarrow> store" where
  "set_dict a d h = h\<lparr>dict_objs := (dict_objs h)[a := d]\<rparr>"

definition set_list :: "nat \<Rightarrow> json list \<Rightarrow> store \<Rightarrow> store" where
  "set_list a xs h = h\<lparr>list_objs := (list_objs h)[a := xs]\<rparr>"

text \<open>
  \<^verbatim>\<open>_retrieve_metadata_for_content_filter\<close>, called with the addresses of the client and of
  the parameter dict: each attempt reads \<^verbatim>\<open>self.HTTP_TIMEOUT\<close>, \<^verbatim>\<open>self.MAX_RETRIES\<close>,
  \<^verbatim>\<open>self.BACKOFF_FACTOR\<close> and the dict from the store. \<^verbatim>\<open>attempts\<close> is the local counter, set
  to 0 by each call.
\<close>

function st_retry_loop ::
  "nat \<Rightarrow> json \<Rightarrow> nat \<Rightarrow> nat \<Rightarrow> store \<times> world \<Rightarrow> (exn + json) \<times> (store \<times> world)" where
  "st_retry_loop self cf request_params attempts0 (h, w) =
     (let attempts = attempts0 + 1;
          (out, w1) =
            send (search_request (client_objs h ! self) cf (dict_objs h ! request_params)) w
      in case out of
           Raises err \<Rightarrow>
             if is_RequestException err
             then (if attempts \<le> MAX_RETRIES (client_objs h ! self)
                   then st_retry_loop self cf request_params attempts
                          (h, sleep (calculate_backoff (client_objs h ! self) attempts) w1)
                   else (Inl err, (h, w1)))
             else (Inl err, (h, w1))
         | Responds response \<Rightarrow>
             if attempts \<le> MAX_RETRIES (client_objs h ! self) \<and> \<not> status_code response < 400
             then st_retry_loop self cf request_params attempts
                    (h, sleep (calculate_backoff (client_objs h ! self) attempts) w1)
             else (response_json response, (h, w1)))"
  by pat_completeness auto
termination
  by (relation "measure (\<lambda>(self, cf, request_params, attempts0, h, w).
                  MAX_RETRIES (client_objs h ! self) - attempts0)")
     auto

definition st_retrieve_metadata_for_content_filter ::
  "nat \<Rightarrow> json \<Rightarrow> int \<Rightarrow> nat \<Rightarrow> store \<times> world \<Rightarrow> (exn + json) \<times> (store \<times> world)" where
  "st_retrieve_metadata_for_content_filter self cf page request_params hw =
     st_retry_loop self cf request_params 0 hw"

text \<open>
  The \<^verbatim>\<open>while response.get('next')\<close> loop of \<^verbatim>\<open>get_metadata_by_query\<close>: \<open>request_params\<close> and
  \<open>results\<close> are the addresses of the dict and of the list of the call, both changed in
  place. The loop returns the address of the list.
\<close>

fun st_search_pages ::
  "nat \<Rightarrow> nat \<Rightarrow> json \<Rightarrow> int \<Rightarrow> nat \<Rightarrow> nat \<Rightarrow> json \<Rightarrow> store \<times> world
     \<Rightarrow> (exn + nat) option \<times> (store \<times> world)" where
  "st_search_pages fuel self cf page request_params results response (h, w) =
     (case py_get response ''next'' JNull of
        Inl exc \<Rightarrow> (Some (Inl exc), (h, w))
      | Inr nxt \<Rightarrow>
          if \<not> truthy nxt then (Some (Inr results), (h, w))
          else (case fuel of
                  0 \<Rightarrow> (None, (h, w))
                | Suc fuel' \<Rightarrow>
                    (let page = page + 1;
                         h1 = set_dict request_params
                                (dict_update (dict_objs h ! request_params) [(''page'', JInt page)]) h;
                         (r, h2, w1) =
                           st_retrieve_metadata_for_content_filter self cf page request_params
                             (h1, w)
                     in (case r of
                          Inl exc \<Rightarrow> (Some (Inl exc), (h2, w1))
                        | Inr response \<Rightarrow>
                            (case py_get response ''results'' (JArr []) of
                               Inl exc \<Rightarrow> (Some (Inl exc), (h2, w1))
                             | Inr v \<Rightarrow>
                                 (case list_iadd (list_objs h2 ! results) v of
                                    Inl exc \<Rightarrow> (Some (Inl exc), (h2, w1))
                                  | Inr extended \<Rightarrow>
                                      st_search_pages fuel' self cf page request_params results
                                        response (set_list results extended h2, w1)))))))"

text \<open>
  \<^verbatim>\<open>get_metadata_by_query\<close>: the parameter dict and the result list are created by the call;
  \<^verbatim>\<open>catalog_query.content_filter\<close> is read from the store.
\<close>

definition st_get_metadata_by_query ::
  "nat \<Rightarrow> nat \<Rightarrow> nat \<Rightarrow> store \<times> world \<Rightarrow> (exn + nat) option \<times> (store \<times> world)" where
  "st_get_metadata_by_query fuel self catalog_query hw =
     (let (h, w) = hw;
          (request_params, h1) =
            new_dict [(''exclude_expired_course_run'', JBool True),
                      (''page_size'', JInt 100),
                      (''ordering'', JStr ''aggregation_key,start''),
                      (''include_learner_pathways'', JBool True)] h;
          page = 1;
          (results, h2) = new_list [] h1;
          cf = content_filter (query_objs h2 ! catalog_query);
          (r, h3, w1) =
            st_retrieve_metadata_for_content_filter self cf page request_params (h2, w)
      in case r of
           Inl exc \<Rightarrow> (Some (Inl exc), (h3, w1))
         | Inr response \<Rightarrow>
             (case py_get response ''results'' (JArr []) of
                Inl exc \<Rightarrow> (Some (Inl exc), (h3, w1))
              | Inr v \<Rightarrow>
                  (case list_iadd (list_objs h3 ! results) v of
                     Inl exc \<Rightarrow> (Some (Inl exc), (h3, w1))
                   | Inr extended \<Rightarrow>
                       st_search_pages fuel self cf page request_params results response
                         (set_list results extended h3, w1))))"

text \<open>\<^verbatim>\<open>_retrieve_courses\<close> and \<^verbatim>\<open>_retrieve_programs\<close>.\<close>

definition st_retrieve_list ::
  "endpoint \<Rightarrow> nat \<Rightarrow> int \<Rightarrow> nat \<Rightarrow> store \<times> world \<Rightarrow> (exn + json) \<times> (store \<times> world)" where
  "st_retrieve_list ep self offset request_params hw =
     (let (h, w) = hw;
          (out, w1) = send (list_request ep (client_objs h ! self) (dict_objs h ! request_params)) w
      in case out of
           Raises err \<Rightarrow> (Inl err, (h, w1))
         | Responds response \<Rightarrow> (response_json response, (h, w1)))"

text \<open>The loop and the \<^verbatim>\<open>try\<close> block of \<^verbatim>\<open>get_courses\<close> and \<^verbatim>\<open>get_programs\<close>.\<close>

fun st_list_pages ::
  "nat \<Rightarrow> endpoint \<Rightarrow> nat \<Rightarrow> int \<Rightarrow> int \<Rightarrow> nat \<Rightarrow> nat \<Rightarrow> json \<Rightarrow> store \<times> world
     \<Rightarrow> exn option option \<times> (store \<times> world)" where
  "st_list_pages fuel ep self offset_size offset request_params items response (h, w) =
     (case py_get response ''next'' JNull of
        Inl exc \<Rightarrow> (Some (Some exc), (h, w))
      | Inr nxt \<Rightarrow>
          if \<not> truthy nxt then (Some None, (h, w))
          else (case fuel of
                  0 \<Rightarrow> (None, (h, w))
                | Suc fuel' \<Rightarrow>
                    (let offset = offset + offset_size;
                         h1 = set_dict request_params
                                (dict_update (dict_objs h ! request_params)
                                   [(''offset'', JInt offset)]) h;
                         (r, h2, w1) = st_retrieve_list ep self offset request_params (h1, w)
                     in (case r of
                          Inl exc \<Rightarrow> (Some (Some exc), (h2, w1))
                        | Inr response \<Rightarrow>
                            (case py_get response ''results'' (JArr []) of
                               Inl exc \<Rightarrow> (Some (Some exc), (h2, w1))
                             | Inr v \<Rightarrow>
                                 (case list_iadd (list_objs h2 ! items) v of
                                    Inl exc \<Rightarrow> (Some (Some exc), (h2, w1))
                                  | Inr extended \<Rightarrow>
                                      st_list_pages fuel' ep self offset_size offset
                                        request_params items response
                                        (set_list items extended h2, w1)))))))"

definition st_list_try ::
  "nat \<Rightarrow> endpoint \<Rightarrow> nat \<Rightarrow> int \<Rightarrow> nat \<Rightarrow> nat \<Rightarrow> store \<times> world
     \<Rightarrow> exn option option \<times> (store \<times> world)" where
  "st_list_try fuel ep self offset_size request_params items hw =
     (let offset = 0;
          (r, h1, w1) = st_retrieve_list ep self offset request_params hw
      in case r of
           Inl exc \<Rightarrow> (Some (Some exc), (h1, w1))
         | Inr response \<Rightarrow>
             (case py_get response ''results'' JNull of
                Inl exc \<Rightarrow> (Some (Some exc), (h1, w1))
              | Inr v \<Rightarrow>
                  (case list_iadd (list_objs h1 ! items) v of
                     Inl exc \<Rightarrow> (Some (Some exc), (h1, w1))
                   | Inr extended \<Rightarrow>
                       st_list_pages fuel ep self offset_size offset request_params items response
                         (set_list items extended h1, w1))))"

text \<open>The two handlers fall through to \<^verbatim>\<open>return courses\<close>: the address of the list.\<close>

definition st_list_except :: "exn option option \<Rightarrow> nat \<Rightarrow> nat option" where
  "st_list_except tried items =
     (case tried of
        None \<Rightarrow> None
      | Some None \<Rightarrow> Some items
      | Some (Some exc) \<Rightarrow> if exc = SoftTimeLimitExceeded then Some items else Some items)"

text \<open>
  \<^verbatim>\<open>get_courses\<close> and \<^verbatim>\<open>get_programs\<close>: \<open>query_params\<close> is \<^verbatim>\<open>None\<close> or the address of the
  caller's dict, which \<^verbatim>\<open>request_params.update(query_params or {})\<close> reads. The parameter
  dict and the list are created by the call.
\<close>

definition st_get_courses ::
  "nat \<Rightarrow> nat \<Rightarrow> int \<Rightarrow> nat option \<Rightarrow> store \<times> world \<Rightarrow> nat option \<times> (store \<times> world)" where
  "st_get_courses fuel self offset_size query_params hw =
     (let (h, w) = hw;
          (request_params, h1) =
            new_dict [(''ordering'', JStr ''key''), (''limit'', JInt offset_size)] h;
          h2 = set_dict request_params
                 (dict_update (dict_objs h1 ! request_params)
                    (or_empty (map_option (\<lambda>a. dict_objs h1 ! a) query_params))) h1;
          (courses, h3) = new_list [] h2;
          (tried, hw1) =
            st_list_try fuel DISCOVERY_COURSES_ENDPOINT self offset_size request_params courses
              (h3, w)
      in (st_list_except tried courses, hw1))"

definition st_get_programs ::
  "nat \<Rightarrow> nat \<Rightarrow> int \<Rightarrow> nat option \<Rightarrow> store \<times> world \<Rightarrow> nat option \<times> (store \<times> world)" where
  "st_get_programs fuel self offset_size query_params hw =
     (let (h, w) = hw;
          (request_params, h1) =
            new_dict [(''ordering'', JStr ''key''), (''limit'', JInt offset_size),
                      (''extended'', JStr ''True'')] h;
          h2 = set_dict request_params
                 (dict_update (dict_objs h1 ! request_params)
                    (or_empty (map_option (\<lambda>a. dict_objs h1 ! a) query_params))) h1;
          (programs, h3) = new_list [] h2;
          (tried, hw1) =
            st_list_try fuel DISCOVERY_PROGRAMS_ENDPOINT self offset_size request_params programs
              (h3, w)
      in (st_list_except tried programs, hw1))"

text \<open>
  A call of one of the three operations with its arguments, the call in the store, and
  the operation of the first part of the model on the values that the arguments have in a
  store \<open>h\<close>. A list operation returns a list and a search returns a list or raises: both are
  written as the result of a search.
\<close>

datatype fetch_call = Search_call nat | Courses_call int "nat option" | Programs_call int "nat option"

definition st_fetch ::
  "nat \<Rightarrow> nat \<Rightarrow> fetch_call \<Rightarrow> store \<times> world \<Rightarrow> (exn + nat) option \<times> (store \<times> world)" where
  "st_fetch fuel self c hw =
     (case c of
        Search_call catalog_query \<Rightarrow> st_get_metadata_by_query fuel self catalog_query hw
      | Courses_call offset_size query_params \<Rightarrow>
          apfst (map_option Inr) (st_get_courses fuel self offset_size query_params hw)
      | Programs_call offset_size query_params \<Rightarrow>
          apfst (map_option Inr) (st_get_programs fuel self offset_size query_params hw))"

definition fetch ::
  "nat \<Rightarrow> store \<Rightarrow> nat \<Rightarrow> fetch_call \<Rightarrow> world \<Rightarrow> (exn + json list) option \<times> world" where
  "fetch fuel h self c w =
     (case c of
        Search_call catalog_query \<Rightarrow>
          get_metadata_by_query fuel (client_objs h ! self) (query_objs h ! catalog_query) w
      | Courses_call offset_size query_params \<Rightarrow>
          apfst (map_option Inr)
            (get_courses fuel (client_objs h ! self) offset_size
               (map_option (\<lambda>a. dict_objs h ! a) query_params) w)
      | Programs_call offset_size query_params \<Rightarrow>
          apfst (map_option Inr)
            (get_programs fuel (client_objs h ! self) offset_size
               (map_option (\<lambda>a. dict_objs h ! a) query_params) w))"

section \<open>Vocabulary of the statements\<close>

text \<open>
  The server is scripted: a theorem fixes the outcomes of the first requests and leaves
  the rest of the stream arbitrary. These are the words for the outcomes, for the pages
  they carry and for what is read off a trace.
\<close>

text \<open>A response that carries the page \<open>p\<close> under the status code \<open>st\<close>: \<open>served (st, p)\<close>.\<close>

definition served :: "int \<times> json \<Rightarrow> outcome" where
  "served sp = Responds \<lparr>status_code = fst sp, body = Some (snd sp)\<rparr>"

text \<open>The attempts the retry loop of the search path counts as failed: \<^verbatim>\<open>post\<close> raised a
  \<^verbatim>\<open>RequestException\<close>, or the status code is 400 or more.\<close>

definition retryable :: "outcome \<Rightarrow> bool" where
  "retryable out = (case out of Raises err \<Rightarrow> is_RequestException err
                     | Responds response \<Rightarrow> \<not> status_code response < 400)"

text \<open>What one request comes to once its response is parsed: the exception the request
  raised, or what \<^verbatim>\<open>.json()\<close> gives on the response (the body, or the decode error).\<close>

definition outcome_result :: "outcome \<Rightarrow> exn + json" where
  "outcome_result out = (case out of Raises err \<Rightarrow> Inl err | Responds response \<Rightarrow> response_json response)"

text \<open>\<^verbatim>\<open>response.get('next')\<close> is truthy.\<close>

definition has_next :: "json \<Rightarrow> bool" where
  "has_next p = (case py_get p ''next'' JNull of Inr v \<Rightarrow> truthy v | Inl exc \<Rightarrow> False)"

text \<open>The page has a \<open>results\<close> member and it is a list: \<^verbatim>\<open>response.get('results')\<close>.\<close>

definition has_results :: "json \<Rightarrow> bool" where
  "has_results p = (case py_get p ''results'' JNull of Inr (JArr xs) \<Rightarrow> True | _ \<Rightarrow> False)"

text \<open>The page can be added to the accumulator: \<^verbatim>\<open>response.get('results', [])\<close> is a list.\<close>

definition extends :: "json \<Rightarrow> bool" where
  "extends p = (case py_get p ''results'' (JArr []) of Inr (JArr xs) \<Rightarrow> True | _ \<Rightarrow> False)"

text \<open>The results of a page, none when it has no such list.\<close>

definition page_results :: "json \<Rightarrow> json list" where
  "page_results p = (case py_get p ''results'' (JArr []) of Inr (JArr xs) \<Rightarrow> xs | _ \<Rightarrow> [])"

text \<open>The requests of a trace, in order.\<close>

fun requests_in :: "event list \<Rightarrow> request list" where
  "requests_in [] = []"
| "requests_in (Request rq # es) = rq # requests_in es"
| "requests_in (Sleep n # es) = requests_in es"

text \<open>The seconds slept in a trace, in order.\<close>

fun sleeps_in :: "event list \<Rightarrow> nat list" where
  "sleeps_in [] = []"
| "sleeps_in (Request rq # es) = sleeps_in es"
| "sleeps_in (Sleep n # es) = n # sleeps_in es"

text \<open>The \<open>offset\<close> parameter of each request of a trace, \<open>None\<close> for a request without one.\<close>

definition offsets_sent :: "event list \<Rightarrow> json option list" where
  "offsets_sent es = map (\<lambda>rq. map_of (params rq) ''offset'') (requests_in es)"

text \<open>The traces and parameters that the lemmas compute with.\<close>

text \<open>The trace of \<open>n\<close> failed attempts, the first of them being attempt \<open>a + 1\<close>: each is a
  request followed by the sleep of its number.\<close>

definition backoffs :: "DiscoveryApiClient \<Rightarrow> request \<Rightarrow> nat \<Rightarrow> nat \<Rightarrow> event list" where
  "backoffs self rq a n =
     concat (map (\<lambda>k. [Request rq, Sleep (BACKOFF_FACTOR self * 2 ^ (k - 1))]) [Suc a..<Suc (a + n)])"

text \<open>The world after \<open>n\<close> failed attempts and one last request, from the trace \<open>t\<close>.\<close>

definition attempts_world ::
  "DiscoveryApiClient \<Rightarrow> request \<Rightarrow> nat \<Rightarrow> outcome stream \<Rightarrow> event list \<Rightarrow> world" where
  "attempts_world self rq n s t = \<lparr>server = s, trace = t @ backoffs self rq 0 n @ [Request rq]\<rparr>"

text \<open>The parameter dict \<^verbatim>\<open>get_metadata_by_query\<close> starts from.\<close>

definition search_defaults :: dict where
  "search_defaults =
     [(''exclude_expired_course_run'', JBool True),
      (''page_size'', JInt 100),
      (''ordering'', JStr ''aggregation_key,start''),
      (''include_learner_pathways'', JBool True)]"

text \<open>The parameters of the search request \<open>n\<close> iterations after those with \<open>rp\<close> and page number
  \<open>page\<close>.\<close>

definition page_params :: "dict \<Rightarrow> int \<Rightarrow> nat \<Rightarrow> dict" where
  "page_params rp page n = (if n = 0 then rp else dict_set rp ''page'' (JInt (page + int n)))"

text \<open>The parameters of the list request \<open>n\<close> iterations after those with \<open>rp\<close> and \<open>offset\<close>.\<close>

definition offset_params :: "dict \<Rightarrow> int \<Rightarrow> int \<Rightarrow> nat \<Rightarrow> dict" where
  "offset_params rp offset sz n =
     (if n = 0 then rp else dict_set rp ''offset'' (JInt (offset + int n * sz)))"

text \<open>The requests of the first \<open>n\<close> pages of a search, each sent once.\<close>

definition search_trace :: "DiscoveryApiClient \<Rightarrow> CatalogQuery \<Rightarrow> nat \<Rightarrow> event list" where
  "search_trace self cq n =
     map (\<lambda>k. Request (search_request self (content_filter cq) (page_params search_defaults 1 k)))
       [0..<n]"

text \<open>The requests of the first \<open>n\<close> pages of a list traversal.\<close>

definition list_trace ::
  "endpoint \<Rightarrow> DiscoveryApiClient \<Rightarrow> dict \<Rightarrow> int \<Rightarrow> nat \<Rightarrow> event list" where
  "list_trace ep self rp sz n =
     map (\<lambda>k. Request (list_request ep self (offset_params rp 0 sz k))) [0..<n]"

text \<open>The same world with more history before its trace.\<close>

definition prepend :: "event list \<Rightarrow> world \<Rightarrow> world" where
  "prepend t w = w\<lparr>trace := t @ trace w\<rparr>"

text \<open>The words of the statement about the objects of a call.\<close>

text \<open>The arguments of a call are in the store: \<open>query_params\<close>, when it is not \<^verbatim>\<open>None\<close>, is the
  address of a dict.\<close>

definition args_allocated :: "store \<Rightarrow> fetch_call \<Rightarrow> bool" where
  "args_allocated h c =
     (case c of
        Search_call catalog_query \<Rightarrow> True
      | Courses_call offset_size query_params \<Rightarrow>
          pred_option (\<lambda>a. a < length (dict_objs h)) query_params
      | Programs_call offset_size query_params \<Rightarrow>
          pred_option (\<lambda>a. a < length (dict_objs h)) query_params)"

text \<open>What a call returned, with the list read from the store: the elements of the list, the
  exception, or \<open>None\<close> when the fuel ended.\<close>

definition returned :: "store \<Rightarrow> (exn + nat) option \<Rightarrow> (exn + json list) option" where
  "returned h r = map_option (map_sum (\<lambda>exc. exc) (\<lambda>a. list_objs h ! a)) r"

text \<open>The events added to the trace of \<open>w\<close> on the way to \<open>w1\<close>.\<close>

definition events_since :: "world \<Rightarrow> world \<Rightarrow> event list" where
  "events_since w w1 = drop (length (trace w)) (trace w1)"

text \<open>Every object of \<open>h\<close> is in \<open>h'\<close>, at the same address and with the same content; \<open>h'\<close> may hold
  more dicts and more lists.\<close>

definition preserved :: "store \<Rightarrow> store \<Rightarrow> bool" where
  "preserved h h' \<longleftrightarrow>
     client_objs h' = client_objs h \<and> query_objs h' = query_objs h \<and>
     take (length (dict_objs h)) (dict_objs h') = dict_objs h \<and>
     take (length (list_objs h)) (list_objs h') = list_objs h"

text \<open>The two stores hold the same objects, but for the dict at \<open>rp\<close> and the list at \<open>acc\<close>.\<close>

definition only_at :: "nat \<Rightarrow> nat \<Rightarrow> store \<Rightarrow> store \<Rightarrow> bool" where
  "only_at rp acc h h' \<longleftrightarrow>
     client_objs h' = client_objs h \<and> query_objs h' = query_objs h \<and>
     length (dict_objs h') = length (dict_objs h) \<and>
     length (list_objs h') = length (list_objs h) \<and>
     (\<forall>a. a \<noteq> rp \<longrightarrow> dict_objs h' ! a = dict_objs h ! a) \<and>
     (\<forall>a. a \<noteq> acc \<longrightarrow> list_objs h' ! a = list_objs h ! a)"

section \<open>Lemmas\<close>

declare retry_loop.simps [simp del] search_pages.simps [simp del] list_pages.simps [simp del]

subsection \<open>Dictionaries\<close>

lemma map_of_dict_set: "map_of (dict_set d k v) = (map_of d)(k \<mapsto> v)"
  by (induction d k v rule: dict_set.induct) auto

lemma dict_set_twice: "dict_set (dict_set d k v) k v' = dict_set d k v'"
  by (induction d k v rule: dict_set.induct) auto

lemma map_of_dict_update:
  "distinct (map fst other) \<Longrightarrow> map_of (dict_update d other) = map_of d ++ map_of other"
proof (induction d other rule: dict_update.induct)
  case (1 d)
  then show ?case by simp
next
  case (2 d k v other)
  then have "k \<notin> dom (map_of other)"
    by (simp add: dom_map_of_conv_image_fst)
  then have "map_of other k = None" by blast
  with 2 show ?case
    by (auto simp: map_of_dict_set map_add_def fun_eq_iff split: option.splits)
qed

subsection \<open>The retry loop\<close>

text \<open>
  One attempt of the loop, then any number of failed attempts, then the whole helper.
\<close>

lemma send_Stream [simp]:
  "send rq \<lparr>server = out ## s, trace = t\<rparr> = (out, \<lparr>server = s, trace = t @ [Request rq]\<rparr>)"
  by (simp add: send_def)

lemma sleep_world [simp]:
  "sleep n \<lparr>server = s, trace = t\<rparr> = \<lparr>server = s, trace = t @ [Sleep n]\<rparr>"
  by (simp add: sleep_def)

lemma retry_loop_retry:
  assumes "retryable out" "a < MAX_RETRIES self"
  shows "retry_loop self cf rp a \<lparr>server = out ## s, trace = t\<rparr> =
         retry_loop self cf rp (Suc a)
           \<lparr>server = s, trace = t @ [Request (search_request self cf rp),
                                     Sleep (BACKOFF_FACTOR self * 2 ^ a)]\<rparr>"
  using assms
  by (subst retry_loop.simps) (simp add: retryable_def calculate_backoff_def split: outcome.splits)

lemma retry_loop_final:
  assumes "a = MAX_RETRIES self \<or> \<not> retryable out" "a \<le> MAX_RETRIES self"
  shows "retry_loop self cf rp a \<lparr>server = out ## s, trace = t\<rparr> =
         (outcome_result out, \<lparr>server = s, trace = t @ [Request (search_request self cf rp)]\<rparr>)"
  using assms
  by (subst retry_loop.simps) (auto simp add: retryable_def outcome_result_def split: outcome.splits)

lemma backoffs_Suc:
  "[Request rq, Sleep (BACKOFF_FACTOR self * 2 ^ a)] @ backoffs self rq (Suc a) n = backoffs self rq a (Suc n)"
  by (simp add: backoffs_def upt_conv_Cons del: upt_Suc)

lemma retry_loop_failures:
  assumes "list_all retryable fs" "a + length fs \<le> MAX_RETRIES self"
  shows "retry_loop self cf rp a \<lparr>server = fs @- s, trace = t\<rparr> =
         retry_loop self cf rp (a + length fs)
           \<lparr>server = s, trace = t @ backoffs self (search_request self cf rp) a (length fs)\<rparr>"
  using assms
proof (induction fs arbitrary: a t)
  case Nil
  then show ?case by (simp add: backoffs_def)
next
  case (Cons out fs)
  then have "retry_loop self cf rp a \<lparr>server = (out # fs) @- s, trace = t\<rparr> =
     retry_loop self cf rp (Suc a)
           \<lparr>server = fs @- s, trace = t @ [Request (search_request self cf rp),
                                     Sleep (BACKOFF_FACTOR self * 2 ^ a)]\<rparr>"
    by (simp add: retry_loop_retry)
  also have "\<dots> = retry_loop self cf rp (Suc a + length fs)
           \<lparr>server = s, trace = (t @ [Request (search_request self cf rp),
                                     Sleep (BACKOFF_FACTOR self * 2 ^ a)]) @ backoffs self (search_request self cf rp) (Suc a) (length fs)\<rparr>"
    using Cons.prems by (intro Cons.IH) auto
  finally show ?case
    by (simp add: backoffs_Suc [symmetric])
qed

lemma retrieve_attempts:
  assumes "list_all retryable pre" "length pre \<le> MAX_RETRIES self"
    and "length pre = MAX_RETRIES self \<or> \<not> retryable out"
  shows "retrieve_metadata_for_content_filter self cf page rp \<lparr>server = (pre @ [out]) @- s, trace = t\<rparr> =
         (outcome_result out,
          \<lparr>server = s, trace = t @ backoffs self (search_request self cf rp) 0 (length pre)
                                @ [Request (search_request self cf rp)]\<rparr>)"
  using assms
  by (simp add: retrieve_metadata_for_content_filter_def retry_loop_failures retry_loop_final)

subsection \<open>Pages\<close>

lemma extendsD:
  assumes "extends p"
  shows "py_get p ''results'' (JArr []) = Inr (JArr (page_results p))"
  using assms by (auto simp: extends_def page_results_def split: sum.splits json.splits)

lemma has_resultsD:
  assumes "has_results p"
  shows "py_get p ''results'' JNull = Inr (JArr (page_results p))" and "extends p"
  using assms
  by (cases p; auto simp: has_results_def page_results_def extends_def py_get_def split: option.splits json.splits)+

lemma has_nextD:
  assumes "has_next p"
  obtains v where "py_get p ''next'' JNull = Inr v" "truthy v"
  using assms by (auto simp: has_next_def split: sum.splits)

lemma no_nextD:
  assumes "\<not> has_next p" "extends p"
  obtains v where "py_get p ''next'' JNull = Inr v" "\<not> truthy v"
  using assms by (cases p) (auto simp: has_next_def extends_def py_get_def)

lemma outcome_result_served [simp]: "outcome_result (served (st, p)) = Inr p"
  by (simp add: outcome_result_def served_def response_json_def)

lemma retryable_served [simp]: "retryable (served (st, p)) \<longleftrightarrow> \<not> st < 400"
  by (simp add: retryable_def served_def)

lemma retrieve_first_try:
  assumes "\<not> retryable out"
  shows "retrieve_metadata_for_content_filter self cf page rp \<lparr>server = out ## s, trace = t\<rparr> =
         (outcome_result out, \<lparr>server = s, trace = t @ [Request (search_request self cf rp)]\<rparr>)"
  using assms retrieve_attempts [of "[]" self out cf page rp s t]
  by (simp add: backoffs_def)

subsection \<open>The traversal of the search endpoint\<close>

text \<open>
  One iteration of the loop on a page that arrives at the first attempt, then a run of such pages.
\<close>

lemma search_pages_stop:
  assumes "\<not> has_next resp" "extends resp"
  shows "search_pages fuel self cf page rp acc resp w = (Some (Inr acc), w)"
  using assms by (subst search_pages.simps) (auto elim!: no_nextD)

lemma search_pages_step:
  assumes "has_next resp" "st < 400" "extends p"
  shows "search_pages (Suc fuel) self cf page rp acc resp \<lparr>server = served (st, p) ## s, trace = t\<rparr> =
         search_pages fuel self cf (page + 1) (dict_set rp ''page'' (JInt (page + 1)))
           (acc @ page_results p) p
           \<lparr>server = s,
            trace = t @ [Request (search_request self cf (dict_set rp ''page'' (JInt (page + 1))))]\<rparr>"
proof -
  from assms(1) obtain v where "py_get resp ''next'' JNull = Inr v" "truthy v"
    by (rule has_nextD)
  with assms(2,3) show ?thesis
    by (subst search_pages.simps) (simp add: retrieve_first_try extendsD Let_def)
qed

lemma map_upt_shift:
  assumes "a \<le> n"
  shows "map f [a..<Suc n] = f a # map (\<lambda>k. f (Suc k)) [a..<n]"
proof -
  have "map (\<lambda>k. f (Suc k)) [a..<n] = map f (map Suc [a..<n])"
    by (simp add: comp_def)
  also have "\<dots> = map f [Suc a..<Suc n]"
    by (simp only: map_Suc_upt)
  finally show ?thesis
    using assms by (simp add: upt_conv_Cons del: upt_Suc)
qed

lemma search_pages_prefix:
  assumes "list_all (\<lambda>sp. fst sp < 400 \<and> extends (snd sp)) sps"
    and "list_all has_next (butlast (resp # map snd sps))"
    and "length sps \<le> fuel"
  shows "search_pages fuel self cf page rp acc resp \<lparr>server = map served sps @- s, trace = t\<rparr> =
         search_pages (fuel - length sps) self cf (page + int (length sps))
           (page_params rp page (length sps))
           (acc @ concat (map (\<lambda>sp. page_results (snd sp)) sps))
           (last (resp # map snd sps))
           \<lparr>server = s,
            trace = t @ map (\<lambda>k. Request (search_request self cf (page_params rp page k)))
                          [1..<Suc (length sps)]\<rparr>"
  using assms
proof (induction sps arbitrary: fuel page rp acc resp t)
  case Nil
  then show ?case by (simp add: page_params_def)
next
  case (Cons sp sps)
  obtain st p where sp: "sp = (st, p)" by (cases sp)
  from Cons.prems obtain fuel' where fuel: "fuel = Suc fuel'" "length sps \<le> fuel'"
    by (cases fuel) auto
  from Cons.prems sp have good: "has_next resp" "st < 400" "extends p"
    "list_all (\<lambda>sp. fst sp < 400 \<and> extends (snd sp)) sps"
    "list_all has_next (butlast (p # map snd sps))"
    by auto
  have pp: "page_params (dict_set rp ''page'' (JInt (page + 1))) (page + 1) k = page_params rp page (Suc k)" for k
    by (simp add: page_params_def dict_set_twice add.assoc)
  let ?rp1 = "dict_set rp ''page'' (JInt (page + 1))"
  have "search_pages fuel self cf page rp acc resp
          \<lparr>server = map served (sp # sps) @- s, trace = t\<rparr> =
        search_pages fuel' self cf (page + 1) ?rp1 (acc @ page_results p) p
          \<lparr>server = map served sps @- s,
           trace = t @ [Request (search_request self cf ?rp1)]\<rparr>"
    unfolding sp fuel by (simp add: search_pages_step [OF good(1,2,3)])
  also have "\<dots> =
        search_pages (fuel' - length sps) self cf (page + 1 + int (length sps))
          (page_params ?rp1 (page + 1) (length sps))
          ((acc @ page_results p) @ concat (map (\<lambda>sp. page_results (snd sp)) sps))
          (last (p # map snd sps))
          \<lparr>server = s,
           trace = (t @ [Request (search_request self cf ?rp1)]) @
                   map (\<lambda>k. Request (search_request self cf (page_params ?rp1 (page + 1) k)))
                     [1..<Suc (length sps)]\<rparr>"
    by (rule Cons.IH [OF good(4) good(5) fuel(2)])
  also have "\<dots> =
        search_pages (fuel - length (sp # sps)) self cf (page + int (length (sp # sps)))
          (page_params rp page (length (sp # sps)))
          (acc @ concat (map (\<lambda>sp. page_results (snd sp)) (sp # sps)))
          (last (resp # map snd (sp # sps)))
          \<lparr>server = s,
           trace = t @ map (\<lambda>k. Request (search_request self cf (page_params rp page k)))
                         [1..<Suc (length (sp # sps))]\<rparr>"
  proof -
    have one: "?rp1 = page_params rp page 1"
      by (simp add: page_params_def)
    have "map (\<lambda>k. Request (search_request self cf (page_params rp page k)))
            [1..<Suc (length (sp # sps))] =
          Request (search_request self cf ?rp1) #
          map (\<lambda>k. Request (search_request self cf (page_params ?rp1 (page + 1) k)))
            [1..<Suc (length sps)]"
      by (simp only: list.size map_upt_shift [of 1] pp [symmetric] one [symmetric]) simp
    then show ?thesis
      by (simp add: pp sp fuel add.assoc del: upt_Suc)
  qed
  finally show ?case .
qed

subsection \<open>The traversal of the list endpoints\<close>

lemma retrieve_list_Stream:
  "retrieve_list ep self offset rp \<lparr>server = out ## s, trace = t\<rparr> =
     (outcome_result out, \<lparr>server = s, trace = t @ [Request (list_request ep self rp)]\<rparr>)"
  by (simp add: retrieve_list_def outcome_result_def split: outcome.splits)

lemma list_pages_stop:
  assumes "\<not> has_next resp" "extends resp"
  shows "list_pages fuel ep self sz offset rp acc resp w = (Some (None, acc), w)"
  using assms by (subst list_pages.simps) (auto elim!: no_nextD)

lemma list_pages_step:
  assumes "has_next resp" "extends p"
  shows "list_pages (Suc fuel) ep self sz offset rp acc resp
           \<lparr>server = served (st, p) ## s, trace = t\<rparr> =
         list_pages fuel ep self sz (offset + sz) (dict_set rp ''offset'' (JInt (offset + sz)))
           (acc @ page_results p) p
           \<lparr>server = s,
            trace = t @ [Request (list_request ep self
                                    (dict_set rp ''offset'' (JInt (offset + sz))))]\<rparr>"
proof -
  from assms(1) obtain v where "py_get resp ''next'' JNull = Inr v" "truthy v"
    by (rule has_nextD)
  with assms(2) show ?thesis
    by (subst list_pages.simps) (simp add: retrieve_list_Stream extendsD Let_def)
qed

lemma list_pages_raise:
  assumes "has_next resp" "outcome_result out = Inl exc"
  shows "list_pages (Suc fuel) ep self sz offset rp acc resp \<lparr>server = out ## s, trace = t\<rparr> =
         (Some (Some exc, acc),
          \<lparr>server = s,
           trace = t @ [Request (list_request ep self
                                   (dict_set rp ''offset'' (JInt (offset + sz))))]\<rparr>)"
proof -
  from assms(1) obtain v where "py_get resp ''next'' JNull = Inr v" "truthy v"
    by (rule has_nextD)
  with assms(2) show ?thesis
    by (subst list_pages.simps) (simp add: retrieve_list_Stream Let_def)
qed

lemma list_pages_prefix:
  assumes "list_all (\<lambda>sp. extends (snd sp)) sps"
    and "list_all has_next (butlast (resp # map snd sps))"
    and "length sps \<le> fuel"
  shows "list_pages fuel ep self sz offset rp acc resp
           \<lparr>server = map served sps @- s, trace = t\<rparr> =
         list_pages (fuel - length sps) ep self sz (offset + int (length sps) * sz)
           (offset_params rp offset sz (length sps))
           (acc @ concat (map (\<lambda>sp. page_results (snd sp)) sps))
           (last (resp # map snd sps))
           \<lparr>server = s,
            trace = t @ map (\<lambda>k. Request (list_request ep self (offset_params rp offset sz k)))
                          [1..<Suc (length sps)]\<rparr>"
  using assms
proof (induction sps arbitrary: fuel offset rp acc resp t)
  case Nil
  then show ?case by (simp add: offset_params_def)
next
  case (Cons sp sps)
  obtain st p where sp: "sp = (st, p)" by (cases sp)
  from Cons.prems obtain fuel' where fuel: "fuel = Suc fuel'" "length sps \<le> fuel'"
    by (cases fuel) auto
  from Cons.prems sp have good: "has_next resp" "extends p"
    "list_all (\<lambda>sp. extends (snd sp)) sps"
    "list_all has_next (butlast (p # map snd sps))"
    by auto
  let ?rp1 = "dict_set rp ''offset'' (JInt (offset + sz))"
  have pp: "offset_params ?rp1 (offset + sz) sz k = offset_params rp offset sz (Suc k)" for k
    by (simp add: offset_params_def dict_set_twice algebra_simps)
  have one: "?rp1 = offset_params rp offset sz 1"
    by (simp add: offset_params_def)
  have "list_pages fuel ep self sz offset rp acc resp
          \<lparr>server = map served (sp # sps) @- s, trace = t\<rparr> =
        list_pages fuel' ep self sz (offset + sz) ?rp1 (acc @ page_results p) p
          \<lparr>server = map served sps @- s,
           trace = t @ [Request (list_request ep self ?rp1)]\<rparr>"
    unfolding sp fuel by (simp add: list_pages_step [OF good(1,2)])
  also have "\<dots> =
        list_pages (fuel' - length sps) ep self sz (offset + sz + int (length sps) * sz)
          (offset_params ?rp1 (offset + sz) sz (length sps))
          ((acc @ page_results p) @ concat (map (\<lambda>sp. page_results (snd sp)) sps))
          (last (p # map snd sps))
          \<lparr>server = s,
           trace = (t @ [Request (list_request ep self ?rp1)]) @
                   map (\<lambda>k. Request (list_request ep self (offset_params ?rp1 (offset + sz) sz k)))
                     [1..<Suc (length sps)]\<rparr>"
    by (rule Cons.IH [OF good(3) good(4) fuel(2)])
  also have "\<dots> =
        list_pages (fuel - length (sp # sps)) ep self sz (offset + int (length (sp # sps)) * sz)
          (offset_params rp offset sz (length (sp # sps)))
          (acc @ concat (map (\<lambda>sp. page_results (snd sp)) (sp # sps)))
          (last (resp # map snd (sp # sps)))
          \<lparr>server = s,
           trace = t @ map (\<lambda>k. Request (list_request ep self (offset_params rp offset sz k)))
                         [1..<Suc (length (sp # sps))]\<rparr>"
  proof -
    have "map (\<lambda>k. Request (list_request ep self (offset_params rp offset sz k)))
            [1..<Suc (length (sp # sps))] =
          Request (list_request ep self ?rp1) #
          map (\<lambda>k. Request (list_request ep self (offset_params ?rp1 (offset + sz) sz k)))
            [1..<Suc (length sps)]"
      by (simp only: list.size map_upt_shift [of 1] pp [symmetric] one [symmetric]) simp
    then show ?thesis
      by (simp add: pp sp fuel algebra_simps del: upt_Suc)
  qed
  finally show ?case .
qed

lemma upt_0_Cons: "map f [0..<Suc n] = f 0 # map f [1..<Suc n]"
  by (simp add: upt_conv_Cons del: upt_Suc)

subsection \<open>The operations on a run of pages\<close>

lemma gmq_pages:
  assumes "sps \<noteq> []"
    and "list_all (\<lambda>sp. fst sp < 400 \<and> extends (snd sp)) sps"
    and "list_all has_next (butlast (map snd sps))"
    and "length sps \<le> Suc fuel"
  shows "get_metadata_by_query fuel self cq \<lparr>server = map served sps @- s, trace = t\<rparr> =
         search_pages (Suc fuel - length sps) self (content_filter cq) (int (length sps))
           (page_params search_defaults 1 (length sps - 1))
           (concat (map (\<lambda>sp. page_results (snd sp)) sps))
           (snd (last sps))
           \<lparr>server = s,
            trace = t @ map (\<lambda>k. Request (search_request self (content_filter cq)
                                             (page_params search_defaults 1 k)))
                          [0..<length sps]\<rparr>"
proof -
  from assms(1) obtain st p sps' where sps: "sps = (st, p) # sps'"
    by (cases sps) auto
  with assms have good: "st < 400" "extends p"
    "list_all (\<lambda>sp. fst sp < 400 \<and> extends (snd sp)) sps'"
    "list_all has_next (butlast (p # map snd sps'))" "length sps' \<le> fuel"
    by auto
  let ?cf = "content_filter cq"
  have "get_metadata_by_query fuel self cq \<lparr>server = map served sps @- s, trace = t\<rparr> =
        search_pages fuel self ?cf 1 search_defaults (page_results p) p
          \<lparr>server = map served sps' @- s,
           trace = t @ [Request (search_request self ?cf search_defaults)]\<rparr>"
    using good(1,2)
    by (simp add: get_metadata_by_query_def sps retrieve_first_try extendsD search_defaults_def Let_def)
  also have "\<dots> =
        search_pages (fuel - length sps') self ?cf (1 + int (length sps'))
          (page_params search_defaults 1 (length sps'))
          (page_results p @ concat (map (\<lambda>sp. page_results (snd sp)) sps'))
          (last (p # map snd sps'))
          \<lparr>server = s,
           trace = (t @ [Request (search_request self ?cf search_defaults)]) @
                   map (\<lambda>k. Request (search_request self ?cf (page_params search_defaults 1 k)))
                     [1..<Suc (length sps')]\<rparr>"
    by (rule search_pages_prefix [OF good(3) good(4) good(5)])
  also have "\<dots> =
        search_pages (Suc fuel - length sps) self ?cf (int (length sps))
           (page_params search_defaults 1 (length sps - 1))
           (concat (map (\<lambda>sp. page_results (snd sp)) sps))
           (snd (last sps))
           \<lparr>server = s,
            trace = t @ map (\<lambda>k. Request (search_request self ?cf (page_params search_defaults 1 k)))
                          [0..<length sps]\<rparr>"
  proof -
    have "page_params search_defaults 1 0 = search_defaults"
      by (simp add: page_params_def)
    moreover have "last (p # map snd sps') = snd (last sps)"
      by (simp add: sps last_map)
    ultimately show ?thesis
      by (simp add: sps upt_0_Cons del: upt_Suc)
  qed
  finally show ?thesis .
qed

lemma list_try_pages:
  assumes "sps \<noteq> []"
    and "has_results (snd (hd sps))"
    and "list_all (\<lambda>sp. extends (snd sp)) (tl sps)"
    and "list_all has_next (butlast (map snd sps))"
    and "length sps \<le> Suc fuel"
  shows "list_try fuel ep self sz rp \<lparr>server = map served sps @- s, trace = t\<rparr> =
         list_pages (Suc fuel - length sps) ep self sz (int (length sps - 1) * sz)
           (offset_params rp 0 sz (length sps - 1))
           (concat (map (\<lambda>sp. page_results (snd sp)) sps))
           (snd (last sps))
           \<lparr>server = s,
            trace = t @ map (\<lambda>k. Request (list_request ep self (offset_params rp 0 sz k)))
                          [0..<length sps]\<rparr>"
proof -
  from assms(1) obtain st p sps' where sps: "sps = (st, p) # sps'"
    by (cases sps) auto
  with assms have good: "has_results p"
    "list_all (\<lambda>sp. extends (snd sp)) sps'"
    "list_all has_next (butlast (p # map snd sps'))" "length sps' \<le> fuel"
    by auto
  have "list_try fuel ep self sz rp \<lparr>server = map served sps @- s, trace = t\<rparr> =
        list_pages fuel ep self sz 0 rp (page_results p) p
          \<lparr>server = map served sps' @- s,
           trace = t @ [Request (list_request ep self rp)]\<rparr>"
    using good(1)
    by (simp add: list_try_def sps retrieve_list_Stream has_resultsD Let_def)
  also have "\<dots> =
        list_pages (fuel - length sps') ep self sz (0 + int (length sps') * sz)
          (offset_params rp 0 sz (length sps'))
          (page_results p @ concat (map (\<lambda>sp. page_results (snd sp)) sps'))
          (last (p # map snd sps'))
          \<lparr>server = s,
           trace = (t @ [Request (list_request ep self rp)]) @
                   map (\<lambda>k. Request (list_request ep self (offset_params rp 0 sz k)))
                     [1..<Suc (length sps')]\<rparr>"
    by (rule list_pages_prefix [OF good(2) good(3) good(4)])
  also have "\<dots> =
        list_pages (Suc fuel - length sps) ep self sz (int (length sps - 1) * sz)
           (offset_params rp 0 sz (length sps - 1))
           (concat (map (\<lambda>sp. page_results (snd sp)) sps))
           (snd (last sps))
           \<lparr>server = s,
            trace = t @ map (\<lambda>k. Request (list_request ep self (offset_params rp 0 sz k)))
                          [0..<length sps]\<rparr>"
  proof -
    have "offset_params rp 0 sz 0 = rp"
      by (simp add: offset_params_def)
    moreover have "last (p # map snd sps') = snd (last sps)"
      by (simp add: sps last_map)
    ultimately show ?thesis
      by (simp add: sps upt_0_Cons del: upt_Suc)
  qed
  finally show ?thesis .
qed

subsection \<open>What a call leaves of the trace it finds\<close>

text \<open>
  No operation reads the trace: each adds to it. So a call started with more history gives the same result, and the same world but for that history.
\<close>

lemma retry_loop_unfold:
  assumes "send (search_request self cf rp) w = (out, w1)"
  shows "retry_loop self cf rp a w =
         (if retryable out \<and> a < MAX_RETRIES self
          then retry_loop self cf rp (Suc a)
                 (sleep (BACKOFF_FACTOR self * 2 ^ a) w1)
          else (outcome_result out, w1))"
  using assms
  by (subst retry_loop.simps)
     (auto simp: retryable_def outcome_result_def calculate_backoff_def split: outcome.splits)

lemma send_prepend: "send rq (prepend t w) = apsnd (prepend t) (send rq w)"
  by (simp add: send_def prepend_def)

lemma sleep_prepend: "sleep n (prepend t w) = prepend t (sleep n w)"
  by (simp add: sleep_def prepend_def)

lemma retry_loop_prepend:
  "retry_loop self cf rp a (prepend t w) = apsnd (prepend t) (retry_loop self cf rp a w)"
proof (induction a arbitrary: w rule: measure_induct_rule [where f = "\<lambda>a. MAX_RETRIES self - a"])
  case (less a)
  obtain out w1 where s: "send (search_request self cf rp) w = (out, w1)"
    by force
  then have s': "send (search_request self cf rp) (prepend t w) = (out, prepend t w1)"
    by (simp add: send_prepend)
  show ?case
  proof (cases "retryable out \<and> a < MAX_RETRIES self")
    case True
    then have "MAX_RETRIES self - Suc a < MAX_RETRIES self - a"
      by arith
    from less.IH [OF this] True show ?thesis
      by (simp add: retry_loop_unfold [OF s] retry_loop_unfold [OF s'] sleep_prepend)
  next
    case False
    then show ?thesis
      by (auto simp: retry_loop_unfold [OF s] retry_loop_unfold [OF s'])
  qed
qed

lemma retrieve_prepend:
  "retrieve_metadata_for_content_filter self cf page rp (prepend t w) =
   apsnd (prepend t) (retrieve_metadata_for_content_filter self cf page rp w)"
  by (simp add: retrieve_metadata_for_content_filter_def retry_loop_prepend)

lemmas search_pages_0 = search_pages.simps [of 0, unfolded nat.case]
lemmas search_pages_Suc = search_pages.simps [of "Suc fuel", unfolded nat.case] for fuel

lemma search_pages_prepend:
  "search_pages fuel self cf page rp acc resp (prepend t w) =
   apsnd (prepend t) (search_pages fuel self cf page rp acc resp w)"
proof (induction fuel arbitrary: page rp acc resp w)
  case 0
  show ?case
    by (simp add: search_pages_0 split: sum.splits)
next
  case (Suc fuel)
  show ?case
    by (simp add: search_pages_Suc retrieve_prepend Suc.IH Let_def split: sum.splits prod.splits)
qed

lemma gmq_prepend:
  "get_metadata_by_query fuel self cq (prepend t w) =
   apsnd (prepend t) (get_metadata_by_query fuel self cq w)"
  by (simp add: get_metadata_by_query_def retrieve_prepend search_pages_prepend Let_def
      split: sum.splits prod.splits)

lemma retrieve_list_prepend:
  "retrieve_list ep self offset rp (prepend t w) =
   apsnd (prepend t) (retrieve_list ep self offset rp w)"
  by (simp add: retrieve_list_def send_prepend split: prod.splits outcome.splits)

lemmas list_pages_0 = list_pages.simps [of 0, unfolded nat.case]
lemmas list_pages_Suc = list_pages.simps [of "Suc fuel", unfolded nat.case] for fuel

lemma list_pages_prepend:
  "list_pages fuel ep self sz offset rp acc resp (prepend t w) =
   apsnd (prepend t) (list_pages fuel ep self sz offset rp acc resp w)"
proof (induction fuel arbitrary: offset rp acc resp w)
  case 0
  show ?case
    by (simp add: list_pages_0 split: sum.splits)
next
  case (Suc fuel)
  show ?case
    by (simp add: list_pages_Suc retrieve_list_prepend Suc.IH Let_def split: sum.splits prod.splits)
qed

lemma list_try_prepend:
  "list_try fuel ep self sz rp (prepend t w) = apsnd (prepend t) (list_try fuel ep self sz rp w)"
  by (simp add: list_try_def retrieve_list_prepend list_pages_prepend Let_def
      split: sum.splits prod.splits)

lemma get_courses_prepend:
  "get_courses fuel self sz qp (prepend t w) = apsnd (prepend t) (get_courses fuel self sz qp w)"
  by (simp add: get_courses_def list_try_prepend Let_def split: prod.splits)

lemma get_programs_prepend:
  "get_programs fuel self sz qp (prepend t w) = apsnd (prepend t) (get_programs fuel self sz qp w)"
  by (simp add: get_programs_def list_try_prepend Let_def split: prod.splits)

subsection \<open>The requests a call makes, whatever the server does\<close>

lemma send_trace: "send rq w = (out, w1) \<Longrightarrow> trace w1 = trace w @ [Request rq]"
  by (auto simp: send_def)

lemma sleep_trace: "trace (sleep n w) = trace w @ [Sleep n]"
  by (simp add: sleep_def)

lemma retry_loop_trace:
  "\<exists>es. trace (snd (retry_loop self cf rp a w)) = trace w @ es \<and>
        (\<forall>rq. Request rq \<in> set es \<longrightarrow> rq = search_request self cf rp)"
proof (induction a arbitrary: w rule: measure_induct_rule [where f = "\<lambda>a. MAX_RETRIES self - a"])
  case (less a)
  obtain out w1 where s: "send (search_request self cf rp) w = (out, w1)"
    by force
  show ?case
  proof (cases "retryable out \<and> a < MAX_RETRIES self")
    case True
    then have "MAX_RETRIES self - Suc a < MAX_RETRIES self - a"
      by arith
    from less.IH [OF this, of "sleep (BACKOFF_FACTOR self * 2 ^ a) w1"]
    obtain es where
      "trace (snd (retry_loop self cf rp (Suc a) (sleep (BACKOFF_FACTOR self * 2 ^ a) w1))) =
       trace (sleep (BACKOFF_FACTOR self * 2 ^ a) w1) @ es"
      "\<forall>rq. Request rq \<in> set es \<longrightarrow> rq = search_request self cf rp"
      by blast
    with True show ?thesis
      by (simp add: retry_loop_unfold [OF s] sleep_trace send_trace [OF s])
  next
    case False
    then show ?thesis
      by (auto simp: retry_loop_unfold [OF s] send_trace [OF s])
  qed
qed

lemma search_pages_trace:
  "\<exists>es. trace (snd (search_pages fuel self cf page rp acc resp w)) = trace w @ es \<and>
        (\<forall>rq. Request rq \<in> set es \<longrightarrow>
           (\<exists>k. rq = search_request self cf (dict_set rp ''page'' (JInt k))))"
proof (induction fuel arbitrary: page rp acc resp w)
  case 0
  show ?case
    by (simp add: search_pages_0 split: sum.splits)
next
  case (Suc fuel)
  let ?rp1 = "dict_set rp ''page'' (JInt (page + 1))"
  obtain r w1 where r: "retrieve_metadata_for_content_filter self cf (page + 1) ?rp1 w = (r, w1)"
    by force
  from retry_loop_trace [of self cf ?rp1 0 w] r
  obtain es1 where es1: "trace w1 = trace w @ es1"
    "\<forall>rq. Request rq \<in> set es1 \<longrightarrow> rq = search_request self cf ?rp1"
    by (auto simp: retrieve_metadata_for_content_filter_def)
  have step: "\<exists>es. trace (snd (search_pages fuel self cf (page + 1) ?rp1 acc' resp' w1)) = trace w @ es \<and>
        (\<forall>rq. Request rq \<in> set es \<longrightarrow>
           (\<exists>k. rq = search_request self cf (dict_set rp ''page'' (JInt k))))" for acc' resp'
  proof -
    from Suc.IH [of "page + 1" ?rp1 acc' resp' w1]
    obtain es2 where "trace (snd (search_pages fuel self cf (page + 1) ?rp1 acc' resp' w1)) = trace w1 @ es2"
      "\<forall>rq. Request rq \<in> set es2 \<longrightarrow>
           (\<exists>k. rq = search_request self cf (dict_set rp ''page'' (JInt k)))"
      by (auto simp: dict_set_twice)
    with es1 show ?thesis
      by (intro exI [of _ "es1 @ es2"]) auto
  qed
  have stop: "\<exists>es. trace w1 = trace w @ es \<and>
        (\<forall>rq. Request rq \<in> set es \<longrightarrow>
           (\<exists>k. rq = search_request self cf (dict_set rp ''page'' (JInt k))))"
    using es1 by blast
  show ?case
    using step stop
    by (simp add: search_pages_Suc r Let_def split: sum.splits)
qed

lemma gmq_trace:
  "\<exists>es. trace (snd (get_metadata_by_query fuel self cq w)) = trace w @ es \<and>
        (\<forall>rq. Request rq \<in> set es \<longrightarrow>
           rq = search_request self (content_filter cq) search_defaults \<or>
           (\<exists>k. rq = search_request self (content_filter cq)
                        (dict_set search_defaults ''page'' (JInt k))))"
proof -
  let ?cf = "content_filter cq"
  obtain r w1 where r: "retrieve_metadata_for_content_filter self ?cf 1 search_defaults w = (r, w1)"
    by force
  from retry_loop_trace [of self ?cf search_defaults 0 w] r
  obtain es1 where es1: "trace w1 = trace w @ es1"
    "\<forall>rq. Request rq \<in> set es1 \<longrightarrow> rq = search_request self ?cf search_defaults"
    by (auto simp: retrieve_metadata_for_content_filter_def)
  have step: "\<exists>es. trace (snd (search_pages fuel self ?cf 1 search_defaults acc' resp' w1)) = trace w @ es \<and>
        (\<forall>rq. Request rq \<in> set es \<longrightarrow>
           rq = search_request self ?cf search_defaults \<or>
           (\<exists>k. rq = search_request self ?cf (dict_set search_defaults ''page'' (JInt k))))"
    for acc' resp'
  proof -
    from search_pages_trace [of fuel self ?cf 1 search_defaults acc' resp' w1]
    obtain es2 where "trace (snd (search_pages fuel self ?cf 1 search_defaults acc' resp' w1)) = trace w1 @ es2"
      "\<forall>rq. Request rq \<in> set es2 \<longrightarrow>
           (\<exists>k. rq = search_request self ?cf (dict_set search_defaults ''page'' (JInt k)))"
      by blast
    with es1 show ?thesis
      by (intro exI [of _ "es1 @ es2"]) auto
  qed
  have stop: "\<exists>es. trace w1 = trace w @ es \<and>
        (\<forall>rq. Request rq \<in> set es \<longrightarrow>
           rq = search_request self ?cf search_defaults \<or>
           (\<exists>k. rq = search_request self ?cf (dict_set search_defaults ''page'' (JInt k))))"
    using es1 by blast
  show ?thesis
    using step stop r
    by (simp add: get_metadata_by_query_def search_defaults_def [symmetric] Let_def
        split: sum.splits)
qed

lemma retrieve_list_trace:
  "trace (snd (retrieve_list ep self offset rp w)) = trace w @ [Request (list_request ep self rp)]"
  by (simp add: retrieve_list_def send_def split: outcome.splits)

lemma list_pages_trace:
  "\<exists>n\<le>fuel. trace (snd (list_pages fuel ep self sz offset rp acc resp w)) =
        trace w @ map (\<lambda>k. Request (list_request ep self (offset_params rp offset sz k)))
                    [1..<Suc n]"
proof (induction fuel arbitrary: offset rp acc resp w)
  case 0
  show ?case
    by (simp add: list_pages_0 split: sum.splits)
next
  case (Suc fuel)
  let ?rp1 = "dict_set rp ''offset'' (JInt (offset + sz))"
  let ?R = "\<lambda>k. Request (list_request ep self (offset_params rp offset sz k))"
  obtain r w1 where r: "retrieve_list ep self (offset + sz) ?rp1 w = (r, w1)"
    by force
  have pp: "offset_params ?rp1 (offset + sz) sz k = offset_params rp offset sz (Suc k)" for k
    by (simp add: offset_params_def dict_set_twice algebra_simps)
  have one: "?rp1 = offset_params rp offset sz 1"
    by (simp add: offset_params_def)
  from retrieve_list_trace [of ep self "offset + sz" ?rp1 w] r
  have w1: "trace w1 = trace w @ [?R 1]"
    by (simp add: one)
  have none: "\<exists>n\<le>Suc fuel. trace w = trace w @ map ?R [1..<Suc n]"
    by (intro exI [of _ 0]) simp
  have stop: "\<exists>n\<le>Suc fuel. trace w1 = trace w @ map ?R [1..<Suc n]"
    using w1 by (intro exI [of _ 1]) simp
  have step: "\<exists>n\<le>Suc fuel. trace (snd (list_pages fuel ep self sz (offset + sz) ?rp1 acc' resp' w1)) =
        trace w @ map ?R [1..<Suc n]" for acc' resp'
  proof -
    from Suc.IH [of "offset + sz" ?rp1 acc' resp' w1]
    obtain n where n: "n \<le> fuel"
      "trace (snd (list_pages fuel ep self sz (offset + sz) ?rp1 acc' resp' w1)) =
       trace w1 @ map (\<lambda>k. ?R (Suc k)) [1..<Suc n]"
      by (auto simp: pp)
    have "map ?R [1..<Suc (Suc n)] = ?R 1 # map (\<lambda>k. ?R (Suc k)) [1..<Suc n]"
      by (rule map_upt_shift) simp
    with n w1 show ?thesis
      by (intro exI [of _ "Suc n"]) (simp del: upt_Suc)
  qed
  show ?case
    using step stop none
    by (simp add: list_pages_Suc r Let_def split: sum.splits del: upt_Suc)
qed

lemma list_try_trace:
  "\<exists>n\<le>fuel. trace (snd (list_try fuel ep self sz rp w)) =
        trace w @ map (\<lambda>k. Request (list_request ep self (offset_params rp 0 sz k)))
                    [0..<Suc n]"
proof -
  let ?R = "\<lambda>k. Request (list_request ep self (offset_params rp 0 sz k))"
  obtain r w1 where r: "retrieve_list ep self 0 rp w = (r, w1)"
    by force
  from retrieve_list_trace [of ep self 0 rp w] r
  have w1: "trace w1 = trace w @ [?R 0]"
    by (simp add: offset_params_def)
  have stop: "\<exists>n\<le>fuel. trace w1 = trace w @ map ?R [0..<Suc n]"
    using w1 by (intro exI [of _ 0]) simp
  have step: "\<exists>n\<le>fuel. trace (snd (list_pages fuel ep self sz 0 rp acc' resp' w1)) =
        trace w @ map ?R [0..<Suc n]" for acc' resp'
  proof -
    from list_pages_trace [of fuel ep self sz 0 rp acc' resp' w1]
    obtain n where n: "n \<le> fuel"
      "trace (snd (list_pages fuel ep self sz 0 rp acc' resp' w1)) = trace w1 @ map ?R [1..<Suc n]"
      by blast
    with w1 show ?thesis
      by (intro exI [of _ n]) (simp add: upt_0_Cons del: upt_Suc)
  qed
  show ?thesis
    using step stop r
    by (simp add: list_try_def Let_def split: sum.splits del: upt_Suc)
qed

subsection \<open>A page that fails, and a page that ends the traversal after retries\<close>

lemma retrieve_attempts':
  assumes "list_all retryable pre" "length pre \<le> MAX_RETRIES self"
    and "length pre = MAX_RETRIES self \<or> \<not> retryable out"
  shows "retrieve_metadata_for_content_filter self cf page rp
           \<lparr>server = pre @- out ## s, trace = t\<rparr> =
         (outcome_result out, attempts_world self (search_request self cf rp) (length pre) s t)"
  using retrieve_attempts [OF assms, of cf page rp s t]
  by (simp add: attempts_world_def)

lemma search_pages_raise:
  assumes "has_next resp"
    and "list_all retryable pre" "length pre \<le> MAX_RETRIES self"
    and "length pre = MAX_RETRIES self \<or> \<not> retryable out"
    and "outcome_result out = Inl exc"
  shows "search_pages (Suc fuel) self cf page rp acc resp \<lparr>server = pre @- out ## s, trace = t\<rparr> =
         (Some (Inl exc),
          attempts_world self (search_request self cf (dict_set rp ''page'' (JInt (page + 1))))
            (length pre) s t)"
proof -
  from assms(1) obtain v where "py_get resp ''next'' JNull = Inr v" "truthy v"
    by (rule has_nextD)
  with assms(5) show ?thesis
    by (subst search_pages.simps)
       (simp add: retrieve_attempts' [OF assms(2,3,4)] Let_def)
qed

lemma search_pages_last:
  assumes "has_next resp"
    and "list_all retryable pre" "length pre \<le> MAX_RETRIES self"
    and "length pre = MAX_RETRIES self \<or> \<not> retryable out"
    and "outcome_result out = Inr b" "extends b" "\<not> has_next b"
  shows "search_pages (Suc fuel) self cf page rp acc resp \<lparr>server = pre @- out ## s, trace = t\<rparr> =
         (Some (Inr (acc @ page_results b)),
          attempts_world self (search_request self cf (dict_set rp ''page'' (JInt (page + 1))))
            (length pre) s t)"
proof -
  from assms(1) obtain v where "py_get resp ''next'' JNull = Inr v" "truthy v"
    by (rule has_nextD)
  with assms(5,6,7) show ?thesis
    by (subst search_pages.simps)
       (simp add: retrieve_attempts' [OF assms(2,3,4)] Let_def extendsD search_pages_stop)
qed

lemma gmq_first_raise:
  assumes "list_all retryable pre" "length pre \<le> MAX_RETRIES self"
    and "length pre = MAX_RETRIES self \<or> \<not> retryable out"
    and "outcome_result out = Inl exc"
  shows "get_metadata_by_query fuel self cq \<lparr>server = pre @- out ## s, trace = t\<rparr> =
         (Some (Inl exc),
          attempts_world self (search_request self (content_filter cq) search_defaults)
            (length pre) s t)"
  using assms(4)
  by (simp add: get_metadata_by_query_def search_defaults_def [symmetric]
      retrieve_attempts' [OF assms(1,2,3)] Let_def)

lemma gmq_first_last:
  assumes "list_all retryable pre" "length pre \<le> MAX_RETRIES self"
    and "length pre = MAX_RETRIES self \<or> \<not> retryable out"
    and "outcome_result out = Inr b" "extends b" "\<not> has_next b"
  shows "get_metadata_by_query fuel self cq \<lparr>server = pre @- out ## s, trace = t\<rparr> =
         (Some (Inr (page_results b)),
          attempts_world self (search_request self (content_filter cq) search_defaults)
            (length pre) s t)"
  using assms(4,5,6)
  by (simp add: get_metadata_by_query_def search_defaults_def [symmetric]
      retrieve_attempts' [OF assms(1,2,3)] Let_def extendsD search_pages_stop)

lemma butlast_all:
  assumes "list_all P xs" "xs \<noteq> []"
  shows "list_all P (butlast xs)" and "P (last xs)"
  using assms by (auto simp: list_all_iff dest: in_set_butlastD)

lemma all_next_chain:
  assumes "list_all (\<lambda>sp. has_next (snd sp)) sps" "sps \<noteq> []"
  shows "list_all has_next (butlast (map snd sps))" and "has_next (snd (last sps))"
proof -
  from assms have *: "list_all has_next (map snd sps)" "map snd sps \<noteq> []"
    by (simp_all add: list_all_iff)
  from butlast_all(1) [OF *] show "list_all has_next (butlast (map snd sps))" .
  from butlast_all(2) [OF *] assms(2) show "has_next (snd (last sps))"
    by (simp add: last_map)
qed

lemma gmq_fail:
  assumes pages: "list_all (\<lambda>sp. fst sp < 400 \<and> extends (snd sp) \<and> has_next (snd sp)) sps"
    and "length sps \<le> fuel"
    and pre: "list_all retryable pre" "length pre \<le> MAX_RETRIES self"
      "length pre = MAX_RETRIES self \<or> \<not> retryable out"
    and out: "outcome_result out = Inl exc"
  shows "get_metadata_by_query fuel self cq
           \<lparr>server = map served sps @- pre @- out ## s, trace = t\<rparr> =
         (Some (Inl exc),
          attempts_world self
            (search_request self (content_filter cq) (page_params search_defaults 1 (length sps)))
            (length pre) s (t @ search_trace self cq (length sps)))"
proof (cases "sps = []")
  case True
  then show ?thesis
    using gmq_first_raise [OF pre out, of fuel cq s t]
    by (simp add: search_trace_def page_params_def)
next
  case False
  from pages have p1: "list_all (\<lambda>sp. fst sp < 400 \<and> extends (snd sp)) sps"
    and p2: "list_all (\<lambda>sp. has_next (snd sp)) sps"
    by (auto simp: list_all_iff)
  from all_next_chain [OF p2 False]
  have nx: "list_all has_next (butlast (map snd sps))" "has_next (snd (last sps))" .
  have fuel: "Suc fuel - length sps = Suc (fuel - length sps)"
    using assms(2) by (rule Suc_diff_le)
  have len: "length sps \<le> Suc fuel"
    using assms(2) by simp
  from False have n: "int (length sps) + 1 = 1 + int (length sps - 1 + 1)"
    "length sps - 1 + 1 = length sps"
    by (cases sps; simp)+
  have rp: "dict_set (page_params search_defaults 1 (length sps - 1)) ''page''
              (JInt (int (length sps) + 1)) = page_params search_defaults 1 (length sps)"
    using False by (cases sps) (auto simp: page_params_def dict_set_twice)
  show ?thesis
    unfolding gmq_pages [OF False p1 nx(1) len] fuel
    by (simp add: search_pages_raise [OF nx(2) pre out] rp [unfolded One_nat_def] search_trace_def)
qed

lemma gmq_last:
  assumes pages: "list_all (\<lambda>sp. fst sp < 400 \<and> extends (snd sp) \<and> has_next (snd sp)) sps"
    and "length sps \<le> fuel"
    and pre: "list_all retryable pre" "length pre \<le> MAX_RETRIES self"
      "length pre = MAX_RETRIES self \<or> \<not> retryable out"
    and out: "outcome_result out = Inr b" "extends b" "\<not> has_next b"
  shows "get_metadata_by_query fuel self cq
           \<lparr>server = map served sps @- pre @- out ## s, trace = t\<rparr> =
         (Some (Inr (concat (map (\<lambda>sp. page_results (snd sp)) sps) @ page_results b)),
          attempts_world self
            (search_request self (content_filter cq) (page_params search_defaults 1 (length sps)))
            (length pre) s (t @ search_trace self cq (length sps)))"
proof (cases "sps = []")
  case True
  then show ?thesis
    using gmq_first_last [OF pre out, of fuel cq s t]
    by (simp add: search_trace_def page_params_def)
next
  case False
  from pages have p1: "list_all (\<lambda>sp. fst sp < 400 \<and> extends (snd sp)) sps"
    and p2: "list_all (\<lambda>sp. has_next (snd sp)) sps"
    by (auto simp: list_all_iff)
  from all_next_chain [OF p2 False]
  have nx: "list_all has_next (butlast (map snd sps))" "has_next (snd (last sps))" .
  have fuel: "Suc fuel - length sps = Suc (fuel - length sps)"
    using assms(2) by (rule Suc_diff_le)
  have len: "length sps \<le> Suc fuel"
    using assms(2) by simp
  have rp: "dict_set (page_params search_defaults 1 (length sps - 1)) ''page''
              (JInt (int (length sps) + 1)) = page_params search_defaults 1 (length sps)"
    using False by (cases sps) (auto simp: page_params_def dict_set_twice)
  show ?thesis
    unfolding gmq_pages [OF False p1 nx(1) len] fuel
    by (simp add: search_pages_last [OF nx(2) pre out] rp [unfolded One_nat_def] search_trace_def)
qed

lemma list_try_first_raise:
  assumes "outcome_result out = Inl exc"
  shows "list_try fuel ep self sz rp \<lparr>server = out ## s, trace = t\<rparr> =
         (Some (Some exc, []), \<lparr>server = s, trace = t @ list_trace ep self rp sz 1\<rparr>)"
  using assms
  by (simp add: list_try_def retrieve_list_Stream Let_def list_trace_def offset_params_def)

lemma list_try_no_results:
  assumes "map_of kvs ''results'' = None"
  shows "list_try fuel ep self sz rp \<lparr>server = served (st, JObj kvs) ## s, trace = t\<rparr> =
         (Some (Some TypeError, []), \<lparr>server = s, trace = t @ list_trace ep self rp sz 1\<rparr>)"
  using assms
  by (simp add: list_try_def retrieve_list_Stream Let_def list_trace_def offset_params_def
      py_get_def)

lemma list_try_done:
  assumes "sps \<noteq> []"
    and "has_results (snd (hd sps))"
    and "list_all (\<lambda>sp. extends (snd sp)) (tl sps)"
    and "list_all has_next (butlast (map snd sps))"
    and "\<not> has_next (snd (last sps))"
    and "length sps \<le> Suc fuel"
  shows "list_try fuel ep self sz rp \<lparr>server = map served sps @- s, trace = t\<rparr> =
         (Some (None, concat (map (\<lambda>sp. page_results (snd sp)) sps)),
          \<lparr>server = s, trace = t @ list_trace ep self rp sz (length sps)\<rparr>)"
proof -
  have "extends (snd (last sps))"
  proof (cases "tl sps = []")
    case True
    with assms(1) have "last sps = hd sps"
      by (cases sps) auto
    with assms(2) show ?thesis
      by (simp add: has_resultsD)
  next
    case False
    with assms(1) have "last sps = last (tl sps)"
      by (cases sps) auto
    with butlast_all(2) [OF assms(3) False] show ?thesis
      by simp
  qed
  with assms(5) show ?thesis
    unfolding list_try_pages [OF assms(1,2,3,4,6)]
    by (simp add: list_pages_stop list_trace_def)
qed

lemma list_try_fail:
  assumes "sps \<noteq> []"
    and "has_results (snd (hd sps))"
    and "list_all (\<lambda>sp. extends (snd sp)) (tl sps)"
    and "list_all (\<lambda>sp. has_next (snd sp)) sps"
    and "length sps \<le> fuel"
    and "outcome_result out = Inl exc"
  shows "list_try fuel ep self sz rp \<lparr>server = map served sps @- out ## s, trace = t\<rparr> =
         (Some (Some exc, concat (map (\<lambda>sp. page_results (snd sp)) sps)),
          \<lparr>server = s, trace = t @ list_trace ep self rp sz (Suc (length sps))\<rparr>)"
proof -
  from all_next_chain [OF assms(4) assms(1)]
  have nx: "list_all has_next (butlast (map snd sps))" "has_next (snd (last sps))" .
  have fuel: "Suc fuel - length sps = Suc (fuel - length sps)"
    using assms(5) by (rule Suc_diff_le)
  have len: "length sps \<le> Suc fuel"
    using assms(5) by simp
  have rp: "dict_set (offset_params rp 0 sz (length sps - 1)) ''offset''
              (JInt (int (length sps - 1) * sz + sz)) = offset_params rp 0 sz (length sps)"
    using assms(1) by (cases sps) (auto simp: offset_params_def dict_set_twice algebra_simps)
  show ?thesis
    unfolding list_try_pages [OF assms(1,2,3) nx(1) len] fuel
    by (simp add: list_pages_raise [OF nx(2) assms(6)] rp [unfolded One_nat_def]
        list_trace_def)
qed

lemma list_except_simps [simp]:
  "list_except (Some (raised, items)) = Some items"
  by (cases raised) (simp_all add: list_except_def)

lemma gmq_done:
  assumes "sps \<noteq> []"
    and "list_all (\<lambda>sp. fst sp < 400 \<and> extends (snd sp)) sps"
    and "list_all has_next (butlast (map snd sps))"
    and "\<not> has_next (snd (last sps))"
    and "length sps \<le> Suc fuel"
  shows "get_metadata_by_query fuel self cq \<lparr>server = map served sps @- s, trace = t\<rparr> =
         (Some (Inr (concat (map (\<lambda>sp. page_results (snd sp)) sps))),
          \<lparr>server = s, trace = t @ search_trace self cq (length sps)\<rparr>)"
proof -
  from butlast_all(2) [OF assms(2) assms(1)] have "extends (snd (last sps))"
    by simp
  with assms(4) show ?thesis
    unfolding gmq_pages [OF assms(1,2,3,5)]
    by (simp add: search_pages_stop search_trace_def)
qed

lemma get_courses_done:
  assumes "list_try fuel DISCOVERY_COURSES_ENDPOINT self sz
             (dict_update [(''ordering'', JStr ''key''), (''limit'', JInt sz)] (or_empty qp)) w =
           (Some (raised, items), w')"
  shows "get_courses fuel self sz qp w = (Some items, w')"
  using assms by (simp add: get_courses_def)

lemma get_programs_done:
  assumes "list_try fuel DISCOVERY_PROGRAMS_ENDPOINT self sz
             (dict_update [(''ordering'', JStr ''key''), (''limit'', JInt sz),
                           (''extended'', JStr ''True'')] (or_empty qp)) w =
           (Some (raised, items), w')"
  shows "get_programs fuel self sz qp w = (Some items, w')"
  using assms by (simp add: get_programs_def)

lemma has_results_extends:
  assumes "list_all (\<lambda>sp. P sp \<and> has_results (snd sp)) sps"
  shows "list_all (\<lambda>sp. extends (snd sp)) (tl sps)"
    and "list_all (\<lambda>sp. extends (snd sp)) sps"
    and "sps \<noteq> [] \<Longrightarrow> has_results (snd (hd sps))"
  using assms by (cases sps; auto simp: list_all_iff has_resultsD(2) dest: list.set_sel(2))+

lemma requests_in_append [simp]: "requests_in (xs @ ys) = requests_in xs @ requests_in ys"
  by (induction xs rule: requests_in.induct) auto

lemma sleeps_in_append [simp]: "sleeps_in (xs @ ys) = sleeps_in xs @ sleeps_in ys"
  by (induction xs rule: sleeps_in.induct) auto

lemma backoffs_Suc_right:
  "backoffs self rq a (Suc n) =
   backoffs self rq a n @ [Request rq, Sleep (BACKOFF_FACTOR self * 2 ^ (a + n))]"
  by (simp add: backoffs_def)

lemma requests_in_backoffs [simp]: "requests_in (backoffs self rq a n) = replicate n rq"
  by (induction n) (simp_all add: backoffs_Suc_right replicate_append_same, simp add: backoffs_def)

lemma sleeps_in_backoffs [simp]:
  "sleeps_in (backoffs self rq a n) =
   map (\<lambda>k. BACKOFF_FACTOR self * 2 ^ (k - 1)) [Suc a..<Suc (a + n)]"
  by (induction n) (simp_all add: backoffs_Suc_right, simp add: backoffs_def)

lemma requests_in_map_Request [simp]: "requests_in (map (\<lambda>k. Request (f k)) ks) = map f ks"
  by (induction ks) auto

lemma sleeps_in_map_Request [simp]: "sleeps_in (map (\<lambda>k. Request (f k)) ks) = []"
  by (induction ks) auto

lemma requests_in_search_trace [simp]: "length (requests_in (search_trace self cq n)) = n"
  by (simp add: search_trace_def)

lemma sleeps_in_search_trace [simp]: "sleeps_in (search_trace self cq n) = []"
  by (simp add: search_trace_def)

lemma requests_in_list_trace [simp]: "length (requests_in (list_trace ep self rp sz n)) = n"
  by (simp add: list_trace_def)

lemma attempts_world_sel [simp]:
  "server (attempts_world self rq n s t) = s"
  "length (requests_in (trace (attempts_world self rq n s t))) = length (requests_in t) + n + 1"
  "sleeps_in (trace (attempts_world self rq n s t)) =
     sleeps_in t @ map (\<lambda>k. BACKOFF_FACTOR self * 2 ^ (k - 1)) [1..<Suc n]"
  by (simp_all add: attempts_world_def)

lemma retryable_Raises [simp]: "retryable (Raises err) = is_RequestException err"
  by (simp add: retryable_def)

lemma retryable_Responds [simp]: "retryable (Responds r) = (\<not> status_code r < 400)"
  by (simp add: retryable_def)

lemma outcome_result_Raises [simp]: "outcome_result (Raises err) = Inl err"
  by (simp add: outcome_result_def)

lemma outcome_result_Responds [simp]: "outcome_result (Responds r) = response_json r"
  by (simp add: outcome_result_def)

lemma list_all_conj:
  assumes "list_all (\<lambda>x. P x \<and> Q x) xs"
  shows "list_all P xs" and "list_all Q xs"
  using assms by (auto simp: list_all_iff)

lemma list_all_tl: "list_all P xs \<Longrightarrow> list_all P (tl xs)"
  by (cases xs) auto

lemma list_all_hd: "list_all P xs \<Longrightarrow> xs \<noteq> [] \<Longrightarrow> P (hd xs)"
  by (cases xs) auto

lemma has_results_all_extends:
  assumes "list_all (\<lambda>sp. has_results (snd sp)) sps"
  shows "list_all (\<lambda>sp. extends (snd sp)) sps"
  using assms by (auto simp: list_all_iff has_resultsD(2))

lemma list_try_partial:
  assumes "list_all (\<lambda>sp. has_results (snd sp) \<and> has_next (snd sp)) sps"
    and "length sps \<le> fuel"
    and "outcome_result out = Inl exc"
  shows "list_try fuel ep self sz rp \<lparr>server = map served sps @- out ## s, trace = t\<rparr> =
         (Some (Some exc, concat (map (\<lambda>sp. page_results (snd sp)) sps)),
          \<lparr>server = s, trace = t @ list_trace ep self rp sz (Suc (length sps))\<rparr>)"
proof (cases "sps = []")
  case True
  then show ?thesis
    using list_try_first_raise [OF assms(3), of fuel ep self sz rp s t] by simp
next
  case False
  note res = list_all_conj(1) [OF assms(1)]
  note ext = list_all_tl [OF has_results_all_extends [OF res]]
  note hd = list_all_hd [OF res False]
  note nx = list_all_conj(2) [OF assms(1)]
  show ?thesis
    by (rule list_try_fail [OF False hd ext nx assms(2,3)])
qed

lemma lacks_results:
  assumes "map_of kvs ''results'' = None"
  shows "extends (JObj kvs)" and "page_results (JObj kvs) = []"
  using assms by (simp_all add: extends_def page_results_def py_get_def)

lemma attempts_world_requests [simp]:
  "requests_in (trace (attempts_world self rq n s t)) = requests_in t @ replicate (Suc n) rq"
  by (simp add: attempts_world_def replicate_append_same)

lemma attempts_world_last [simp]: "last (trace (attempts_world self rq n s t)) = Request rq"
  by (simp add: attempts_world_def)

lemma get_courses_trace:
  "trace (snd (get_courses fuel self sz qp w)) =
   trace (snd (list_try fuel DISCOVERY_COURSES_ENDPOINT self sz
                 (dict_update [(''ordering'', JStr ''key''), (''limit'', JInt sz)] (or_empty qp)) w))"
  by (simp add: get_courses_def split: prod.splits)

lemma get_programs_trace:
  "trace (snd (get_programs fuel self sz qp w)) =
   trace (snd (list_try fuel DISCOVERY_PROGRAMS_ENDPOINT self sz
                 (dict_update [(''ordering'', JStr ''key''), (''limit'', JInt sz),
                               (''extended'', JStr ''True'')] (or_empty qp)) w))"
  by (simp add: get_programs_def split: prod.splits)

lemma retry_loop_trace_first:
  "\<exists>es. trace (snd (retry_loop self cf rp a w)) =
          trace w @ Request (search_request self cf rp) # es \<and>
        (\<forall>rq. Request rq \<in> set es \<longrightarrow> rq = search_request self cf rp)"
proof -
  obtain out w1 where s: "send (search_request self cf rp) w = (out, w1)"
    by force
  show ?thesis
  proof (cases "retryable out \<and> a < MAX_RETRIES self")
    case True
    from retry_loop_trace [of self cf rp "Suc a" "sleep (BACKOFF_FACTOR self * 2 ^ a) w1"]
    obtain es where
      "trace (snd (retry_loop self cf rp (Suc a) (sleep (BACKOFF_FACTOR self * 2 ^ a) w1))) =
       trace (sleep (BACKOFF_FACTOR self * 2 ^ a) w1) @ es"
      "\<forall>rq. Request rq \<in> set es \<longrightarrow> rq = search_request self cf rp"
      by blast
    with True show ?thesis
      by (simp add: retry_loop_unfold [OF s] sleep_trace send_trace [OF s])
  next
    case False
    then show ?thesis
      by (auto simp: retry_loop_unfold [OF s] send_trace [OF s])
  qed
qed

lemma dict_set_search_defaults:
  "dict_set search_defaults ''page'' v = search_defaults @ [(''page'', v)]"
  by (simp add: search_defaults_def)

lemma gmq_trace_first:
  "\<exists>es. trace (snd (get_metadata_by_query fuel self cq w)) =
          trace w @ Request (search_request self (content_filter cq) search_defaults) # es \<and>
        (\<forall>rq. Request rq \<in> set es \<longrightarrow>
           rq = search_request self (content_filter cq) search_defaults \<or>
           (\<exists>k. rq = search_request self (content_filter cq)
                        (search_defaults @ [(''page'', JInt k)])))"
proof -
  let ?cf = "content_filter cq"
  let ?rq = "search_request self ?cf search_defaults"
  let ?P = "\<lambda>es. \<forall>rq. Request rq \<in> set es \<longrightarrow>
           rq = ?rq \<or> (\<exists>k. rq = search_request self ?cf (search_defaults @ [(''page'', JInt k)]))"
  obtain r w1 where r: "retrieve_metadata_for_content_filter self ?cf 1 search_defaults w = (r, w1)"
    by force
  from retry_loop_trace_first [of self ?cf search_defaults 0 w] r
  obtain es1 where es1: "trace w1 = trace w @ Request ?rq # es1"
    "\<forall>rq. Request rq \<in> set es1 \<longrightarrow> rq = ?rq"
    by (auto simp: retrieve_metadata_for_content_filter_def)
  have step: "\<exists>es. trace (snd (search_pages fuel self ?cf 1 search_defaults acc' resp' w1)) =
                 trace w @ Request ?rq # es \<and> ?P es" for acc' resp'
  proof -
    from search_pages_trace [of fuel self ?cf 1 search_defaults acc' resp' w1]
    obtain es2 where "trace (snd (search_pages fuel self ?cf 1 search_defaults acc' resp' w1)) =
        trace w1 @ es2"
      "\<forall>rq. Request rq \<in> set es2 \<longrightarrow>
           (\<exists>k. rq = search_request self ?cf (search_defaults @ [(''page'', JInt k)]))"
      by (auto simp: dict_set_search_defaults)
    with es1 show ?thesis
      by (intro exI [of _ "es1 @ es2"]) auto
  qed
  have stop: "\<exists>es. trace w1 = trace w @ Request ?rq # es \<and> ?P es"
    using es1 by blast
  show ?thesis
    using step stop r
    by (simp add: get_metadata_by_query_def search_defaults_def [symmetric] Let_def
        split: sum.splits)
qed

lemma list_try_requests:
  "\<exists>n\<le>fuel. trace (snd (list_try fuel ep self sz rp w)) =
      trace w @ map (\<lambda>k. Request (list_request ep self
                      (if k = 0 then rp else dict_set rp ''offset'' (JInt (int k * sz)))))
                  [0..<Suc n]"
proof -
  have "offset_params rp 0 sz = (\<lambda>k. if k = 0 then rp else dict_set rp ''offset'' (JInt (int k * sz)))"
    by (simp add: offset_params_def fun_eq_iff)
  with list_try_trace [of fuel ep self sz rp w] show ?thesis
    by simp
qed

lemma offsets_sent_list_trace:
  "offsets_sent (list_trace ep self rp sz (Suc n)) =
   map_of rp ''offset'' # map (\<lambda>k. Some (JInt (int k * sz))) [1..<Suc n]"
  by (simp add: offsets_sent_def list_trace_def upt_0_Cons list_request_def offset_params_def
      map_of_dict_set del: upt_Suc)

lemma map_of_defaults_offset:
  assumes "distinct (map fst other)" "map_of defaults ''offset'' = None"
  shows "map_of (dict_update defaults other) ''offset'' = map_of other ''offset''"
  using assms by (simp add: map_of_dict_update map_add_def split: option.splits)

lemma list_try_offsets:
  "\<exists>n\<le>fuel. \<exists>es. trace (snd (list_try fuel ep self sz rp w)) = trace w @ es \<and>
     offsets_sent es = map_of rp ''offset'' # map (\<lambda>k. Some (JInt (int k * sz))) [1..<Suc n]"
proof -
  from list_try_trace [of fuel ep self sz rp w]
  obtain n where "n \<le> fuel"
    "trace (snd (list_try fuel ep self sz rp w)) = trace w @ list_trace ep self rp sz (Suc n)"
    unfolding list_trace_def by blast
  then show ?thesis
    using offsets_sent_list_trace [of ep self rp sz n] by blast
qed

lemma list_try_offsets_pages:
  assumes "sps \<noteq> []"
    and "list_all (\<lambda>sp. has_results (snd sp)) sps"
    and "list_all has_next (butlast (map snd sps))"
    and "\<not> has_next (snd (last sps))"
    and "length sps \<le> Suc fuel"
  shows "\<exists>es. trace (snd (list_try fuel ep self sz rp
                            \<lparr>server = map served sps @- s, trace = t\<rparr>)) = t @ es \<and>
           offsets_sent es =
             map_of rp ''offset'' # map (\<lambda>k. Some (JInt (int k * sz))) [1..<length sps]"
proof -
  note ext = list_all_tl [OF has_results_all_extends [OF assms(2)]]
  note hd = list_all_hd [OF assms(2) assms(1)]
  from assms(1) obtain m where m: "length sps = Suc m"
    by (cases sps) auto
  show ?thesis
    using list_try_done [OF assms(1) hd ext assms(3,4,5), of ep self sz rp s t]
      offsets_sent_list_trace [of ep self rp sz m]
    by (simp add: m)
qed

subsection \<open>The store\<close>

text \<open>
  The loops change the parameter dict and the accumulator of their call and nothing else, and compute what the loops on values compute. The objects a call creates are new, so what was in the store before the call is there after it.
\<close>

lemma store_sel [simp]:
  "client_objs (set_dict a d h) = client_objs h"
  "query_objs (set_dict a d h) = query_objs h"
  "dict_objs (set_dict a d h) = (dict_objs h)[a := d]"
  "list_objs (set_dict a d h) = list_objs h"
  "client_objs (set_list a xs h) = client_objs h"
  "query_objs (set_list a xs h) = query_objs h"
  "dict_objs (set_list a xs h) = dict_objs h"
  "list_objs (set_list a xs h) = (list_objs h)[a := xs]"
  by (simp_all add: set_dict_def set_list_def)

lemma only_at_refl: "only_at rp acc h h"
  by (simp add: only_at_def)

lemma only_at_trans: "only_at rp acc h h1 \<Longrightarrow> only_at rp acc h1 h2 \<Longrightarrow> only_at rp acc h h2"
  by (simp add: only_at_def)

lemma only_at_set_dict: "only_at rp acc h (set_dict rp d h)"
  by (simp add: only_at_def)

lemma only_at_set_list: "only_at rp acc h (set_list acc xs h)"
  by (simp add: only_at_def)

lemmas st_list_pages_0 = st_list_pages.simps [of 0, unfolded nat.case]
lemmas st_list_pages_Suc = st_list_pages.simps [of "Suc fuel", unfolded nat.case] for fuel
lemmas st_search_pages_0 = st_search_pages.simps [of 0, unfolded nat.case]
lemmas st_search_pages_Suc = st_search_pages.simps [of "Suc fuel", unfolded nat.case] for fuel

declare st_list_pages.simps [simp del] st_search_pages.simps [simp del]

declare st_retry_loop.simps [simp del]

lemma st_retry_loop_refines:
  "st_retry_loop self cf rp a (h, w) =
   (fst (retry_loop (client_objs h ! self) cf (dict_objs h ! rp) a w),
    (h, snd (retry_loop (client_objs h ! self) cf (dict_objs h ! rp) a w)))"
proof (induction a arbitrary: w
         rule: measure_induct_rule [where f = "\<lambda>a. MAX_RETRIES (client_objs h ! self) - a"])
  case (less a)
  obtain out w1 where
    s: "send (search_request (client_objs h ! self) cf (dict_objs h ! rp)) w = (out, w1)"
    by force
  show ?case
  proof (cases "retryable out \<and> a < MAX_RETRIES (client_objs h ! self)")
    case True
    then have "MAX_RETRIES (client_objs h ! self) - Suc a < MAX_RETRIES (client_objs h ! self) - a"
      by arith
    from less.IH [OF this] True s show ?thesis
      by (subst st_retry_loop.simps)
         (auto simp: retry_loop_unfold [OF s] retryable_def calculate_backoff_def
            split: outcome.splits)
  next
    case False
    with s show ?thesis
      by (subst st_retry_loop.simps)
         (auto simp: retry_loop_unfold [OF s] retryable_def outcome_result_def
            split: outcome.splits)
  qed
qed

lemma st_retrieve_refines:
  "st_retrieve_metadata_for_content_filter self cf page rp (h, w) =
   (fst (retrieve_metadata_for_content_filter (client_objs h ! self) cf page (dict_objs h ! rp) w),
    (h, snd (retrieve_metadata_for_content_filter (client_objs h ! self) cf page
               (dict_objs h ! rp) w)))"
  by (simp add: st_retrieve_metadata_for_content_filter_def
      retrieve_metadata_for_content_filter_def st_retry_loop_refines)

lemma st_retrieve_list_refines:
  "st_retrieve_list ep self offset rp (h, w) =
   (fst (retrieve_list ep (client_objs h ! self) offset (dict_objs h ! rp) w),
    (h, snd (retrieve_list ep (client_objs h ! self) offset (dict_objs h ! rp) w)))"
  by (simp add: st_retrieve_list_def retrieve_list_def split: prod.splits outcome.splits)

lemma st_list_pages_refines:
  assumes "rp < length (dict_objs h)" "acc < length (list_objs h)"
  shows "\<exists>h'. st_list_pages fuel ep self sz offset rp acc resp (h, w) =
           (map_option fst
              (fst (list_pages fuel ep (client_objs h ! self) sz offset (dict_objs h ! rp)
                      (list_objs h ! acc) resp w)),
            (h', snd (list_pages fuel ep (client_objs h ! self) sz offset (dict_objs h ! rp)
                        (list_objs h ! acc) resp w))) \<and>
          only_at rp acc h h' \<and>
          (\<forall>raised items.
             fst (list_pages fuel ep (client_objs h ! self) sz offset (dict_objs h ! rp)
                    (list_objs h ! acc) resp w) = Some (raised, items) \<longrightarrow>
             list_objs h' ! acc = items)"
  using assms
proof (induction fuel arbitrary: offset resp h w)
  case 0
  show ?case
    by (auto simp: st_list_pages_0 list_pages_0 only_at_refl split: sum.splits)
next
  case (Suc fuel)
  let ?h1 = "set_dict rp (dict_update (dict_objs h ! rp) [(''offset'', JInt (offset + sz))]) h"
  have h1: "only_at rp acc h ?h1" "dict_objs ?h1 ! rp = dict_update (dict_objs h ! rp) [(''offset'', JInt (offset + sz))]"
    "list_objs ?h1 ! acc = list_objs h ! acc" "client_objs ?h1 ! self = client_objs h ! self"
    using Suc.prems by (simp_all add: only_at_set_dict)
  have step: "\<exists>h'. st_list_pages fuel ep self sz (offset + sz) rp acc resp' (set_list acc new ?h1, w1) =
           (map_option fst
              (fst (list_pages fuel ep (client_objs h ! self) sz (offset + sz) (dict_objs ?h1 ! rp)
                      new resp' w1)),
            (h', snd (list_pages fuel ep (client_objs h ! self) sz (offset + sz) (dict_objs ?h1 ! rp)
                      new resp' w1))) \<and>
          only_at rp acc h h' \<and>
          (\<forall>raised items.
             fst (list_pages fuel ep (client_objs h ! self) sz (offset + sz) (dict_objs ?h1 ! rp)
                      new resp' w1) = Some (raised, items) \<longrightarrow>
             list_objs h' ! acc = items)" for resp' new w1
  proof -
    let ?h2 = "set_list acc new ?h1"
    have "rp < length (dict_objs ?h2)" "acc < length (list_objs ?h2)"
      using Suc.prems by simp_all
    from Suc.IH [OF this, of "offset + sz" resp' w1]
    obtain h' where h': "st_list_pages fuel ep self sz (offset + sz) rp acc resp' (?h2, w1) =
           (map_option fst
              (fst (list_pages fuel ep (client_objs ?h2 ! self) sz (offset + sz) (dict_objs ?h2 ! rp)
                      (list_objs ?h2 ! acc) resp' w1)),
            (h', snd (list_pages fuel ep (client_objs ?h2 ! self) sz (offset + sz) (dict_objs ?h2 ! rp)
                      (list_objs ?h2 ! acc) resp' w1)))"
      "only_at rp acc ?h2 h'"
      "\<forall>raised items.
             fst (list_pages fuel ep (client_objs ?h2 ! self) sz (offset + sz) (dict_objs ?h2 ! rp)
                      (list_objs ?h2 ! acc) resp' w1) = Some (raised, items) \<longrightarrow>
             list_objs h' ! acc = items"
      by blast
    have "only_at rp acc h h'"
      by (rule only_at_trans [OF only_at_trans [OF h1(1) only_at_set_list] h'(2)])
    with h' Suc.prems show ?thesis
      by (intro exI [of _ h']) simp
  qed
  have stay: "only_at rp acc h h" "only_at rp acc h ?h1"
    by (rule only_at_refl, rule only_at_set_dict)
  show ?case
    using step stay Suc.prems
    by (simp add: st_list_pages_Suc list_pages_Suc st_retrieve_list_refines Let_def
        split: sum.splits prod.splits)
qed

lemma st_search_pages_refines:
  assumes "rp < length (dict_objs h)" "acc < length (list_objs h)"
  shows "\<exists>h'. st_search_pages fuel self cf page rp acc resp (h, w) =
           (map_option (map_sum (\<lambda>exc. exc) (\<lambda>_. acc))
              (fst (search_pages fuel (client_objs h ! self) cf page (dict_objs h ! rp)
                      (list_objs h ! acc) resp w)),
            (h', snd (search_pages fuel (client_objs h ! self) cf page (dict_objs h ! rp)
                        (list_objs h ! acc) resp w))) \<and>
          only_at rp acc h h' \<and>
          (\<forall>items.
             fst (search_pages fuel (client_objs h ! self) cf page (dict_objs h ! rp)
                    (list_objs h ! acc) resp w) = Some (Inr items) \<longrightarrow>
             list_objs h' ! acc = items)"
  using assms
proof (induction fuel arbitrary: page resp h w)
  case 0
  show ?case
    by (auto simp: st_search_pages_0 search_pages_0 only_at_refl split: sum.splits)
next
  case (Suc fuel)
  let ?h1 = "set_dict rp (dict_update (dict_objs h ! rp) [(''page'', JInt (page + 1))]) h"
  have h1: "only_at rp acc h ?h1"
    by (rule only_at_set_dict)
  have step: "\<exists>h'. st_search_pages fuel self cf (page + 1) rp acc resp' (set_list acc new ?h1, w1) =
           (map_option (map_sum (\<lambda>exc. exc) (\<lambda>_. acc))
              (fst (search_pages fuel (client_objs h ! self) cf (page + 1) (dict_objs ?h1 ! rp)
                      new resp' w1)),
            (h', snd (search_pages fuel (client_objs h ! self) cf (page + 1) (dict_objs ?h1 ! rp)
                      new resp' w1))) \<and>
          only_at rp acc h h' \<and>
          (\<forall>items.
             fst (search_pages fuel (client_objs h ! self) cf (page + 1) (dict_objs ?h1 ! rp)
                      new resp' w1) = Some (Inr items) \<longrightarrow>
             list_objs h' ! acc = items)" for resp' new w1
  proof -
    let ?h2 = "set_list acc new ?h1"
    have "rp < length (dict_objs ?h2)" "acc < length (list_objs ?h2)"
      using Suc.prems by simp_all
    from Suc.IH [OF this, of "page + 1" resp' w1]
    obtain h' where h': "st_search_pages fuel self cf (page + 1) rp acc resp' (?h2, w1) =
           (map_option (map_sum (\<lambda>exc. exc) (\<lambda>_. acc))
              (fst (search_pages fuel (client_objs ?h2 ! self) cf (page + 1) (dict_objs ?h2 ! rp)
                      (list_objs ?h2 ! acc) resp' w1)),
            (h', snd (search_pages fuel (client_objs ?h2 ! self) cf (page + 1) (dict_objs ?h2 ! rp)
                      (list_objs ?h2 ! acc) resp' w1)))"
      "only_at rp acc ?h2 h'"
      "\<forall>items.
             fst (search_pages fuel (client_objs ?h2 ! self) cf (page + 1) (dict_objs ?h2 ! rp)
                      (list_objs ?h2 ! acc) resp' w1) = Some (Inr items) \<longrightarrow>
             list_objs h' ! acc = items"
      by blast
    have "only_at rp acc h h'"
      by (rule only_at_trans [OF only_at_trans [OF h1 only_at_set_list] h'(2)])
    with h' Suc.prems show ?thesis
      by (intro exI [of _ h']) simp
  qed
  have stay: "only_at rp acc h h" "only_at rp acc h ?h1"
    by (rule only_at_refl, rule only_at_set_dict)
  show ?case
    using step stay Suc.prems
    by (simp add: st_search_pages_Suc search_pages_Suc st_retrieve_refines Let_def
        split: sum.splits prod.splits)
qed

lemma st_list_try_refines:
  assumes "rp < length (dict_objs h)" "acc < length (list_objs h)" "list_objs h ! acc = []"
  shows "\<exists>h'. st_list_try fuel ep self sz rp acc (h, w) =
           (map_option fst (fst (list_try fuel ep (client_objs h ! self) sz (dict_objs h ! rp) w)),
            (h', snd (list_try fuel ep (client_objs h ! self) sz (dict_objs h ! rp) w))) \<and>
          only_at rp acc h h' \<and>
          (\<forall>raised items.
             fst (list_try fuel ep (client_objs h ! self) sz (dict_objs h ! rp) w) =
               Some (raised, items) \<longrightarrow>
             list_objs h' ! acc = items)"
proof -
  have step: "\<exists>h'. st_list_pages fuel ep self sz 0 rp acc resp' (set_list acc new h, w1) =
           (map_option fst
              (fst (list_pages fuel ep (client_objs h ! self) sz 0 (dict_objs h ! rp) new resp' w1)),
            (h', snd (list_pages fuel ep (client_objs h ! self) sz 0 (dict_objs h ! rp) new resp' w1))) \<and>
          only_at rp acc h h' \<and>
          (\<forall>raised items.
             fst (list_pages fuel ep (client_objs h ! self) sz 0 (dict_objs h ! rp) new resp' w1) =
               Some (raised, items) \<longrightarrow>
             list_objs h' ! acc = items)" for resp' new w1
  proof -
    let ?h2 = "set_list acc new h"
    have "rp < length (dict_objs ?h2)" "acc < length (list_objs ?h2)"
      using assms by simp_all
    from st_list_pages_refines [OF this, of fuel ep self sz 0 resp' w1]
    obtain h' where h': "st_list_pages fuel ep self sz 0 rp acc resp' (?h2, w1) =
           (map_option fst
              (fst (list_pages fuel ep (client_objs ?h2 ! self) sz 0 (dict_objs ?h2 ! rp)
                      (list_objs ?h2 ! acc) resp' w1)),
            (h', snd (list_pages fuel ep (client_objs ?h2 ! self) sz 0 (dict_objs ?h2 ! rp)
                      (list_objs ?h2 ! acc) resp' w1)))"
      "only_at rp acc ?h2 h'"
      "\<forall>raised items.
             fst (list_pages fuel ep (client_objs ?h2 ! self) sz 0 (dict_objs ?h2 ! rp)
                      (list_objs ?h2 ! acc) resp' w1) = Some (raised, items) \<longrightarrow>
             list_objs h' ! acc = items"
      by blast
    have "only_at rp acc h h'"
      by (rule only_at_trans [OF only_at_set_list h'(2)])
    with h' assms show ?thesis
      by (intro exI [of _ h']) simp
  qed
  have stay: "only_at rp acc h h"
    by (rule only_at_refl)
  show ?thesis
    using step stay assms
    by (simp add: st_list_try_def list_try_def st_retrieve_list_refines Let_def
        split: sum.splits prod.splits)
qed

lemma fresh_preserved:
  assumes "only_at rp acc h3 h'"
    and "length (dict_objs h) \<le> rp" "length (list_objs h) \<le> acc"
    and "client_objs h3 = client_objs h" "query_objs h3 = query_objs h"
    and "take (length (dict_objs h)) (dict_objs h3) = dict_objs h"
    and "take (length (list_objs h)) (list_objs h3) = list_objs h"
  shows "preserved h h'"
proof -
  have d3: "length (dict_objs h) \<le> length (dict_objs h3)"
    using arg_cong [OF assms(6), of length] by simp
  have l3: "length (list_objs h) \<le> length (list_objs h3)"
    using arg_cong [OF assms(7), of length] by simp
  have "take (length (dict_objs h)) (dict_objs h') = take (length (dict_objs h)) (dict_objs h3)"
    using assms(1,2) d3 by (intro nth_take_lemma) (auto simp: only_at_def)
  moreover have "take (length (list_objs h)) (list_objs h') = take (length (list_objs h)) (list_objs h3)"
    using assms(1,3) l3 by (intro nth_take_lemma) (auto simp: only_at_def)
  ultimately show ?thesis
    using assms by (simp add: preserved_def only_at_def)
qed

lemma deref_after_new_dict:
  assumes "pred_option (\<lambda>a. a < length ds) qp"
  shows "map_option (\<lambda>a. (ds @ [d]) ! a) qp = map_option (\<lambda>a. ds ! a) qp"
  using assms by (cases qp) (simp_all add: nth_append)

lemma st_list_body:
  assumes "pred_option (\<lambda>a. a < length (dict_objs h)) qp"
  shows "\<exists>h'. st_list_try fuel ep self sz (length (dict_objs h)) (length (list_objs h))
                (h\<lparr>dict_objs := dict_objs h @
                     [dict_update d0 (or_empty (map_option (\<lambda>a. dict_objs h ! a) qp))],
                   list_objs := list_objs h @ [[]]\<rparr>, w) =
           (map_option fst
              (fst (list_try fuel ep (client_objs h ! self) sz
                      (dict_update d0 (or_empty (map_option (\<lambda>a. dict_objs h ! a) qp))) w)),
            (h', snd (list_try fuel ep (client_objs h ! self) sz
                        (dict_update d0 (or_empty (map_option (\<lambda>a. dict_objs h ! a) qp))) w))) \<and>
          preserved h h' \<and>
          length (dict_objs h') = Suc (length (dict_objs h)) \<and>
          length (list_objs h') = Suc (length (list_objs h)) \<and>
          (\<forall>raised items.
             fst (list_try fuel ep (client_objs h ! self) sz
                    (dict_update d0 (or_empty (map_option (\<lambda>a. dict_objs h ! a) qp))) w) =
               Some (raised, items) \<longrightarrow>
             list_objs h' ! length (list_objs h) = items)"
proof -
  let ?h3 = "h\<lparr>dict_objs := dict_objs h @
                     [dict_update d0 (or_empty (map_option (\<lambda>a. dict_objs h ! a) qp))],
                   list_objs := list_objs h @ [[]]\<rparr>"
  have "length (dict_objs h) < length (dict_objs ?h3)" "length (list_objs h) < length (list_objs ?h3)"
    "list_objs ?h3 ! length (list_objs h) = []"
    by simp_all
  from st_list_try_refines [OF this, of fuel ep self sz w]
  obtain h' where h':
    "st_list_try fuel ep self sz (length (dict_objs h)) (length (list_objs h)) (?h3, w) =
           (map_option fst
              (fst (list_try fuel ep (client_objs ?h3 ! self) sz
                      (dict_objs ?h3 ! length (dict_objs h)) w)),
            (h', snd (list_try fuel ep (client_objs ?h3 ! self) sz
                      (dict_objs ?h3 ! length (dict_objs h)) w)))"
    "only_at (length (dict_objs h)) (length (list_objs h)) ?h3 h'"
    "\<forall>raised items.
             fst (list_try fuel ep (client_objs ?h3 ! self) sz
                      (dict_objs ?h3 ! length (dict_objs h)) w) = Some (raised, items) \<longrightarrow>
             list_objs h' ! length (list_objs h) = items"
    by blast
  have "preserved h h'"
    by (rule fresh_preserved [OF h'(2)]) simp_all
  moreover have "length (dict_objs h') = Suc (length (dict_objs h))"
    "length (list_objs h') = Suc (length (list_objs h))"
    using h'(2) by (simp_all add: only_at_def)
  ultimately show ?thesis
    using h'(1,3) by (intro exI [of _ h']) simp
qed

lemma list_except_fst:
  "map_option (\<lambda>_. a) (list_except tried) = st_list_except (map_option fst tried) a"
  by (simp add: list_except_def st_list_except_def split: option.splits prod.splits)

lemma list_except_Some:
  "list_except tried = Some items \<Longrightarrow> \<exists>raised. tried = Some (raised, items)"
  by (auto simp: list_except_def split: option.splits prod.splits if_splits)

lemma st_get_courses_refines:
  assumes "pred_option (\<lambda>a. a < length (dict_objs h)) qp"
  shows "\<exists>h'. st_get_courses fuel self sz qp (h, w) =
           (map_option (\<lambda>_. length (list_objs h))
              (fst (get_courses fuel (client_objs h ! self) sz
                      (map_option (\<lambda>a. dict_objs h ! a) qp) w)),
            (h', snd (get_courses fuel (client_objs h ! self) sz
                        (map_option (\<lambda>a. dict_objs h ! a) qp) w))) \<and>
          preserved h h' \<and>
          length (dict_objs h') = Suc (length (dict_objs h)) \<and>
          length (list_objs h') = Suc (length (list_objs h)) \<and>
          (\<forall>items.
             fst (get_courses fuel (client_objs h ! self) sz
                    (map_option (\<lambda>a. dict_objs h ! a) qp) w) = Some items \<longrightarrow>
             list_objs h' ! length (list_objs h) = items)"
proof -
  from st_list_body [OF assms, of fuel DISCOVERY_COURSES_ENDPOINT self sz
      "[(''ordering'', JStr ''key''), (''limit'', JInt sz)]" w]
  obtain h' where h':
    "st_list_try fuel DISCOVERY_COURSES_ENDPOINT self sz (length (dict_objs h)) (length (list_objs h))
                (h\<lparr>dict_objs := dict_objs h @
                     [dict_update [(''ordering'', JStr ''key''), (''limit'', JInt sz)]
                        (or_empty (map_option (\<lambda>a. dict_objs h ! a) qp))],
                   list_objs := list_objs h @ [[]]\<rparr>, w) =
           (map_option fst
              (fst (list_try fuel DISCOVERY_COURSES_ENDPOINT (client_objs h ! self) sz
                      (dict_update [(''ordering'', JStr ''key''), (''limit'', JInt sz)]
                         (or_empty (map_option (\<lambda>a. dict_objs h ! a) qp))) w)),
            (h', snd (list_try fuel DISCOVERY_COURSES_ENDPOINT (client_objs h ! self) sz
                        (dict_update [(''ordering'', JStr ''key''), (''limit'', JInt sz)]
                           (or_empty (map_option (\<lambda>a. dict_objs h ! a) qp))) w)))"
    "preserved h h'"
    "length (dict_objs h') = Suc (length (dict_objs h))"
    "length (list_objs h') = Suc (length (list_objs h))"
    "\<forall>raised items.
             fst (list_try fuel DISCOVERY_COURSES_ENDPOINT (client_objs h ! self) sz
                    (dict_update [(''ordering'', JStr ''key''), (''limit'', JInt sz)]
                       (or_empty (map_option (\<lambda>a. dict_objs h ! a) qp))) w) =
               Some (raised, items) \<longrightarrow>
             list_objs h' ! length (list_objs h) = items"
    by blast
  have "st_get_courses fuel self sz qp (h, w) =
           (map_option (\<lambda>_. length (list_objs h))
              (fst (get_courses fuel (client_objs h ! self) sz
                      (map_option (\<lambda>a. dict_objs h ! a) qp) w)),
            (h', snd (get_courses fuel (client_objs h ! self) sz
                        (map_option (\<lambda>a. dict_objs h ! a) qp) w)))"
    using h'(1)
    by (simp add: st_get_courses_def get_courses_def new_dict_def new_list_def set_dict_def
        deref_after_new_dict [OF assms] list_except_fst Let_def split: prod.splits)
  moreover have "list_objs h' ! length (list_objs h) = items"
    if "fst (get_courses fuel (client_objs h ! self) sz
               (map_option (\<lambda>a. dict_objs h ! a) qp) w) = Some items" for items
    using that h'(5) list_except_Some
    by (fastforce simp: get_courses_def Let_def split: prod.splits)
  ultimately show ?thesis
    using h'(2,3,4) by (intro exI [of _ h']) simp
qed

lemma st_get_programs_refines:
  assumes "pred_option (\<lambda>a. a < length (dict_objs h)) qp"
  shows "\<exists>h'. st_get_programs fuel self sz qp (h, w) =
           (map_option (\<lambda>_. length (list_objs h))
              (fst (get_programs fuel (client_objs h ! self) sz
                      (map_option (\<lambda>a. dict_objs h ! a) qp) w)),
            (h', snd (get_programs fuel (client_objs h ! self) sz
                        (map_option (\<lambda>a. dict_objs h ! a) qp) w))) \<and>
          preserved h h' \<and>
          length (dict_objs h') = Suc (length (dict_objs h)) \<and>
          length (list_objs h') = Suc (length (list_objs h)) \<and>
          (\<forall>items.
             fst (get_programs fuel (client_objs h ! self) sz
                    (map_option (\<lambda>a. dict_objs h ! a) qp) w) = Some items \<longrightarrow>
             list_objs h' ! length (list_objs h) = items)"
proof -
  from st_list_body [OF assms, of fuel DISCOVERY_PROGRAMS_ENDPOINT self sz
      "[(''ordering'', JStr ''key''), (''limit'', JInt sz), (''extended'', JStr ''True'')]" w]
  obtain h' where h':
    "st_list_try fuel DISCOVERY_PROGRAMS_ENDPOINT self sz (length (dict_objs h)) (length (list_objs h))
                (h\<lparr>dict_objs := dict_objs h @
                     [dict_update [(''ordering'', JStr ''key''), (''limit'', JInt sz), (''extended'', JStr ''True'')]
                        (or_empty (map_option (\<lambda>a. dict_objs h ! a) qp))],
                   list_objs := list_objs h @ [[]]\<rparr>, w) =
           (map_option fst
              (fst (list_try fuel DISCOVERY_PROGRAMS_ENDPOINT (client_objs h ! self) sz
                      (dict_update [(''ordering'', JStr ''key''), (''limit'', JInt sz), (''extended'', JStr ''True'')]
                         (or_empty (map_option (\<lambda>a. dict_objs h ! a) qp))) w)),
            (h', snd (list_try fuel DISCOVERY_PROGRAMS_ENDPOINT (client_objs h ! self) sz
                        (dict_update [(''ordering'', JStr ''key''), (''limit'', JInt sz), (''extended'', JStr ''True'')]
                           (or_empty (map_option (\<lambda>a. dict_objs h ! a) qp))) w)))"
    "preserved h h'"
    "length (dict_objs h') = Suc (length (dict_objs h))"
    "length (list_objs h') = Suc (length (list_objs h))"
    "\<forall>raised items.
             fst (list_try fuel DISCOVERY_PROGRAMS_ENDPOINT (client_objs h ! self) sz
                    (dict_update [(''ordering'', JStr ''key''), (''limit'', JInt sz), (''extended'', JStr ''True'')]
                       (or_empty (map_option (\<lambda>a. dict_objs h ! a) qp))) w) =
               Some (raised, items) \<longrightarrow>
             list_objs h' ! length (list_objs h) = items"
    by blast
  have "st_get_programs fuel self sz qp (h, w) =
           (map_option (\<lambda>_. length (list_objs h))
              (fst (get_programs fuel (client_objs h ! self) sz
                      (map_option (\<lambda>a. dict_objs h ! a) qp) w)),
            (h', snd (get_programs fuel (client_objs h ! self) sz
                        (map_option (\<lambda>a. dict_objs h ! a) qp) w)))"
    using h'(1)
    by (simp add: st_get_programs_def get_programs_def new_dict_def new_list_def set_dict_def
        deref_after_new_dict [OF assms] list_except_fst Let_def split: prod.splits)
  moreover have "list_objs h' ! length (list_objs h) = items"
    if "fst (get_programs fuel (client_objs h ! self) sz
               (map_option (\<lambda>a. dict_objs h ! a) qp) w) = Some items" for items
    using that h'(5) list_except_Some
    by (fastforce simp: get_programs_def Let_def split: prod.splits)
  ultimately show ?thesis
    using h'(2,3,4) by (intro exI [of _ h']) simp
qed

lemma st_get_metadata_by_query_refines:
  "\<exists>h'. st_get_metadata_by_query fuel self cq (h, w) =
           (map_option (map_sum (\<lambda>exc. exc) (\<lambda>_. length (list_objs h)))
              (fst (get_metadata_by_query fuel (client_objs h ! self) (query_objs h ! cq) w)),
            (h', snd (get_metadata_by_query fuel (client_objs h ! self) (query_objs h ! cq) w))) \<and>
          preserved h h' \<and>
          length (dict_objs h') = Suc (length (dict_objs h)) \<and>
          length (list_objs h') = Suc (length (list_objs h)) \<and>
          (\<forall>items.
             fst (get_metadata_by_query fuel (client_objs h ! self) (query_objs h ! cq) w) =
               Some (Inr items) \<longrightarrow>
             list_objs h' ! length (list_objs h) = items)"
proof -
  let ?d0 = "[(''exclude_expired_course_run'', JBool True), (''page_size'', JInt 100),
              (''ordering'', JStr ''aggregation_key,start''),
              (''include_learner_pathways'', JBool True)]"
  let ?h2 = "h\<lparr>dict_objs := dict_objs h @ [?d0], list_objs := list_objs h @ [[]]\<rparr>"
  let ?rp = "length (dict_objs h)"
  let ?acc = "length (list_objs h)"
  let ?cf = "content_filter (query_objs h ! cq)"
  have step: "\<exists>h'. st_search_pages fuel self ?cf 1 ?rp ?acc resp' (set_list ?acc new ?h2, w1) =
           (map_option (map_sum (\<lambda>exc. exc) (\<lambda>_. ?acc))
              (fst (search_pages fuel (client_objs h ! self) ?cf 1 ?d0 new resp' w1)),
            (h', snd (search_pages fuel (client_objs h ! self) ?cf 1 ?d0 new resp' w1))) \<and>
          preserved h h' \<and>
          length (dict_objs h') = Suc (length (dict_objs h)) \<and>
          length (list_objs h') = Suc (length (list_objs h)) \<and>
          (\<forall>items.
             fst (search_pages fuel (client_objs h ! self) ?cf 1 ?d0 new resp' w1) =
               Some (Inr items) \<longrightarrow>
             list_objs h' ! ?acc = items)" for resp' new w1
  proof -
    let ?h3 = "set_list ?acc new ?h2"
    have "?rp < length (dict_objs ?h3)" "?acc < length (list_objs ?h3)"
      by simp_all
    from st_search_pages_refines [OF this, of fuel self ?cf 1 resp' w1]
    obtain h' where h':
      "st_search_pages fuel self ?cf 1 ?rp ?acc resp' (?h3, w1) =
           (map_option (map_sum (\<lambda>exc. exc) (\<lambda>_. ?acc))
              (fst (search_pages fuel (client_objs ?h3 ! self) ?cf 1 (dict_objs ?h3 ! ?rp)
                      (list_objs ?h3 ! ?acc) resp' w1)),
            (h', snd (search_pages fuel (client_objs ?h3 ! self) ?cf 1 (dict_objs ?h3 ! ?rp)
                      (list_objs ?h3 ! ?acc) resp' w1)))"
      "only_at ?rp ?acc ?h3 h'"
      "\<forall>items.
             fst (search_pages fuel (client_objs ?h3 ! self) ?cf 1 (dict_objs ?h3 ! ?rp)
                      (list_objs ?h3 ! ?acc) resp' w1) = Some (Inr items) \<longrightarrow>
             list_objs h' ! ?acc = items"
      by blast
    have "preserved h h'"
      by (rule fresh_preserved [OF h'(2)]) simp_all
    moreover have "length (dict_objs h') = Suc (length (dict_objs h))"
      "length (list_objs h') = Suc (length (list_objs h))"
      using h'(2) by (simp_all add: only_at_def)
    ultimately show ?thesis
      using h'(1,3) by (intro exI [of _ h']) simp
  qed
  have stay: "preserved h ?h2" "length (dict_objs ?h2) = Suc (length (dict_objs h))"
    "length (list_objs ?h2) = Suc (length (list_objs h))"
    by (simp_all add: preserved_def)
  show ?thesis
    using step stay
    by (simp add: st_get_metadata_by_query_def get_metadata_by_query_def new_dict_def new_list_def
        st_retrieve_refines Let_def split: sum.splits prod.splits)
qed

subsection \<open>Two calls\<close>

lemma fetch_prepend:
  "fetch fuel h self c (prepend t w) = apsnd (prepend t) (fetch fuel h self c w)"
  by (cases c)
     (simp_all add: fetch_def gmq_prepend get_courses_prepend get_programs_prepend
        apfst_def apsnd_def map_prod_def split: prod.splits)

lemma preserved_refl: "preserved h h"
  by (simp add: preserved_def)

lemma preserved_dict:
  assumes "preserved h h'" "a < length (dict_objs h)"
  shows "dict_objs h' ! a = dict_objs h ! a"
  using assms nth_take [of a "length (dict_objs h)" "dict_objs h'"] by (simp add: preserved_def)

lemma preserved_list:
  assumes "preserved h h'" "a < length (list_objs h)"
  shows "list_objs h' ! a = list_objs h ! a"
  using assms nth_take [of a "length (list_objs h)" "list_objs h'"] by (simp add: preserved_def)

lemma fetch_preserved:
  assumes "preserved h h'" "args_allocated h c"
  shows "fetch fuel h' self c w = fetch fuel h self c w"
proof -
  have "map_option (\<lambda>a. dict_objs h' ! a) qp = map_option (\<lambda>a. dict_objs h ! a) qp"
    if "pred_option (\<lambda>a. a < length (dict_objs h)) qp" for qp
    using that preserved_dict [OF assms(1)] by (cases qp) simp_all
  with assms show ?thesis
    by (cases c) (simp_all add: fetch_def args_allocated_def preserved_def)
qed

lemma st_fetch_refines:
  assumes "args_allocated h c"
  shows "\<exists>h'. st_fetch fuel self c (h, w) =
           (map_option (map_sum (\<lambda>exc. exc) (\<lambda>_. length (list_objs h)))
              (fst (fetch fuel h self c w)),
            (h', snd (fetch fuel h self c w))) \<and>
          preserved h h' \<and>
          length (dict_objs h') = Suc (length (dict_objs h)) \<and>
          length (list_objs h') = Suc (length (list_objs h)) \<and>
          (\<forall>items.
             fst (fetch fuel h self c w) = Some (Inr items) \<longrightarrow>
             list_objs h' ! length (list_objs h) = items)"
proof (cases c)
  case (Search_call cq)
  from st_get_metadata_by_query_refines [of fuel self cq h w] show ?thesis
    by (simp add: Search_call st_fetch_def fetch_def)
next
  case (Courses_call sz qp)
  with assms have "pred_option (\<lambda>a. a < length (dict_objs h)) qp"
    by (simp add: args_allocated_def)
  from st_get_courses_refines [OF this, of fuel self sz w] show ?thesis
    by (auto simp: Courses_call st_fetch_def fetch_def option.map_comp comp_def)
next
  case (Programs_call sz qp)
  with assms have "pred_option (\<lambda>a. a < length (dict_objs h)) qp"
    by (simp add: args_allocated_def)
  from st_get_programs_refines [OF this, of fuel self sz w] show ?thesis
    by (auto simp: Programs_call st_fetch_def fetch_def option.map_comp comp_def)
qed

lemma st_fetch_facts:
  assumes "args_allocated h c" and "st_fetch fuel self c (h, w) = (r, (h', w'))"
  shows "returned h' r = fst (fetch fuel h self c w)"
    and "w' = snd (fetch fuel h self c w)"
    and "preserved h h'"
    and "length (dict_objs h') = Suc (length (dict_objs h))"
    and "length (list_objs h') = Suc (length (list_objs h))"
    and "\<forall>a. r = Some (Inr a) \<longrightarrow> a = length (list_objs h)"
proof -
  from st_fetch_refines [OF assms(1), of fuel self w] assms(2)
  have r: "r = map_option (map_sum (\<lambda>exc. exc) (\<lambda>_. length (list_objs h)))
                 (fst (fetch fuel h self c w))"
    and wq: "w' = snd (fetch fuel h self c w)"
    and rest: "preserved h h'" "length (dict_objs h') = Suc (length (dict_objs h))"
      "length (list_objs h') = Suc (length (list_objs h))"
    and val: "\<forall>items. fst (fetch fuel h self c w) = Some (Inr items) \<longrightarrow>
                list_objs h' ! length (list_objs h) = items"
    by auto
  show "returned h' r = fst (fetch fuel h self c w)"
  proof (cases "fst (fetch fuel h self c w)")
    case None
    then show ?thesis by (simp add: r returned_def)
  next
    case (Some x)
    with val show ?thesis by (cases x) (simp_all add: r returned_def)
  qed
  show "\<forall>a. r = Some (Inr a) \<longrightarrow> a = length (list_objs h)"
  proof (intro allI impI)
    fix a assume "r = Some (Inr a)"
    then show "a = length (list_objs h)"
      unfolding r by (cases "fst (fetch fuel h self c w)") (auto simp: map_sum_def split: sum.splits)
  qed
  show "w' = snd (fetch fuel h self c w)" "preserved h h'"
    "length (dict_objs h') = Suc (length (dict_objs h))"
    "length (list_objs h') = Suc (length (list_objs h))"
    by (fact wq rest)+
qed

lemma same_server:
  assumes "server w' = server w"
  shows "w' = prepend (trace w') \<lparr>server = server w, trace = []\<rparr>"
    and "w = prepend (trace w) \<lparr>server = server w, trace = []\<rparr>"
  using assms by (simp_all add: prepend_def)

lemma fetch_same_server:
  assumes "server w' = server w"
  shows "fst (fetch fuel h self c w') = fst (fetch fuel h self c w)"
    and "server (snd (fetch fuel h self c w')) = server (snd (fetch fuel h self c w))"
    and "events_since w' (snd (fetch fuel h self c w')) = events_since w (snd (fetch fuel h self c w))"
proof -
  let ?w0 = "\<lparr>server = server w, trace = []\<rparr>"
  have a: "fetch fuel h self c w' = apsnd (prepend (trace w')) (fetch fuel h self c ?w0)"
    using fetch_prepend [of fuel h self c "trace w'" ?w0] same_server(1) [OF assms] by simp
  have b: "fetch fuel h self c w = apsnd (prepend (trace w)) (fetch fuel h self c ?w0)"
    using fetch_prepend [of fuel h self c "trace w" ?w0] same_server(2) [OF assms] by simp
  show "fst (fetch fuel h self c w') = fst (fetch fuel h self c w)"
    by (simp add: a b)
  show "server (snd (fetch fuel h self c w')) = server (snd (fetch fuel h self c w))"
    by (simp add: a b prepend_def)
  have "trace (snd (fetch fuel h self c w')) = trace w' @ trace (snd (fetch fuel h self c ?w0))"
    by (subst a) (simp add: prepend_def)
  moreover have "trace (snd (fetch fuel h self c w)) = trace w @ trace (snd (fetch fuel h self c ?w0))"
    by (subst b) (simp add: prepend_def)
  ultimately show "events_since w' (snd (fetch fuel h self c w')) =
      events_since w (snd (fetch fuel h self c w))"
    by (simp add: events_since_def)
qed

lemma preserved_length:
  assumes "preserved h h'"
  shows "length (dict_objs h) \<le> length (dict_objs h')" "length (list_objs h) \<le> length (list_objs h')"
proof -
  have "length (take (length (dict_objs h)) (dict_objs h')) = length (dict_objs h)"
    "length (take (length (list_objs h)) (list_objs h')) = length (list_objs h)"
    using assms by (simp_all add: preserved_def)
  then show "length (dict_objs h) \<le> length (dict_objs h')"
    "length (list_objs h) \<le> length (list_objs h')"
    by simp_all
qed

lemma preserved_trans:
  assumes "preserved h h1" "preserved h1 h2"
  shows "preserved h h2"
proof -
  note le = preserved_length [OF assms(1)]
  have "take (length (dict_objs h)) (dict_objs h2) =
        take (length (dict_objs h)) (take (length (dict_objs h1)) (dict_objs h2))"
    using le(1) by (simp add: min_def)
  also have "\<dots> = dict_objs h"
    using assms by (simp only: preserved_def)
  finally have d: "take (length (dict_objs h)) (dict_objs h2) = dict_objs h" .
  have "take (length (list_objs h)) (list_objs h2) =
        take (length (list_objs h)) (take (length (list_objs h1)) (list_objs h2))"
    using le(2) by (simp add: min_def)
  also have "\<dots> = list_objs h"
    using assms by (simp only: preserved_def)
  finally have l: "take (length (list_objs h)) (list_objs h2) = list_objs h" .
  from assms d l show ?thesis
    by (simp add: preserved_def)
qed

lemma args_allocated_mono:
  assumes "preserved h h'" "args_allocated h c"
  shows "args_allocated h' c"
proof -
  have "pred_option (\<lambda>a. a < length (dict_objs h')) qp"
    if "pred_option (\<lambda>a. a < length (dict_objs h)) qp" for qp
    using that preserved_length(1) [OF assms(1)] by (cases qp) simp_all
  with assms(2) show ?thesis
    by (cases c) (simp_all add: args_allocated_def)
qed

section \<open>The claims of the specification\<close>

subsection \<open>C1: the pages are concatenated in order\<close>

text \<open>
  C1. When the server delivers a sequence of pages, each with a \<open>results\<close> list and each
  but the last with a truthy \<open>next\<close>, the three operations return the concatenation of
  the pages' results, in page order and then in-page order; for a single page, that
  page's results. (\<open>sps\<close> are the pages with the status codes they are served under; the
  fuel covers the \<open>length sps - 1\<close> iterations of the loop.)
\<close>

theorem paged_results_concatenated:
  assumes "sps \<noteq> []"
    and "list_all (\<lambda>sp. fst sp < 400 \<and> has_results (snd sp)) sps"
    and "list_all has_next (butlast (map snd sps))"
    and "\<not> has_next (snd (last sps))"
    and "length sps \<le> Suc fuel"
  shows "fst (get_metadata_by_query fuel self cq \<lparr>server = map served sps @- s, trace = t\<rparr>) =
           Some (Inr (concat (map (\<lambda>sp. page_results (snd sp)) sps))) \<and>
         fst (get_courses fuel self sz qp \<lparr>server = map served sps @- s, trace = t\<rparr>) =
           Some (concat (map (\<lambda>sp. page_results (snd sp)) sps)) \<and>
         fst (get_programs fuel self sz qp \<lparr>server = map served sps @- s, trace = t\<rparr>) =
           Some (concat (map (\<lambda>sp. page_results (snd sp)) sps))"
proof -
  from assms(2) have ok: "list_all (\<lambda>sp. fst sp < 400 \<and> extends (snd sp)) sps"
    by (auto simp: list_all_iff has_resultsD(2))
  note ext = has_results_extends(1) [OF assms(2)]
  note hd = has_results_extends(3) [OF assms(2) assms(1)]
  have "fst (get_metadata_by_query fuel self cq \<lparr>server = map served sps @- s, trace = t\<rparr>) =
          Some (Inr (concat (map (\<lambda>sp. page_results (snd sp)) sps)))"
    by (simp add: gmq_done [OF assms(1) ok assms(3,4,5)])
  moreover
  have "fst (get_courses fuel self sz qp \<lparr>server = map served sps @- s, trace = t\<rparr>) =
          Some (concat (map (\<lambda>sp. page_results (snd sp)) sps))"
    by (simp add: get_courses_done [OF list_try_done [OF assms(1) hd ext assms(3,4,5)]])
  moreover
  have "fst (get_programs fuel self sz qp \<lparr>server = map served sps @- s, trace = t\<rparr>) =
          Some (concat (map (\<lambda>sp. page_results (snd sp)) sps))"
    by (simp add: get_programs_done [OF list_try_done [OF assms(1) hd ext assms(3,4,5)]])
  ultimately show ?thesis
    by simp
qed

theorem paged_results_concatenated_witness:
  "fst (get_metadata_by_query 1 \<lparr>MAX_RETRIES = 4, BACKOFF_FACTOR = 2, HTTP_TIMEOUT = 15\<rparr>
          \<lparr>content_filter = JObj [(''content_type'', JStr ''course'')]\<rparr>
          \<lparr>server =
             map served
               [(200, JObj [(''results'', JArr [JObj [(''key'', JStr ''fakeX'')]]),
                            (''next'', JStr ''page2'')]),
                (200, JObj [(''results'', JArr [JObj [(''key'', JStr ''fakeY'')]]),
                            (''next'', JNull)])] @-
             sconst (Raises (OtherException ''unused'')),
            trace = []\<rparr>) =
     Some (Inr [JObj [(''key'', JStr ''fakeX'')], JObj [(''key'', JStr ''fakeY'')]]) \<and>
   fst (get_courses 1 \<lparr>MAX_RETRIES = 4, BACKOFF_FACTOR = 2, HTTP_TIMEOUT = 15\<rparr> 100
          (Some [(''ordering'', JStr ''key'')])
          \<lparr>server =
             map served
               [(200, JObj [(''results'', JArr [JObj [(''key'', JStr ''fakeX'')]]),
                            (''next'', JStr ''page2'')]),
                (200, JObj [(''results'', JArr [JObj [(''key'', JStr ''fakeY'')]]),
                            (''next'', JNull)])] @-
             sconst (Raises (OtherException ''unused'')),
            trace = []\<rparr>) =
     Some [JObj [(''key'', JStr ''fakeX'')], JObj [(''key'', JStr ''fakeY'')]] \<and>
   fst (get_programs 1 \<lparr>MAX_RETRIES = 4, BACKOFF_FACTOR = 2, HTTP_TIMEOUT = 15\<rparr> 100
          (Some [(''ordering'', JStr ''key'')])
          \<lparr>server =
             map served
               [(200, JObj [(''results'', JArr [JObj [(''key'', JStr ''fakeX'')]]),
                            (''next'', JStr ''page2'')]),
                (200, JObj [(''results'', JArr [JObj [(''key'', JStr ''fakeY'')]]),
                            (''next'', JNull)])] @-
             sconst (Raises (OtherException ''unused'')),
            trace = []\<rparr>) =
     Some [JObj [(''key'', JStr ''fakeX'')], JObj [(''key'', JStr ''fakeY'')]]"
  using paged_results_concatenated
    [of "[(200, JObj [(''results'', JArr [JObj [(''key'', JStr ''fakeX'')]]),
                      (''next'', JStr ''page2'')]),
          (200, JObj [(''results'', JArr [JObj [(''key'', JStr ''fakeY'')]]),
                      (''next'', JNull)])]"
        1 "\<lparr>MAX_RETRIES = 4, BACKOFF_FACTOR = 2, HTTP_TIMEOUT = 15\<rparr>"
        "\<lparr>content_filter = JObj [(''content_type'', JStr ''course'')]\<rparr>"
        "sconst (Raises (OtherException ''unused''))" "[]" 100
        "Some [(''ordering'', JStr ''key'')]"]
  by (simp add: has_results_def has_next_def page_results_def py_get_def)

subsection \<open>C2: the backoff schedule and the number of attempts\<close>

text \<open>
  C2. In the retry loop of the search path, the delay slept before retry \<open>k\<close> is
  \<open>BACKOFF_FACTOR * 2 ^ (k - 1)\<close>, and a page whose every attempt fails is requested
  \<open>MAX_RETRIES + 1\<close> times. Here \<open>pre\<close> are the attempts that failed and were retried and
  \<open>out\<close> is the outcome of the last attempt: the trace alternates requests and sleeps, the
  \<open>k\<close>-th sleep being the stated delay, and ends with the last request.
\<close>

theorem backoff_schedule:
  assumes "list_all retryable pre"
    and "length pre \<le> MAX_RETRIES self"
    and "length pre = MAX_RETRIES self \<or> \<not> retryable out"
  shows "let rq = search_request self cf rp;
             es = concat (map (\<lambda>k. [Request rq, Sleep (BACKOFF_FACTOR self * 2 ^ (k - 1))])
                            [1..<Suc (length pre)]) @ [Request rq]
         in snd (retrieve_metadata_for_content_filter self cf page rp
                   \<lparr>server = pre @- out ## s, trace = t\<rparr>) = \<lparr>server = s, trace = t @ es\<rparr> \<and>
            sleeps_in es = map (\<lambda>k. BACKOFF_FACTOR self * 2 ^ (k - 1)) [1..<Suc (length pre)] \<and>
            length (requests_in es) = length pre + 1 \<and>
            (retryable out \<longrightarrow> length (requests_in es) = MAX_RETRIES self + 1)"
proof -
  let ?rq = "search_request self cf rp"
  have es: "concat (map (\<lambda>k. [Request ?rq, Sleep (BACKOFF_FACTOR self * 2 ^ (k - 1))])
                      [1..<Suc (length pre)]) = backoffs self ?rq 0 (length pre)"
    by (simp add: backoffs_def)
  have "snd (retrieve_metadata_for_content_filter self cf page rp
               \<lparr>server = pre @- out ## s, trace = t\<rparr>) =
        \<lparr>server = s, trace = t @ backoffs self ?rq 0 (length pre) @ [Request ?rq]\<rparr>"
    by (simp add: retrieve_attempts' [OF assms] attempts_world_def)
  moreover have "retryable out \<longrightarrow> length pre = MAX_RETRIES self"
    using assms(3) by blast
  ultimately show ?thesis
    unfolding Let_def es by simp
qed

theorem backoff_schedule_witness:
  "snd (retrieve_metadata_for_content_filter
          \<lparr>MAX_RETRIES = 4, BACKOFF_FACTOR = 2, HTTP_TIMEOUT = 15\<rparr> (JObj []) 1 []
          \<lparr>server = replicate 4 (Responds \<lparr>status_code = 400, body = Some (JObj [])\<rparr>) @-
                    Responds \<lparr>status_code = 400, body = Some (JObj [])\<rparr> ##
                    sconst (Raises (OtherException ''unused'')),
           trace = []\<rparr>) =
   \<lparr>server = sconst (Raises (OtherException ''unused'')),
    trace =
      [Request (search_request \<lparr>MAX_RETRIES = 4, BACKOFF_FACTOR = 2, HTTP_TIMEOUT = 15\<rparr> (JObj []) []),
       Sleep 2,
       Request (search_request \<lparr>MAX_RETRIES = 4, BACKOFF_FACTOR = 2, HTTP_TIMEOUT = 15\<rparr> (JObj []) []),
       Sleep 4,
       Request (search_request \<lparr>MAX_RETRIES = 4, BACKOFF_FACTOR = 2, HTTP_TIMEOUT = 15\<rparr> (JObj []) []),
       Sleep 8,
       Request (search_request \<lparr>MAX_RETRIES = 4, BACKOFF_FACTOR = 2, HTTP_TIMEOUT = 15\<rparr> (JObj []) []),
       Sleep 16,
       Request (search_request \<lparr>MAX_RETRIES = 4, BACKOFF_FACTOR = 2, HTTP_TIMEOUT = 15\<rparr> (JObj []) [])]\<rparr>"
  using backoff_schedule
    [of "replicate 4 (Responds \<lparr>status_code = 400, body = Some (JObj [])\<rparr>)"
        "\<lparr>MAX_RETRIES = 4, BACKOFF_FACTOR = 2, HTTP_TIMEOUT = 15\<rparr>"
        "Responds \<lparr>status_code = 400, body = Some (JObj [])\<rparr>"
        "JObj []" "[]" 1 "sconst (Raises (OtherException ''unused''))" "[]"]
  by (simp add: retryable_def Let_def eval_nat_numeral)

subsection \<open>C3: a transport failure on every attempt propagates\<close>

text \<open>
  C3. Let the POST for a page raise a transport exception on each of its
  \<open>MAX_RETRIES + 1\<close> attempts (\<open>classes\<close> are the exception classes raised, in order). Then
  \<open>get_metadata_by_query\<close> raises the exception of the last attempt, which is the one
  exception when all attempts raise the same; the server has been asked exactly
  \<open>MAX_RETRIES + 1\<close> times for that page; and what was accumulated is not returned. This
  is stated twice: for the call as a whole, after any number of pages fetched with success
  (\<open>sps\<close>, each announcing a next page), and for the loop in any state it can be in, with
  any \<open>results\<close> accumulated and a \<open>response\<close> that announces a next page.
\<close>

theorem transport_failure_propagates:
  assumes "list_all (\<lambda>sp. fst sp < 400 \<and> extends (snd sp) \<and> has_next (snd sp)) sps"
    and "length sps \<le> fuel"
    and "length classes = MAX_RETRIES self + 1"
  shows "fst (get_metadata_by_query fuel self cq
                \<lparr>server = map served sps @-
                          map (\<lambda>cls. Raises (RequestException cls)) classes @- s,
                 trace = t\<rparr>) =
           Some (Inl (RequestException (last classes))) \<and>
         server (snd (get_metadata_by_query fuel self cq
                \<lparr>server = map served sps @-
                          map (\<lambda>cls. Raises (RequestException cls)) classes @- s,
                 trace = t\<rparr>)) = s \<and>
         length (requests_in (trace (snd (get_metadata_by_query fuel self cq
                \<lparr>server = map served sps @-
                          map (\<lambda>cls. Raises (RequestException cls)) classes @- s,
                 trace = t\<rparr>)))) =
           length (requests_in t) + length sps + (MAX_RETRIES self + 1) \<and>
         (has_next response \<longrightarrow>
          fst (search_pages (Suc n) self cf page rp results response
                 \<lparr>server = map (\<lambda>cls. Raises (RequestException cls)) classes @- s,
                  trace = t\<rparr>) =
            Some (Inl (RequestException (last classes))) \<and>
          server (snd (search_pages (Suc n) self cf page rp results response
                 \<lparr>server = map (\<lambda>cls. Raises (RequestException cls)) classes @- s,
                  trace = t\<rparr>)) = s \<and>
          length (requests_in (trace (snd (search_pages (Suc n) self cf page rp results response
                 \<lparr>server = map (\<lambda>cls. Raises (RequestException cls)) classes @- s,
                  trace = t\<rparr>)))) =
            length (requests_in t) + (MAX_RETRIES self + 1))"
proof -
  let ?raise = "\<lambda>cls. Raises (RequestException cls)"
  from assms(3) obtain before cls where classes: "classes = before @ [cls]"
    by (cases classes rule: rev_cases) auto
  have pre: "list_all retryable (map ?raise before)"
    "length (map ?raise before) \<le> MAX_RETRIES self"
    "length (map ?raise before) = MAX_RETRIES self \<or> \<not> retryable (?raise cls)"
    using assms(3) by (simp_all add: list_all_iff classes)
  have out: "outcome_result (?raise cls) = Inl (RequestException cls)"
    by simp
  have whole: "get_metadata_by_query fuel self cq
          \<lparr>server = map served sps @- map ?raise classes @- s, trace = t\<rparr> =
        (Some (Inl (RequestException (last classes))),
         attempts_world self
           (search_request self (content_filter cq) (page_params search_defaults 1 (length sps)))
           (length (map ?raise before)) s (t @ search_trace self cq (length sps)))"
    using gmq_fail [OF assms(1,2) pre out, of cq s t]
    by (simp add: classes)
  have loop: "search_pages (Suc n) self cf page rp results response
          \<lparr>server = map ?raise classes @- s, trace = t\<rparr> =
        (Some (Inl (RequestException (last classes))),
         attempts_world self (search_request self cf (dict_set rp ''page'' (JInt (page + 1))))
           (length (map ?raise before)) s t)"
    if "has_next response"
    using search_pages_raise [OF that pre out, of n cf page rp results s t]
    by (simp add: classes)
  have len: "length before = MAX_RETRIES self"
    using assms(3) by (simp add: classes)
  show ?thesis
    by (simp add: whole loop len)
qed

theorem transport_failure_propagates_witness:
  "fst (get_metadata_by_query 1 \<lparr>MAX_RETRIES = 4, BACKOFF_FACTOR = 0, HTTP_TIMEOUT = 15\<rparr>
          \<lparr>content_filter = JObj []\<rparr>
          \<lparr>server =
             map served [(200, JObj [(''results'', JArr [JStr ''a'']), (''next'', JStr ''p2'')])] @-
             map (\<lambda>cls. Raises (RequestException cls)) (replicate 5 ''ChunkedEncodingError'') @-
             sconst (Raises (OtherException ''unused'')),
           trace = []\<rparr>) =
     Some (Inl (RequestException ''ChunkedEncodingError'')) \<and>
   length (requests_in (trace (snd (get_metadata_by_query 1
          \<lparr>MAX_RETRIES = 4, BACKOFF_FACTOR = 0, HTTP_TIMEOUT = 15\<rparr>
          \<lparr>content_filter = JObj []\<rparr>
          \<lparr>server =
             map served [(200, JObj [(''results'', JArr [JStr ''a'']), (''next'', JStr ''p2'')])] @-
             map (\<lambda>cls. Raises (RequestException cls)) (replicate 5 ''ChunkedEncodingError'') @-
             sconst (Raises (OtherException ''unused'')),
           trace = []\<rparr>)))) = 6"
  using transport_failure_propagates
    [where sps = "[(200, JObj [(''results'', JArr [JStr ''a'']), (''next'', JStr ''p2'')])]"
       and fuel = 1 and classes = "replicate 5 ''ChunkedEncodingError''" and t = "[]"
       and self = "\<lparr>MAX_RETRIES = 4, BACKOFF_FACTOR = 0, HTTP_TIMEOUT = 15\<rparr>"
       and cq = "\<lparr>content_filter = JObj []\<rparr>"
       and s = "sconst (Raises (OtherException ''unused''))"]
  by (simp add: extends_def has_next_def py_get_def)

subsection \<open>C4: the list operations return what they have\<close>

text \<open>
  C4. Let the request for a page raise: \<open>outcome_result out = Inl exc\<close> says that the GET
  raises \<open>exc\<close> (a transport error, \<open>SoftTimeLimitExceeded\<close>, a decode error or any other
  exception) or that the body of the response does not decode. Then \<open>get_courses\<close> and
  \<open>get_programs\<close> return, as a list, what the pages before have given, and make no
  further request. This is stated for the calls as wholes, after any number of pages
  fetched (\<open>sps\<close>, each with a results list and a truthy \<open>next\<close>; none when the first
  request raises), and for the loop in any state it can be in: whatever \<open>items\<close> are
  accumulated, the handlers turn the exception into these \<open>items\<close>.
\<close>

theorem list_failure_returns_partial:
  assumes "list_all (\<lambda>sp. has_results (snd sp) \<and> has_next (snd sp)) sps"
    and "length sps \<le> fuel"
    and "outcome_result out = Inl exc"
  shows "fst (get_courses fuel self sz qp \<lparr>server = map served sps @- out ## s, trace = t\<rparr>) =
           Some (concat (map (\<lambda>sp. page_results (snd sp)) sps)) \<and>
         server (snd (get_courses fuel self sz qp
                        \<lparr>server = map served sps @- out ## s, trace = t\<rparr>)) = s \<and>
         fst (get_programs fuel self sz qp \<lparr>server = map served sps @- out ## s, trace = t\<rparr>) =
           Some (concat (map (\<lambda>sp. page_results (snd sp)) sps)) \<and>
         server (snd (get_programs fuel self sz qp
                        \<lparr>server = map served sps @- out ## s, trace = t\<rparr>)) = s \<and>
         (has_next response \<longrightarrow>
          list_except (fst (list_pages (Suc n) ep self sz offset rp items response
                              \<lparr>server = out ## s, trace = t\<rparr>)) = Some items \<and>
          server (snd (list_pages (Suc n) ep self sz offset rp items response
                         \<lparr>server = out ## s, trace = t\<rparr>)) = s)"
proof -
  have "list_pages (Suc n) ep self sz offset rp items response \<lparr>server = out ## s, trace = t\<rparr> =
        (Some (Some exc, items),
         \<lparr>server = s,
          trace = t @ [Request (list_request ep self
                                  (dict_set rp ''offset'' (JInt (offset + sz))))]\<rparr>)"
    if "has_next response"
    by (rule list_pages_raise [OF that assms(3)])
  then show ?thesis
    by (simp add: get_courses_done [OF list_try_partial [OF assms]]
        get_programs_done [OF list_try_partial [OF assms]])
qed

theorem list_failure_returns_partial_witness:
  "fst (get_courses 1 \<lparr>MAX_RETRIES = 4, BACKOFF_FACTOR = 2, HTTP_TIMEOUT = 15\<rparr> 100
          (Some [(''ordering'', JStr ''key'')])
          \<lparr>server =
             map served [(200, JObj [(''results'', JArr [JObj [(''key'', JStr ''fakeX'')]]),
                                     (''next'', JStr ''page2'')])] @-
             Raises SoftTimeLimitExceeded ## sconst (Raises (OtherException ''unused'')),
           trace = []\<rparr>) =
     Some [JObj [(''key'', JStr ''fakeX'')]] \<and>
   fst (get_courses 0 \<lparr>MAX_RETRIES = 4, BACKOFF_FACTOR = 2, HTTP_TIMEOUT = 15\<rparr> 100
          (Some [(''ordering'', JStr ''key'')])
          \<lparr>server = map served [] @-
             Raises JSONDecodeError ## sconst (Raises (OtherException ''unused'')),
           trace = []\<rparr>) =
     Some [] \<and>
   fst (get_programs 0 \<lparr>MAX_RETRIES = 4, BACKOFF_FACTOR = 2, HTTP_TIMEOUT = 15\<rparr> 100 None
          \<lparr>server = map served [] @-
             Responds \<lparr>status_code = 200, body = None\<rparr> ##
             sconst (Raises (OtherException ''unused'')),
           trace = []\<rparr>) =
     Some []"
  using list_failure_returns_partial
    [where sps = "[(200, JObj [(''results'', JArr [JObj [(''key'', JStr ''fakeX'')]]),
                               (''next'', JStr ''page2'')])]"
       and fuel = 1 and out = "Raises SoftTimeLimitExceeded" and exc = SoftTimeLimitExceeded
       and self = "\<lparr>MAX_RETRIES = 4, BACKOFF_FACTOR = 2, HTTP_TIMEOUT = 15\<rparr>" and sz = 100
       and qp = "Some [(''ordering'', JStr ''key'')]" and t = "[]"
       and s = "sconst (Raises (OtherException ''unused''))"]
    list_failure_returns_partial
    [where sps = "[]" and fuel = 0 and out = "Raises JSONDecodeError" and exc = JSONDecodeError
       and self = "\<lparr>MAX_RETRIES = 4, BACKOFF_FACTOR = 2, HTTP_TIMEOUT = 15\<rparr>" and sz = 100
       and qp = "Some [(''ordering'', JStr ''key'')]" and t = "[]"
       and s = "sconst (Raises (OtherException ''unused''))"]
    list_failure_returns_partial
    [where sps = "[]" and fuel = 0 and out = "Responds \<lparr>status_code = 200, body = None\<rparr>"
       and exc = JSONDecodeError
       and self = "\<lparr>MAX_RETRIES = 4, BACKOFF_FACTOR = 2, HTTP_TIMEOUT = 15\<rparr>" and sz = 100
       and qp = None and t = "[]" and s = "sconst (Raises (OtherException ''unused''))"]
  by (simp add: has_results_def has_next_def page_results_def py_get_def response_json_def)

subsection \<open>C5: a bad status on every attempt\<close>

text \<open>
  C5. Let every one of the \<open>MAX_RETRIES + 1\<close> attempts for a search page be answered with
  a status of 400 or more (\<open>rs\<close> are the responses), no exception being raised. Then
  exactly \<open>MAX_RETRIES + 1\<close> POST requests are made, and
  \<open>_retrieve_metadata_for_content_filter\<close> returns what \<^verbatim>\<open>.json()\<close> gives on the last
  response: the parsed body, when it parses. \<open>get_metadata_by_query\<close> then takes the
  \<open>results\<close> of that body (none when it has no such member) and, the body having no
  \<open>next\<close>, returns: after the pages \<open>sps\<close> fetched before, and also from any state of the
  loop, with any \<open>results\<close> accumulated.
\<close>

theorem bad_status_exhaustion:
  assumes "length rs = MAX_RETRIES self + 1"
    and "list_all (\<lambda>r. \<not> status_code r < 400) rs"
  shows "fst (retrieve_metadata_for_content_filter self cf page rp
                \<lparr>server = map Responds rs @- s, trace = t\<rparr>) = response_json (last rs) \<and>
         (body (last rs) = Some b \<longrightarrow> response_json (last rs) = Inr b) \<and>
         server (snd (retrieve_metadata_for_content_filter self cf page rp
                \<lparr>server = map Responds rs @- s, trace = t\<rparr>)) = s \<and>
         requests_in (trace (snd (retrieve_metadata_for_content_filter self cf page rp
                \<lparr>server = map Responds rs @- s, trace = t\<rparr>))) =
           requests_in t @ replicate (MAX_RETRIES self + 1) (search_request self cf rp) \<and>
         http_method (search_request self cf rp) = POST \<and>
         (list_all (\<lambda>sp. fst sp < 400 \<and> extends (snd sp) \<and> has_next (snd sp)) sps \<and>
          length sps \<le> fuel \<and> body (last rs) = Some b \<and> extends b \<and> \<not> has_next b \<longrightarrow>
          fst (get_metadata_by_query fuel self cq
                 \<lparr>server = map served sps @- map Responds rs @- s, trace = t\<rparr>) =
            Some (Inr (concat (map (\<lambda>sp. page_results (snd sp)) sps) @ page_results b)) \<and>
          server (snd (get_metadata_by_query fuel self cq
                 \<lparr>server = map served sps @- map Responds rs @- s, trace = t\<rparr>)) = s \<and>
          length (requests_in (trace (snd (get_metadata_by_query fuel self cq
                 \<lparr>server = map served sps @- map Responds rs @- s, trace = t\<rparr>)))) =
            length (requests_in t) + length sps + (MAX_RETRIES self + 1)) \<and>
         (has_next response \<and> body (last rs) = Some b \<and> extends b \<and> \<not> has_next b \<longrightarrow>
          fst (search_pages (Suc n) self cf page rp results response
                 \<lparr>server = map Responds rs @- s, trace = t\<rparr>) =
            Some (Inr (results @ page_results b)) \<and>
          server (snd (search_pages (Suc n) self cf page rp results response
                 \<lparr>server = map Responds rs @- s, trace = t\<rparr>)) = s)"
proof -
  from assms(1) obtain before r where rs: "rs = before @ [r]"
    by (cases rs rule: rev_cases) auto
  have pre: "list_all retryable (map Responds before)"
    "length (map Responds before) \<le> MAX_RETRIES self"
    "length (map Responds before) = MAX_RETRIES self \<or> \<not> retryable (Responds r)"
    using assms by (simp_all add: list_all_iff rs)
  have len: "length before = MAX_RETRIES self"
    using assms(1) by (simp add: rs)
  have one: "retrieve_metadata_for_content_filter self cf page rp
               \<lparr>server = map Responds rs @- s, trace = t\<rparr> =
             (response_json (last rs),
              attempts_world self (search_request self cf rp) (MAX_RETRIES self) s t)"
    using retrieve_attempts' [OF pre, of cf page rp s t]
    by (simp add: rs len)
  have all: "get_metadata_by_query fuel self cq
               \<lparr>server = map served sps @- map Responds rs @- s, trace = t\<rparr> =
             (Some (Inr (concat (map (\<lambda>sp. page_results (snd sp)) sps) @ page_results b)),
              attempts_world self
                (search_request self (content_filter cq)
                   (page_params search_defaults 1 (length sps)))
                (MAX_RETRIES self) s (t @ search_trace self cq (length sps)))"
    if *: "list_all (\<lambda>sp. fst sp < 400 \<and> extends (snd sp) \<and> has_next (snd sp)) sps"
      "length sps \<le> fuel" "body (last rs) = Some b" "extends b" "\<not> has_next b"
  proof -
    from *(3) have out: "outcome_result (Responds r) = Inr b"
      by (simp add: rs response_json_def)
    from gmq_last [OF *(1,2) pre out *(4,5), of cq s t] show ?thesis
      by (simp add: rs len)
  qed
  have loop: "search_pages (Suc n) self cf page rp results response
               \<lparr>server = map Responds rs @- s, trace = t\<rparr> =
             (Some (Inr (results @ page_results b)),
              attempts_world self (search_request self cf (dict_set rp ''page'' (JInt (page + 1))))
                (MAX_RETRIES self) s t)"
    if *: "has_next response" "body (last rs) = Some b" "extends b" "\<not> has_next b"
  proof -
    from *(2) have out: "outcome_result (Responds r) = Inr b"
      by (simp add: rs response_json_def)
    from search_pages_last [OF *(1) pre out *(3,4), of n cf page rp results s t] show ?thesis
      by (simp add: rs len)
  qed
  show ?thesis
  proof (intro conjI impI; (elim conjE)?)
    show "fst (retrieve_metadata_for_content_filter self cf page rp
                \<lparr>server = map Responds rs @- s, trace = t\<rparr>) = response_json (last rs)"
      by (simp add: one)
    show "response_json (last rs) = Inr b" if "body (last rs) = Some b"
      using that by (simp add: response_json_def)
    show "server (snd (retrieve_metadata_for_content_filter self cf page rp
                \<lparr>server = map Responds rs @- s, trace = t\<rparr>)) = s"
      by (simp add: one)
    show "requests_in (trace (snd (retrieve_metadata_for_content_filter self cf page rp
                \<lparr>server = map Responds rs @- s, trace = t\<rparr>))) =
           requests_in t @ replicate (MAX_RETRIES self + 1) (search_request self cf rp)"
      by (simp add: one)
    show "http_method (search_request self cf rp) = POST"
      by (simp add: search_request_def)
  next
    assume *: "list_all (\<lambda>sp. fst sp < 400 \<and> extends (snd sp) \<and> has_next (snd sp)) sps"
      "length sps \<le> fuel" "body (last rs) = Some b" "extends b" "\<not> has_next b"
    note g = all [OF *]
    show "fst (get_metadata_by_query fuel self cq
                 \<lparr>server = map served sps @- map Responds rs @- s, trace = t\<rparr>) =
            Some (Inr (concat (map (\<lambda>sp. page_results (snd sp)) sps) @ page_results b))"
      by (simp add: g)
    show "server (snd (get_metadata_by_query fuel self cq
                 \<lparr>server = map served sps @- map Responds rs @- s, trace = t\<rparr>)) = s"
      by (simp add: g)
    show "length (requests_in (trace (snd (get_metadata_by_query fuel self cq
                 \<lparr>server = map served sps @- map Responds rs @- s, trace = t\<rparr>)))) =
            length (requests_in t) + length sps + (MAX_RETRIES self + 1)"
      by (simp add: g)
  next
    assume *: "has_next response" "body (last rs) = Some b" "extends b" "\<not> has_next b"
    note l = loop [OF *]
    show "fst (search_pages (Suc n) self cf page rp results response
                 \<lparr>server = map Responds rs @- s, trace = t\<rparr>) =
            Some (Inr (results @ page_results b))"
      by (simp add: l)
    show "server (snd (search_pages (Suc n) self cf page rp results response
                 \<lparr>server = map Responds rs @- s, trace = t\<rparr>)) = s"
      by (simp add: l)
  qed
qed

theorem bad_status_exhaustion_witness:
  "fst (get_metadata_by_query 0 \<lparr>MAX_RETRIES = 4, BACKOFF_FACTOR = 0, HTTP_TIMEOUT = 15\<rparr>
          \<lparr>content_filter = JObj []\<rparr>
          \<lparr>server = map served [] @-
                map Responds (replicate 5 \<lparr>status_code = 400, body = Some (JObj [])\<rparr>) @-
                sconst (Raises (OtherException ''unused'')),
           trace = []\<rparr>) = Some (Inr []) \<and>
   length (requests_in (trace (snd (get_metadata_by_query 0
       \<lparr>MAX_RETRIES = 4, BACKOFF_FACTOR = 0, HTTP_TIMEOUT = 15\<rparr>
       \<lparr>content_filter = JObj []\<rparr>
       \<lparr>server = map served [] @-
                  map Responds (replicate 5 \<lparr>status_code = 400, body = Some (JObj [])\<rparr>) @-
                  sconst (Raises (OtherException ''unused'')),
        trace = []\<rparr>)))) = 5"
  using bad_status_exhaustion
    [where rs = "replicate 5 \<lparr>status_code = 400, body = Some (JObj [])\<rparr>"
       and self = "\<lparr>MAX_RETRIES = 4, BACKOFF_FACTOR = 0, HTTP_TIMEOUT = 15\<rparr>"
       and s = "sconst (Raises (OtherException ''unused''))" and t = "[]" and b = "JObj []"
       and sps = "[]" and fuel = 0 and cq = "\<lparr>content_filter = JObj []\<rparr>"]
  by (simp add: extends_def has_next_def page_results_def py_get_def list_all_iff)

subsection \<open>C6: a decode error is not retried\<close>

text \<open>
  C6. A decode error is not retried. After \<open>pre\<close>, the attempts for the current page that
  failed and were retried, let the decode error occur: the POST raises \<open>JSONDecodeError\<close>,
  or the loop ends on a response whose body does not decode (its status is below 400, or
  it answers the last attempt). Then \<open>get_metadata_by_query\<close> raises \<open>JSONDecodeError\<close>;
  the request that met the error is the last event of the trace, so nothing is slept and
  nothing is requested after it; the sleeps are those of the retries before, one for each
  attempt of \<open>pre\<close>. This is stated for the call as a whole, after the pages \<open>sps\<close> fetched
  with success, and for the loop in any state it can be in.
\<close>

theorem decode_error_not_retried:
  assumes "list_all (\<lambda>sp. fst sp < 400 \<and> extends (snd sp) \<and> has_next (snd sp)) sps"
    and "length sps \<le> fuel"
    and "list_all retryable pre"
    and "length pre \<le> MAX_RETRIES self"
    and "out = Raises JSONDecodeError \<or>
         (\<exists>r. out = Responds r \<and> body r = None \<and>
              (status_code r < 400 \<or> length pre = MAX_RETRIES self))"
  shows "fst (get_metadata_by_query fuel self cq
                \<lparr>server = map served sps @- pre @- out ## s, trace = t\<rparr>) =
           Some (Inl JSONDecodeError) \<and>
         server (snd (get_metadata_by_query fuel self cq
                \<lparr>server = map served sps @- pre @- out ## s, trace = t\<rparr>)) = s \<and>
         (\<exists>rq. last (trace (snd (get_metadata_by_query fuel self cq
                \<lparr>server = map served sps @- pre @- out ## s, trace = t\<rparr>))) = Request rq) \<and>
         length (requests_in (trace (snd (get_metadata_by_query fuel self cq
                \<lparr>server = map served sps @- pre @- out ## s, trace = t\<rparr>)))) =
           length (requests_in t) + length sps + length pre + 1 \<and>
         sleeps_in (trace (snd (get_metadata_by_query fuel self cq
                \<lparr>server = map served sps @- pre @- out ## s, trace = t\<rparr>))) =
           sleeps_in t @ map (\<lambda>k. BACKOFF_FACTOR self * 2 ^ (k - 1)) [1..<Suc (length pre)] \<and>
         (has_next response \<longrightarrow>
          fst (search_pages (Suc n) self cf page rp results response
                 \<lparr>server = pre @- out ## s, trace = t\<rparr>) = Some (Inl JSONDecodeError) \<and>
          server (snd (search_pages (Suc n) self cf page rp results response
                 \<lparr>server = pre @- out ## s, trace = t\<rparr>)) = s \<and>
          (\<exists>rq. last (trace (snd (search_pages (Suc n) self cf page rp results response
                 \<lparr>server = pre @- out ## s, trace = t\<rparr>))) = Request rq) \<and>
          sleeps_in (trace (snd (search_pages (Suc n) self cf page rp results response
                 \<lparr>server = pre @- out ## s, trace = t\<rparr>))) =
            sleeps_in t @ map (\<lambda>k. BACKOFF_FACTOR self * 2 ^ (k - 1)) [1..<Suc (length pre)])"
proof -
  from assms(5) have stop: "length pre = MAX_RETRIES self \<or> \<not> retryable out"
    by auto
  from assms(5) have out: "outcome_result out = Inl JSONDecodeError"
    by (auto simp: response_json_def)
  note g = gmq_fail [OF assms(1,2,3,4) stop out, of cq s t]
  have "search_pages (Suc n) self cf page rp results response
          \<lparr>server = pre @- out ## s, trace = t\<rparr> =
        (Some (Inl JSONDecodeError),
         attempts_world self (search_request self cf (dict_set rp ''page'' (JInt (page + 1))))
           (length pre) s t)"
    if "has_next response"
    by (rule search_pages_raise [OF that assms(3,4) stop out])
  then show ?thesis
    by (simp add: g)
qed

theorem decode_error_not_retried_witness:
  "fst (get_metadata_by_query 0 \<lparr>MAX_RETRIES = 4, BACKOFF_FACTOR = 2, HTTP_TIMEOUT = 15\<rparr>
          \<lparr>content_filter = JObj []\<rparr>
          \<lparr>server = map served [] @- [] @- Raises JSONDecodeError ##
                     sconst (Raises (OtherException ''unused'')),
           trace = []\<rparr>) = Some (Inl JSONDecodeError) \<and>
   length (requests_in (trace (snd (get_metadata_by_query 0
          \<lparr>MAX_RETRIES = 4, BACKOFF_FACTOR = 2, HTTP_TIMEOUT = 15\<rparr>
          \<lparr>content_filter = JObj []\<rparr>
          \<lparr>server = map served [] @- [] @- Raises JSONDecodeError ##
                     sconst (Raises (OtherException ''unused'')),
           trace = []\<rparr>)))) = 1 \<and>
   sleeps_in (trace (snd (get_metadata_by_query 0
          \<lparr>MAX_RETRIES = 4, BACKOFF_FACTOR = 2, HTTP_TIMEOUT = 15\<rparr>
          \<lparr>content_filter = JObj []\<rparr>
          \<lparr>server = map served [] @- [] @- Raises JSONDecodeError ##
                     sconst (Raises (OtherException ''unused'')),
           trace = []\<rparr>))) = [] \<and>
   fst (get_metadata_by_query 0 \<lparr>MAX_RETRIES = 4, BACKOFF_FACTOR = 2, HTTP_TIMEOUT = 15\<rparr>
          \<lparr>content_filter = JObj []\<rparr>
          \<lparr>server = map served [] @- [Responds \<lparr>status_code = 500, body = None\<rparr>] @-
                     Responds \<lparr>status_code = 200, body = None\<rparr> ##
                     sconst (Raises (OtherException ''unused'')),
           trace = []\<rparr>) = Some (Inl JSONDecodeError) \<and>
   length (requests_in (trace (snd (get_metadata_by_query 0
          \<lparr>MAX_RETRIES = 4, BACKOFF_FACTOR = 2, HTTP_TIMEOUT = 15\<rparr>
          \<lparr>content_filter = JObj []\<rparr>
          \<lparr>server = map served [] @- [Responds \<lparr>status_code = 500, body = None\<rparr>] @-
                     Responds \<lparr>status_code = 200, body = None\<rparr> ##
                     sconst (Raises (OtherException ''unused'')),
           trace = []\<rparr>)))) = 2 \<and>
   sleeps_in (trace (snd (get_metadata_by_query 0
          \<lparr>MAX_RETRIES = 4, BACKOFF_FACTOR = 2, HTTP_TIMEOUT = 15\<rparr>
          \<lparr>content_filter = JObj []\<rparr>
          \<lparr>server = map served [] @- [Responds \<lparr>status_code = 500, body = None\<rparr>] @-
                     Responds \<lparr>status_code = 200, body = None\<rparr> ##
                     sconst (Raises (OtherException ''unused'')),
           trace = []\<rparr>))) = [2]"
  using decode_error_not_retried
    [where sps = "[]" and fuel = 0 and pre = "[]" and out = "Raises JSONDecodeError"
       and self = "\<lparr>MAX_RETRIES = 4, BACKOFF_FACTOR = 2, HTTP_TIMEOUT = 15\<rparr>"
       and cq = "\<lparr>content_filter = JObj []\<rparr>" and t = "[]"
       and s = "sconst (Raises (OtherException ''unused''))"]
    decode_error_not_retried
    [where sps = "[]" and fuel = 0 and pre = "[Responds \<lparr>status_code = 500, body = None\<rparr>]"
       and out = "Responds \<lparr>status_code = 200, body = None\<rparr>"
       and self = "\<lparr>MAX_RETRIES = 4, BACKOFF_FACTOR = 2, HTTP_TIMEOUT = 15\<rparr>"
       and cq = "\<lparr>content_filter = JObj []\<rparr>" and t = "[]"
       and s = "sconst (Raises (OtherException ''unused''))"]
  by simp

subsection \<open>C7: the query parameters of the requests\<close>

text \<open>
  C7. The query parameters of every request, exactly.
  \<^medskip>
  \<open>get_metadata_by_query\<close> always sends a first request, and it carries the four fixed
  parameters and nothing else; every later request carries the same four, or the same
  four and \<open>page\<close>. The operation takes no query parameters from its caller, so nothing
  overrides them.
  \<^medskip>
  \<open>get_courses\<close> always sends a first request, whose parameters are the defaults
  \<open>ordering = 'key'\<close> and \<open>limit = DISCOVERY_OFFSET_SIZE\<close> updated with the caller's
  \<open>query_params\<close>; the \<open>k\<close>-th request after it carries the same parameters with \<open>offset\<close>
  set to \<open>k * DISCOVERY_OFFSET_SIZE\<close>, and there is no other request. \<open>get_programs\<close> does
  the same from the defaults \<open>ordering\<close>, \<open>limit\<close> and \<open>extended = 'True'\<close>. Updating with the
  caller's parameters overrides and extends: each key of the caller has the caller's
  value, each other key its default (a Python dict holds a key once, hence \<open>distinct\<close>).
  Setting \<open>offset\<close> changes that one key, so on every request every key but \<open>offset\<close> has
  the caller's value or else the default, and \<open>offset\<close> is the caller's on the first request
  and the traversal's afterwards.
\<close>

theorem fixed_request_parameters:
  "(\<exists>es. trace (snd (get_metadata_by_query fuel self cq w)) =
           trace w @
           Request (search_request self (content_filter cq)
               [(''exclude_expired_course_run'', JBool True), (''page_size'', JInt 100),
                (''ordering'', JStr ''aggregation_key,start''),
                (''include_learner_pathways'', JBool True)]) # es \<and>
      (\<forall>rq. Request rq \<in> set es \<longrightarrow>
         rq = search_request self (content_filter cq)
               [(''exclude_expired_course_run'', JBool True), (''page_size'', JInt 100),
                (''ordering'', JStr ''aggregation_key,start''),
                (''include_learner_pathways'', JBool True)] \<or>
         (\<exists>k. rq = search_request self (content_filter cq)
               [(''exclude_expired_course_run'', JBool True), (''page_size'', JInt 100),
                (''ordering'', JStr ''aggregation_key,start''),
                (''include_learner_pathways'', JBool True), (''page'', JInt k)]))) \<and>
   (\<exists>n\<le>fuel. trace (snd (get_courses fuel self sz qp w)) =
      trace w @
      map (\<lambda>k. Request (list_request DISCOVERY_COURSES_ENDPOINT self
             (if k = 0
              then dict_update [(''ordering'', JStr ''key''), (''limit'', JInt sz)] (or_empty qp)
              else dict_set
                     (dict_update [(''ordering'', JStr ''key''), (''limit'', JInt sz)]
                        (or_empty qp))
                     ''offset'' (JInt (int k * sz)))))
        [0..<Suc n]) \<and>
   (\<exists>n\<le>fuel. trace (snd (get_programs fuel self sz qp w)) =
      trace w @
      map (\<lambda>k. Request (list_request DISCOVERY_PROGRAMS_ENDPOINT self
             (if k = 0
              then dict_update [(''ordering'', JStr ''key''), (''limit'', JInt sz),
                                (''extended'', JStr ''True'')] (or_empty qp)
              else dict_set
                     (dict_update [(''ordering'', JStr ''key''), (''limit'', JInt sz),
                                   (''extended'', JStr ''True'')] (or_empty qp))
                     ''offset'' (JInt (int k * sz)))))
        [0..<Suc n]) \<and>
   (distinct (map fst (or_empty qp)) \<longrightarrow>
      map_of (dict_update [(''ordering'', JStr ''key''), (''limit'', JInt sz)] (or_empty qp)) =
        map_of [(''ordering'', JStr ''key''), (''limit'', JInt sz)] ++ map_of (or_empty qp) \<and>
      map_of (dict_update [(''ordering'', JStr ''key''), (''limit'', JInt sz),
                           (''extended'', JStr ''True'')] (or_empty qp)) =
        map_of [(''ordering'', JStr ''key''), (''limit'', JInt sz),
                (''extended'', JStr ''True'')] ++ map_of (or_empty qp)) \<and>
   map_of (dict_set (dict_update [(''ordering'', JStr ''key''), (''limit'', JInt sz)]
                       (or_empty qp)) ''offset'' v) =
     (map_of (dict_update [(''ordering'', JStr ''key''), (''limit'', JInt sz)] (or_empty qp)))
       (''offset'' \<mapsto> v) \<and>
   map_of (dict_set (dict_update [(''ordering'', JStr ''key''), (''limit'', JInt sz),
                                  (''extended'', JStr ''True'')] (or_empty qp)) ''offset'' v) =
     (map_of (dict_update [(''ordering'', JStr ''key''), (''limit'', JInt sz),
                           (''extended'', JStr ''True'')] (or_empty qp)))
       (''offset'' \<mapsto> v)"
proof (intro conjI impI)
  show "\<exists>es. trace (snd (get_metadata_by_query fuel self cq w)) =
           trace w @
           Request (search_request self (content_filter cq)
               [(''exclude_expired_course_run'', JBool True), (''page_size'', JInt 100),
                (''ordering'', JStr ''aggregation_key,start''),
                (''include_learner_pathways'', JBool True)]) # es \<and>
      (\<forall>rq. Request rq \<in> set es \<longrightarrow>
         rq = search_request self (content_filter cq)
               [(''exclude_expired_course_run'', JBool True), (''page_size'', JInt 100),
                (''ordering'', JStr ''aggregation_key,start''),
                (''include_learner_pathways'', JBool True)] \<or>
         (\<exists>k. rq = search_request self (content_filter cq)
               [(''exclude_expired_course_run'', JBool True), (''page_size'', JInt 100),
                (''ordering'', JStr ''aggregation_key,start''),
                (''include_learner_pathways'', JBool True), (''page'', JInt k)]))"
    using gmq_trace_first [of fuel self cq w] by (simp add: search_defaults_def)
  show "\<exists>n\<le>fuel. trace (snd (get_courses fuel self sz qp w)) =
      trace w @
      map (\<lambda>k. Request (list_request DISCOVERY_COURSES_ENDPOINT self
             (if k = 0
              then dict_update [(''ordering'', JStr ''key''), (''limit'', JInt sz)] (or_empty qp)
              else dict_set
                     (dict_update [(''ordering'', JStr ''key''), (''limit'', JInt sz)]
                        (or_empty qp))
                     ''offset'' (JInt (int k * sz)))))
        [0..<Suc n]"
    unfolding get_courses_trace by (rule list_try_requests)
  show "\<exists>n\<le>fuel. trace (snd (get_programs fuel self sz qp w)) =
      trace w @
      map (\<lambda>k. Request (list_request DISCOVERY_PROGRAMS_ENDPOINT self
             (if k = 0
              then dict_update [(''ordering'', JStr ''key''), (''limit'', JInt sz),
                                (''extended'', JStr ''True'')] (or_empty qp)
              else dict_set
                     (dict_update [(''ordering'', JStr ''key''), (''limit'', JInt sz),
                                   (''extended'', JStr ''True'')] (or_empty qp))
                     ''offset'' (JInt (int k * sz)))))
        [0..<Suc n]"
    unfolding get_programs_trace by (rule list_try_requests)
next
  assume d: "distinct (map fst (or_empty qp))"
  show "map_of (dict_update [(''ordering'', JStr ''key''), (''limit'', JInt sz)] (or_empty qp)) =
        map_of [(''ordering'', JStr ''key''), (''limit'', JInt sz)] ++ map_of (or_empty qp)"
    by (rule map_of_dict_update [OF d])
  show "map_of (dict_update [(''ordering'', JStr ''key''), (''limit'', JInt sz),
                           (''extended'', JStr ''True'')] (or_empty qp)) =
        map_of [(''ordering'', JStr ''key''), (''limit'', JInt sz),
                (''extended'', JStr ''True'')] ++ map_of (or_empty qp)"
    by (rule map_of_dict_update [OF d])
next
  show "map_of (dict_set (dict_update [(''ordering'', JStr ''key''), (''limit'', JInt sz)]
                       (or_empty qp)) ''offset'' v) =
     (map_of (dict_update [(''ordering'', JStr ''key''), (''limit'', JInt sz)] (or_empty qp)))
       (''offset'' \<mapsto> v)"
    by (rule map_of_dict_set)
  show "map_of (dict_set (dict_update [(''ordering'', JStr ''key''), (''limit'', JInt sz),
                                  (''extended'', JStr ''True'')] (or_empty qp)) ''offset'' v) =
     (map_of (dict_update [(''ordering'', JStr ''key''), (''limit'', JInt sz),
                           (''extended'', JStr ''True'')] (or_empty qp)))
       (''offset'' \<mapsto> v)"
    by (rule map_of_dict_set)
qed

theorem fixed_request_parameters_witness:
  "trace (snd (get_courses 1 \<lparr>MAX_RETRIES = 4, BACKOFF_FACTOR = 2, HTTP_TIMEOUT = 15\<rparr> 100
      (Some [(''ordering'', JStr ''title''), (''page_size'', JInt 5)])
      \<lparr>server = served (200, JObj [(''results'', JArr [JStr ''a'']), (''next'', JStr ''p2'')]) ##
                 served (200, JObj [(''results'', JArr [JStr ''b''])]) ##
                 sconst (Raises (OtherException ''unused'')),
       trace = []\<rparr>)) =
   [Request \<lparr>http_method = GET, url = DISCOVERY_COURSES_ENDPOINT, json_payload = None,
             params = [(''ordering'', JStr ''title''), (''limit'', JInt 100),
                       (''page_size'', JInt 5)],
             timeout = 15\<rparr>,
    Request \<lparr>http_method = GET, url = DISCOVERY_COURSES_ENDPOINT, json_payload = None,
             params = [(''ordering'', JStr ''title''), (''limit'', JInt 100),
                       (''page_size'', JInt 5), (''offset'', JInt 100)],
             timeout = 15\<rparr>] \<and>
   trace (snd (get_programs 1 \<lparr>MAX_RETRIES = 4, BACKOFF_FACTOR = 2, HTTP_TIMEOUT = 15\<rparr> 100 None
      \<lparr>server = served (200, JObj [(''results'', JArr [JStr ''a'']), (''next'', JStr ''p2'')]) ##
                 served (200, JObj [(''results'', JArr [JStr ''b''])]) ##
                 sconst (Raises (OtherException ''unused'')),
       trace = []\<rparr>)) =
   [Request \<lparr>http_method = GET, url = DISCOVERY_PROGRAMS_ENDPOINT, json_payload = None,
             params = [(''ordering'', JStr ''key''), (''limit'', JInt 100),
                       (''extended'', JStr ''True'')],
             timeout = 15\<rparr>,
    Request \<lparr>http_method = GET, url = DISCOVERY_PROGRAMS_ENDPOINT, json_payload = None,
             params = [(''ordering'', JStr ''key''), (''limit'', JInt 100),
                       (''extended'', JStr ''True''), (''offset'', JInt 100)],
             timeout = 15\<rparr>] \<and>
   trace (snd (get_metadata_by_query 1 \<lparr>MAX_RETRIES = 4, BACKOFF_FACTOR = 2, HTTP_TIMEOUT = 15\<rparr>
      \<lparr>content_filter = JObj [(''page_size'', JInt 5)]\<rparr>
      \<lparr>server = served (200, JObj [(''results'', JArr [JStr ''a'']), (''next'', JStr ''p2'')]) ##
                 served (200, JObj [(''results'', JArr [JStr ''b''])]) ##
                 sconst (Raises (OtherException ''unused'')),
       trace = []\<rparr>)) =
   [Request \<lparr>http_method = POST, url = DISCOVERY_SEARCH_ALL_ENDPOINT,
             json_payload = Some (JObj [(''page_size'', JInt 5)]),
             params = [(''exclude_expired_course_run'', JBool True), (''page_size'', JInt 100),
                       (''ordering'', JStr ''aggregation_key,start''),
                       (''include_learner_pathways'', JBool True)],
             timeout = 15\<rparr>,
    Request \<lparr>http_method = POST, url = DISCOVERY_SEARCH_ALL_ENDPOINT,
             json_payload = Some (JObj [(''page_size'', JInt 5)]),
             params = [(''exclude_expired_course_run'', JBool True), (''page_size'', JInt 100),
                       (''ordering'', JStr ''aggregation_key,start''),
                       (''include_learner_pathways'', JBool True), (''page'', JInt 2)],
             timeout = 15\<rparr>]"
  using fixed_request_parameters
    [where fuel = 1 and sz = 100
       and self = "\<lparr>MAX_RETRIES = 4, BACKOFF_FACTOR = 2, HTTP_TIMEOUT = 15\<rparr>"
       and cq = "\<lparr>content_filter = JObj [(''page_size'', JInt 5)]\<rparr>"
       and qp = "Some [(''ordering'', JStr ''title''), (''page_size'', JInt 5)]"
       and w = "\<lparr>server = served (200, JObj [(''results'', JArr [JStr ''a'']), (''next'', JStr ''p2'')]) ##
                 served (200, JObj [(''results'', JArr [JStr ''b''])]) ##
                 sconst (Raises (OtherException ''unused'')),
       trace = []\<rparr>"]
  by (simp add: get_courses_def get_programs_def get_metadata_by_query_def list_try_def
      retrieve_list_def retrieve_metadata_for_content_filter_def retry_loop.simps [of _ _ _ 0]
      search_pages_0 search_pages_Suc list_pages_0 list_pages_Suc
      send_def served_def response_json_def py_get_def or_empty_def list_request_def
      search_request_def Let_def)

subsection \<open>C8: the offsets of the list traversal\<close>

text \<open>
  C8, as the code has it. The traversal of \<open>get_courses\<close> and \<open>get_programs\<close> sends
  \<open>offset = k * DISCOVERY_OFFSET_SIZE\<close> on the \<open>k\<close>-th request after the first, for
  \<open>k = 1, 2, ...\<close>: the offset starts at 0 and advances by the constant on each iteration,
  and there is one iteration for each page whose predecessor has a truthy \<open>next\<close>. The
  first request carries the \<open>offset\<close> of the caller's \<open>query_params\<close>, that is, none when
  the caller gives none. (\<open>offsets_sent\<close> lists the \<open>offset\<close> parameter of each request of
  a trace, \<open>None\<close> for a request without one.)
\<close>

theorem offset_traversal:
  assumes "distinct (map fst (or_empty qp))"
  shows "(\<exists>n\<le>fuel. \<exists>es. trace (snd (get_courses fuel self sz qp w)) = trace w @ es \<and>
            offsets_sent es =
              map_of (or_empty qp) ''offset'' # map (\<lambda>k. Some (JInt (int k * sz))) [1..<Suc n]) \<and>
         (\<exists>n\<le>fuel. \<exists>es. trace (snd (get_programs fuel self sz qp w)) = trace w @ es \<and>
            offsets_sent es =
              map_of (or_empty qp) ''offset'' # map (\<lambda>k. Some (JInt (int k * sz))) [1..<Suc n]) \<and>
         (sps \<noteq> [] \<and> list_all (\<lambda>sp. has_results (snd sp)) sps \<and>
          list_all has_next (butlast (map snd sps)) \<and> \<not> has_next (snd (last sps)) \<and>
          length sps \<le> Suc fuel \<longrightarrow>
          (\<exists>es. trace (snd (get_courses fuel self sz qp
                              \<lparr>server = map served sps @- s, trace = t\<rparr>)) = t @ es \<and>
             offsets_sent es =
               map_of (or_empty qp) ''offset'' #
               map (\<lambda>k. Some (JInt (int k * sz))) [1..<length sps]) \<and>
          (\<exists>es. trace (snd (get_programs fuel self sz qp
                              \<lparr>server = map served sps @- s, trace = t\<rparr>)) = t @ es \<and>
             offsets_sent es =
               map_of (or_empty qp) ''offset'' #
               map (\<lambda>k. Some (JInt (int k * sz))) [1..<length sps]))"
proof -
  have c: "map_of (dict_update [(''ordering'', JStr ''key''), (''limit'', JInt sz)] (or_empty qp))
             ''offset'' = map_of (or_empty qp) ''offset''"
    by (rule map_of_defaults_offset [OF assms]) simp
  have p: "map_of (dict_update [(''ordering'', JStr ''key''), (''limit'', JInt sz),
                                (''extended'', JStr ''True'')] (or_empty qp))
             ''offset'' = map_of (or_empty qp) ''offset''"
    by (rule map_of_defaults_offset [OF assms]) simp
  show ?thesis
  proof (intro conjI impI; (elim conjE)?)
    show "\<exists>n\<le>fuel. \<exists>es. trace (snd (get_courses fuel self sz qp w)) = trace w @ es \<and>
            offsets_sent es =
              map_of (or_empty qp) ''offset'' # map (\<lambda>k. Some (JInt (int k * sz))) [1..<Suc n]"
      unfolding get_courses_trace c [symmetric] by (rule list_try_offsets)
    show "\<exists>n\<le>fuel. \<exists>es. trace (snd (get_programs fuel self sz qp w)) = trace w @ es \<and>
            offsets_sent es =
              map_of (or_empty qp) ''offset'' # map (\<lambda>k. Some (JInt (int k * sz))) [1..<Suc n]"
      unfolding get_programs_trace p [symmetric] by (rule list_try_offsets)
  next
    assume *: "sps \<noteq> []" "list_all (\<lambda>sp. has_results (snd sp)) sps"
      "list_all has_next (butlast (map snd sps))" "\<not> has_next (snd (last sps))"
      "length sps \<le> Suc fuel"
    show "\<exists>es. trace (snd (get_courses fuel self sz qp
                              \<lparr>server = map served sps @- s, trace = t\<rparr>)) = t @ es \<and>
             offsets_sent es =
               map_of (or_empty qp) ''offset'' #
               map (\<lambda>k. Some (JInt (int k * sz))) [1..<length sps]"
      unfolding get_courses_trace c [symmetric] by (rule list_try_offsets_pages [OF *])
    show "\<exists>es. trace (snd (get_programs fuel self sz qp
                              \<lparr>server = map served sps @- s, trace = t\<rparr>)) = t @ es \<and>
             offsets_sent es =
               map_of (or_empty qp) ''offset'' #
               map (\<lambda>k. Some (JInt (int k * sz))) [1..<length sps]"
      unfolding get_programs_trace p [symmetric] by (rule list_try_offsets_pages [OF *])
  qed
qed

theorem offset_traversal_witness:
  "offsets_sent (trace (snd (get_courses 2
      \<lparr>MAX_RETRIES = 4, BACKOFF_FACTOR = 2, HTTP_TIMEOUT = 15\<rparr> 100 None
      \<lparr>server =
         map served
           [(200, JObj [(''results'', JArr [JStr ''a'']), (''next'', JStr ''p2'')]),
            (200, JObj [(''results'', JArr [JStr ''b'']), (''next'', JStr ''p3'')]),
            (200, JObj [(''results'', JArr [JStr ''c''])])] @-
         sconst (Raises (OtherException ''unused'')),
       trace = []\<rparr>))) =
   [None, Some (JInt 100), Some (JInt 200)] \<and>
   offsets_sent (trace (snd (get_programs 2
      \<lparr>MAX_RETRIES = 4, BACKOFF_FACTOR = 2, HTTP_TIMEOUT = 15\<rparr> 100 None
      \<lparr>server =
         map served
           [(200, JObj [(''results'', JArr [JStr ''a'']), (''next'', JStr ''p2'')]),
            (200, JObj [(''results'', JArr [JStr ''b'']), (''next'', JStr ''p3'')]),
            (200, JObj [(''results'', JArr [JStr ''c''])])] @-
         sconst (Raises (OtherException ''unused'')),
       trace = []\<rparr>))) =
   [None, Some (JInt 100), Some (JInt 200)]"
  using offset_traversal
    [where qp = None and fuel = 2 and sz = 100 and t = "[]"
       and self = "\<lparr>MAX_RETRIES = 4, BACKOFF_FACTOR = 2, HTTP_TIMEOUT = 15\<rparr>"
       and s = "sconst (Raises (OtherException ''unused''))"
       and sps = "[(200, JObj [(''results'', JArr [JStr ''a'']), (''next'', JStr ''p2'')]),
                   (200, JObj [(''results'', JArr [JStr ''b'']), (''next'', JStr ''p3'')]),
                   (200, JObj [(''results'', JArr [JStr ''c''])])]"]
  by (simp add: has_results_def has_next_def py_get_def or_empty_def)

text \<open>
  C8 as the specification has it, with a first request that carries no \<open>offset\<close>, fails for a
  caller that supplies one: \<^verbatim>\<open>get_courses({'offset': 5})\<close> sends it on the first request.
\<close>

theorem first_request_offset_counterexample:
  "trace (snd (get_courses 0 \<lparr>MAX_RETRIES = 4, BACKOFF_FACTOR = 2, HTTP_TIMEOUT = 15\<rparr> 200
                 (Some [(''offset'', JInt 5)])
                 \<lparr>server = sconst (served (200, JObj [(''results'', JArr [])])),
                  trace = []\<rparr>)) =
   [Request \<lparr>http_method = GET, url = DISCOVERY_COURSES_ENDPOINT, json_payload = None,
             params = [(''ordering'', JStr ''key''), (''limit'', JInt 200),
                       (''offset'', JInt 5)],
             timeout = 15\<rparr>]"
  by (simp add: get_courses_def list_try_def retrieve_list_def list_pages_0
      send_def served_def response_json_def py_get_def or_empty_def list_request_def Let_def)

subsection \<open>C9: a call works on its own objects, and a repeated call returns the same list\<close>

text \<open>
  C9. Two calls of the same operation with the same arguments and against the same
  sequence of server responses, the second made once the first has returned (in the store
  \<open>hb\<close>: the store \<open>h1\<close> that the first call left, with whatever objects were created since),
  return lists with the same elements, or raise the same exception, or both are still
  running as the fuel ends.
  \<^medskip>
  Each call works on objects of its own. A call creates one dict, its request parameters,
  and one list, its accumulator; the list it returns is that new list; and every object
  that was there before the call (the client, the catalog queries, the dict the caller
  passed as \<open>query_params\<close>, the lists that earlier calls returned) is the same after it.
  So the list that the first call returned is not changed by the second. The attempt
  counter is a local variable that the retry helper sets to 0 each time it is called: the
  second call adds to the trace the requests and the sleeps that the first call added, and
  consumes the same responses.
  \<^medskip>
  The result and the world of a call in a store are those of the operation on values,
  \<open>fetch\<close>, about which the other claims are stated.
\<close>

theorem calls_share_no_state:
  assumes "args_allocated h c"
    and "st_fetch fuel self c (h, w) = (r1, (h1, w1))"
    and "preserved h1 hb"
    and "server w' = server w"
    and "st_fetch fuel self c (hb, w') = (r2, (h2, w2))"
  shows "returned h2 r2 = returned h1 r1 \<and>
         returned h2 r1 = returned h1 r1 \<and>
         returned h1 r1 = fst (fetch fuel h self c w) \<and>
         w1 = snd (fetch fuel h self c w) \<and>
         events_since w' w2 = events_since w w1 \<and>
         server w2 = server w1 \<and>
         preserved h h1 \<and> preserved hb h2 \<and>
         length (dict_objs h1) = Suc (length (dict_objs h)) \<and>
         length (list_objs h1) = Suc (length (list_objs h)) \<and>
         length (dict_objs h2) = Suc (length (dict_objs hb)) \<and>
         length (list_objs h2) = Suc (length (list_objs hb)) \<and>
         (\<forall>a. r1 = Some (Inr a) \<longrightarrow> a = length (list_objs h)) \<and>
         (\<forall>a. r2 = Some (Inr a) \<longrightarrow> a = length (list_objs hb))"
proof -
  note one = st_fetch_facts [OF assms(1,2)]
  have hb: "preserved h hb"
    by (rule preserved_trans [OF one(3) assms(3)])
  note two = st_fetch_facts [OF args_allocated_mono [OF hb assms(1)] assms(5)]
  have same: "fetch fuel hb self c w' = fetch fuel h self c w'"
    by (rule fetch_preserved [OF hb assms(1)])
  note srv = fetch_same_server [OF assms(4), of fuel h self c]
  have "returned h2 r2 = returned h1 r1"
    by (simp add: one(1) two(1) same srv(1))
  moreover have "returned h2 r1 = returned h1 r1"
  proof (cases r1)
    case None
    then show ?thesis by (simp add: returned_def)
  next
    case (Some x)
    show ?thesis
    proof (cases x)
      case (Inl exc)
      with Some show ?thesis by (simp add: returned_def)
    next
      case (Inr a)
      with Some one(6) have "a < length (list_objs h1)"
        by (simp add: one(5))
      from preserved_list [OF preserved_trans [OF assms(3) two(3)] this] Some Inr
      show ?thesis by (simp add: returned_def)
    qed
  qed
  moreover have "events_since w' w2 = events_since w w1" "server w2 = server w1"
    by (simp_all add: one(2) two(2) same srv(2,3))
  ultimately show ?thesis
    using one two by simp
qed

theorem calls_share_no_state_witness:
  "st_fetch 1 0 (Courses_call 100 (Some 0))
     (\<lparr>client_objs = [\<lparr>MAX_RETRIES = 4, BACKOFF_FACTOR = 2, HTTP_TIMEOUT = 15\<rparr>],
       query_objs = [\<lparr>content_filter = JObj [(''content_type'', JStr ''course'')]\<rparr>],
       dict_objs = [[(''ordering'', JStr ''title'')]],
       list_objs = []\<rparr>,
      \<lparr>server = served (200, JObj [(''results'', JArr [JStr ''a'']), (''next'', JStr ''p2'')]) ##
                 served (200, JObj [(''results'', JArr [JStr ''b''])]) ##
                 sconst (Raises (OtherException ''unused'')),
        trace = []\<rparr>) =
   (Some (Inr 0),
    \<lparr>client_objs = [\<lparr>MAX_RETRIES = 4, BACKOFF_FACTOR = 2, HTTP_TIMEOUT = 15\<rparr>],
      query_objs = [\<lparr>content_filter = JObj [(''content_type'', JStr ''course'')]\<rparr>],
      dict_objs = [[(''ordering'', JStr ''title'')],
                   [(''ordering'', JStr ''title''), (''limit'', JInt 100), (''offset'', JInt 100)]],
      list_objs = [[JStr ''a'', JStr ''b'']]\<rparr>,
    \<lparr>server = sconst (Raises (OtherException ''unused'')),
      trace = [Request \<lparr>http_method = GET, url = DISCOVERY_COURSES_ENDPOINT, json_payload = None,
                         params = [(''ordering'', JStr ''title''), (''limit'', JInt 100)],
                         timeout = 15\<rparr>,
               Request \<lparr>http_method = GET, url = DISCOVERY_COURSES_ENDPOINT, json_payload = None,
                         params = [(''ordering'', JStr ''title''), (''limit'', JInt 100), (''offset'', JInt 100)],
                         timeout = 15\<rparr>]\<rparr>) \<and>
   st_fetch 1 0 (Courses_call 100 (Some 0))
     (\<lparr>client_objs = [\<lparr>MAX_RETRIES = 4, BACKOFF_FACTOR = 2, HTTP_TIMEOUT = 15\<rparr>],
       query_objs = [\<lparr>content_filter = JObj [(''content_type'', JStr ''course'')]\<rparr>],
       dict_objs = [[(''ordering'', JStr ''title'')],
                    [(''ordering'', JStr ''title''), (''limit'', JInt 100), (''offset'', JInt 100)]],
       list_objs = [[JStr ''a'', JStr ''b'']]\<rparr>,
      \<lparr>server = served (200, JObj [(''results'', JArr [JStr ''a'']), (''next'', JStr ''p2'')]) ##
                 served (200, JObj [(''results'', JArr [JStr ''b''])]) ##
                 sconst (Raises (OtherException ''unused'')),
        trace = [Request \<lparr>http_method = GET, url = DISCOVERY_COURSES_ENDPOINT, json_payload = None,
                           params = [(''ordering'', JStr ''title''), (''limit'', JInt 100)],
                           timeout = 15\<rparr>,
                 Request \<lparr>http_method = GET, url = DISCOVERY_COURSES_ENDPOINT, json_payload = None,
                           params = [(''ordering'', JStr ''title''), (''limit'', JInt 100), (''offset'', JInt 100)],
                           timeout = 15\<rparr>]\<rparr>) =
   (Some (Inr 1),
    \<lparr>client_objs = [\<lparr>MAX_RETRIES = 4, BACKOFF_FACTOR = 2, HTTP_TIMEOUT = 15\<rparr>],
      query_objs = [\<lparr>content_filter = JObj [(''content_type'', JStr ''course'')]\<rparr>],
      dict_objs = [[(''ordering'', JStr ''title'')],
                   [(''ordering'', JStr ''title''), (''limit'', JInt 100), (''offset'', JInt 100)],
                   [(''ordering'', JStr ''title''), (''limit'', JInt 100), (''offset'', JInt 100)]],
      list_objs = [[JStr ''a'', JStr ''b''], [JStr ''a'', JStr ''b'']]\<rparr>,
    \<lparr>server = sconst (Raises (OtherException ''unused'')),
      trace = [Request \<lparr>http_method = GET, url = DISCOVERY_COURSES_ENDPOINT, json_payload = None,
                         params = [(''ordering'', JStr ''title''), (''limit'', JInt 100)],
                         timeout = 15\<rparr>,
               Request \<lparr>http_method = GET, url = DISCOVERY_COURSES_ENDPOINT, json_payload = None,
                         params = [(''ordering'', JStr ''title''), (''limit'', JInt 100), (''offset'', JInt 100)],
                         timeout = 15\<rparr>,
               Request \<lparr>http_method = GET, url = DISCOVERY_COURSES_ENDPOINT, json_payload = None,
                         params = [(''ordering'', JStr ''title''), (''limit'', JInt 100)],
                         timeout = 15\<rparr>,
               Request \<lparr>http_method = GET, url = DISCOVERY_COURSES_ENDPOINT, json_payload = None,
                         params = [(''ordering'', JStr ''title''), (''limit'', JInt 100), (''offset'', JInt 100)],
                         timeout = 15\<rparr>]\<rparr>) \<and>
   returned
     (\<lparr>client_objs = [\<lparr>MAX_RETRIES = 4, BACKOFF_FACTOR = 2, HTTP_TIMEOUT = 15\<rparr>],
       query_objs = [\<lparr>content_filter = JObj [(''content_type'', JStr ''course'')]\<rparr>],
       dict_objs = [[(''ordering'', JStr ''title'')],
                    [(''ordering'', JStr ''title''), (''limit'', JInt 100), (''offset'', JInt 100)],
                    [(''ordering'', JStr ''title''), (''limit'', JInt 100), (''offset'', JInt 100)]],
       list_objs = [[JStr ''a'', JStr ''b''], [JStr ''a'', JStr ''b'']]\<rparr>)
     (Some (Inr 1)) = Some (Inr [JStr ''a'', JStr ''b'']) \<and>
   returned
     (\<lparr>client_objs = [\<lparr>MAX_RETRIES = 4, BACKOFF_FACTOR = 2, HTTP_TIMEOUT = 15\<rparr>],
       query_objs = [\<lparr>content_filter = JObj [(''content_type'', JStr ''course'')]\<rparr>],
       dict_objs = [[(''ordering'', JStr ''title'')],
                    [(''ordering'', JStr ''title''), (''limit'', JInt 100), (''offset'', JInt 100)],
                    [(''ordering'', JStr ''title''), (''limit'', JInt 100), (''offset'', JInt 100)]],
       list_objs = [[JStr ''a'', JStr ''b''], [JStr ''a'', JStr ''b'']]\<rparr>)
     (Some (Inr 0)) = Some (Inr [JStr ''a'', JStr ''b'']) \<and>
   events_since
     (\<lparr>server = served (200, JObj [(''results'', JArr [JStr ''a'']), (''next'', JStr ''p2'')]) ##
                served (200, JObj [(''results'', JArr [JStr ''b''])]) ##
                sconst (Raises (OtherException ''unused'')),
       trace = [Request \<lparr>http_method = GET, url = DISCOVERY_COURSES_ENDPOINT, json_payload = None,
                          params = [(''ordering'', JStr ''title''), (''limit'', JInt 100)],
                          timeout = 15\<rparr>,
                Request \<lparr>http_method = GET, url = DISCOVERY_COURSES_ENDPOINT, json_payload = None,
                          params = [(''ordering'', JStr ''title''), (''limit'', JInt 100), (''offset'', JInt 100)],
                          timeout = 15\<rparr>]\<rparr>)
     (\<lparr>server = sconst (Raises (OtherException ''unused'')),
       trace = [Request \<lparr>http_method = GET, url = DISCOVERY_COURSES_ENDPOINT, json_payload = None,
                          params = [(''ordering'', JStr ''title''), (''limit'', JInt 100)],
                          timeout = 15\<rparr>,
                Request \<lparr>http_method = GET, url = DISCOVERY_COURSES_ENDPOINT, json_payload = None,
                          params = [(''ordering'', JStr ''title''), (''limit'', JInt 100), (''offset'', JInt 100)],
                          timeout = 15\<rparr>,
                Request \<lparr>http_method = GET, url = DISCOVERY_COURSES_ENDPOINT, json_payload = None,
                          params = [(''ordering'', JStr ''title''), (''limit'', JInt 100)],
                          timeout = 15\<rparr>,
                Request \<lparr>http_method = GET, url = DISCOVERY_COURSES_ENDPOINT, json_payload = None,
                          params = [(''ordering'', JStr ''title''), (''limit'', JInt 100), (''offset'', JInt 100)],
                          timeout = 15\<rparr>]\<rparr>) =
   [Request \<lparr>http_method = GET, url = DISCOVERY_COURSES_ENDPOINT, json_payload = None,
              params = [(''ordering'', JStr ''title''), (''limit'', JInt 100)],
              timeout = 15\<rparr>,
    Request \<lparr>http_method = GET, url = DISCOVERY_COURSES_ENDPOINT, json_payload = None,
              params = [(''ordering'', JStr ''title''), (''limit'', JInt 100), (''offset'', JInt 100)],
              timeout = 15\<rparr>] \<and>
   st_fetch 0 0 (Search_call 0)
     (\<lparr>client_objs = [\<lparr>MAX_RETRIES = 4, BACKOFF_FACTOR = 2, HTTP_TIMEOUT = 15\<rparr>],
       query_objs = [\<lparr>content_filter = JObj [(''content_type'', JStr ''course'')]\<rparr>],
       dict_objs = [[(''ordering'', JStr ''title'')]],
       list_objs = []\<rparr>,
      \<lparr>server = served (500, JObj []) ##
                 served (200, JObj [(''results'', JArr [JStr ''a''])]) ##
                 sconst (Raises (OtherException ''unused'')),
        trace = []\<rparr>) =
   (Some (Inr 0),
    \<lparr>client_objs = [\<lparr>MAX_RETRIES = 4, BACKOFF_FACTOR = 2, HTTP_TIMEOUT = 15\<rparr>],
      query_objs = [\<lparr>content_filter = JObj [(''content_type'', JStr ''course'')]\<rparr>],
      dict_objs = [[(''ordering'', JStr ''title'')],
                   [(''exclude_expired_course_run'', JBool True), (''page_size'', JInt 100),
     (''ordering'', JStr ''aggregation_key,start''),
     (''include_learner_pathways'', JBool True)]],
      list_objs = [[JStr ''a'']]\<rparr>,
    \<lparr>server = sconst (Raises (OtherException ''unused'')),
      trace = [Request \<lparr>http_method = POST, url = DISCOVERY_SEARCH_ALL_ENDPOINT,
                         json_payload = Some (JObj [(''content_type'', JStr ''course'')]),
                         params = [(''exclude_expired_course_run'', JBool True), (''page_size'', JInt 100),
                                   (''ordering'', JStr ''aggregation_key,start''),
                                   (''include_learner_pathways'', JBool True)],
                         timeout = 15\<rparr>,
               Sleep 2,
               Request \<lparr>http_method = POST, url = DISCOVERY_SEARCH_ALL_ENDPOINT,
                         json_payload = Some (JObj [(''content_type'', JStr ''course'')]),
                         params = [(''exclude_expired_course_run'', JBool True), (''page_size'', JInt 100),
                                   (''ordering'', JStr ''aggregation_key,start''),
                                   (''include_learner_pathways'', JBool True)],
                         timeout = 15\<rparr>]\<rparr>) \<and>
   st_fetch 0 0 (Search_call 0)
     (\<lparr>client_objs = [\<lparr>MAX_RETRIES = 4, BACKOFF_FACTOR = 2, HTTP_TIMEOUT = 15\<rparr>],
       query_objs = [\<lparr>content_filter = JObj [(''content_type'', JStr ''course'')]\<rparr>],
       dict_objs = [[(''ordering'', JStr ''title'')],
                    [(''exclude_expired_course_run'', JBool True), (''page_size'', JInt 100),
      (''ordering'', JStr ''aggregation_key,start''),
      (''include_learner_pathways'', JBool True)]],
       list_objs = [[JStr ''a'']]\<rparr>,
      \<lparr>server = served (500, JObj []) ##
                 served (200, JObj [(''results'', JArr [JStr ''a''])]) ##
                 sconst (Raises (OtherException ''unused'')),
        trace = [Request \<lparr>http_method = POST, url = DISCOVERY_SEARCH_ALL_ENDPOINT,
                           json_payload = Some (JObj [(''content_type'', JStr ''course'')]),
                           params = [(''exclude_expired_course_run'', JBool True), (''page_size'', JInt 100),
                                     (''ordering'', JStr ''aggregation_key,start''),
                                     (''include_learner_pathways'', JBool True)],
                           timeout = 15\<rparr>,
                 Sleep 2,
                 Request \<lparr>http_method = POST, url = DISCOVERY_SEARCH_ALL_ENDPOINT,
                           json_payload = Some (JObj [(''content_type'', JStr ''course'')]),
                           params = [(''exclude_expired_course_run'', JBool True), (''page_size'', JInt 100),
                                     (''ordering'', JStr ''aggregation_key,start''),
                                     (''include_learner_pathways'', JBool True)],
                           timeout = 15\<rparr>]\<rparr>) =
   (Some (Inr 1),
    \<lparr>client_objs = [\<lparr>MAX_RETRIES = 4, BACKOFF_FACTOR = 2, HTTP_TIMEOUT = 15\<rparr>],
      query_objs = [\<lparr>content_filter = JObj [(''content_type'', JStr ''course'')]\<rparr>],
      dict_objs = [[(''ordering'', JStr ''title'')],
                   [(''exclude_expired_course_run'', JBool True), (''page_size'', JInt 100),
     (''ordering'', JStr ''aggregation_key,start''),
     (''include_learner_pathways'', JBool True)],
                   [(''exclude_expired_course_run'', JBool True), (''page_size'', JInt 100),
     (''ordering'', JStr ''aggregation_key,start''),
     (''include_learner_pathways'', JBool True)]],
      list_objs = [[JStr ''a''], [JStr ''a'']]\<rparr>,
    \<lparr>server = sconst (Raises (OtherException ''unused'')),
      trace = [Request \<lparr>http_method = POST, url = DISCOVERY_SEARCH_ALL_ENDPOINT,
                         json_payload = Some (JObj [(''content_type'', JStr ''course'')]),
                         params = [(''exclude_expired_course_run'', JBool True), (''page_size'', JInt 100),
                                   (''ordering'', JStr ''aggregation_key,start''),
                                   (''include_learner_pathways'', JBool True)],
                         timeout = 15\<rparr>,
               Sleep 2,
               Request \<lparr>http_method = POST, url = DISCOVERY_SEARCH_ALL_ENDPOINT,
                         json_payload = Some (JObj [(''content_type'', JStr ''course'')]),
                         params = [(''exclude_expired_course_run'', JBool True), (''page_size'', JInt 100),
                                   (''ordering'', JStr ''aggregation_key,start''),
                                   (''include_learner_pathways'', JBool True)],
                         timeout = 15\<rparr>,
               Request \<lparr>http_method = POST, url = DISCOVERY_SEARCH_ALL_ENDPOINT,
                         json_payload = Some (JObj [(''content_type'', JStr ''course'')]),
                         params = [(''exclude_expired_course_run'', JBool True), (''page_size'', JInt 100),
                                   (''ordering'', JStr ''aggregation_key,start''),
                                   (''include_learner_pathways'', JBool True)],
                         timeout = 15\<rparr>,
               Sleep 2,
               Request \<lparr>http_method = POST, url = DISCOVERY_SEARCH_ALL_ENDPOINT,
                         json_payload = Some (JObj [(''content_type'', JStr ''course'')]),
                         params = [(''exclude_expired_course_run'', JBool True), (''page_size'', JInt 100),
                                   (''ordering'', JStr ''aggregation_key,start''),
                                   (''include_learner_pathways'', JBool True)],
                         timeout = 15\<rparr>]\<rparr>) \<and>
   returned
     (\<lparr>client_objs = [\<lparr>MAX_RETRIES = 4, BACKOFF_FACTOR = 2, HTTP_TIMEOUT = 15\<rparr>],
       query_objs = [\<lparr>content_filter = JObj [(''content_type'', JStr ''course'')]\<rparr>],
       dict_objs = [[(''ordering'', JStr ''title'')],
                    [(''exclude_expired_course_run'', JBool True), (''page_size'', JInt 100),
      (''ordering'', JStr ''aggregation_key,start''),
      (''include_learner_pathways'', JBool True)],
                    [(''exclude_expired_course_run'', JBool True), (''page_size'', JInt 100),
      (''ordering'', JStr ''aggregation_key,start''),
      (''include_learner_pathways'', JBool True)]],
       list_objs = [[JStr ''a''], [JStr ''a'']]\<rparr>)
     (Some (Inr 1)) = Some (Inr [JStr ''a'']) \<and>
   returned
     (\<lparr>client_objs = [\<lparr>MAX_RETRIES = 4, BACKOFF_FACTOR = 2, HTTP_TIMEOUT = 15\<rparr>],
       query_objs = [\<lparr>content_filter = JObj [(''content_type'', JStr ''course'')]\<rparr>],
       dict_objs = [[(''ordering'', JStr ''title'')],
                    [(''exclude_expired_course_run'', JBool True), (''page_size'', JInt 100),
      (''ordering'', JStr ''aggregation_key,start''),
      (''include_learner_pathways'', JBool True)],
                    [(''exclude_expired_course_run'', JBool True), (''page_size'', JInt 100),
      (''ordering'', JStr ''aggregation_key,start''),
      (''include_learner_pathways'', JBool True)]],
       list_objs = [[JStr ''a''], [JStr ''a'']]\<rparr>)
     (Some (Inr 0)) = Some (Inr [JStr ''a'']) \<and>
   events_since
     (\<lparr>server = served (500, JObj []) ##
                served (200, JObj [(''results'', JArr [JStr ''a''])]) ##
                sconst (Raises (OtherException ''unused'')),
       trace = [Request \<lparr>http_method = POST, url = DISCOVERY_SEARCH_ALL_ENDPOINT,
                          json_payload = Some (JObj [(''content_type'', JStr ''course'')]),
                          params = [(''exclude_expired_course_run'', JBool True), (''page_size'', JInt 100),
                                    (''ordering'', JStr ''aggregation_key,start''),
                                    (''include_learner_pathways'', JBool True)],
                          timeout = 15\<rparr>,
                Sleep 2,
                Request \<lparr>http_method = POST, url = DISCOVERY_SEARCH_ALL_ENDPOINT,
                          json_payload = Some (JObj [(''content_type'', JStr ''course'')]),
                          params = [(''exclude_expired_course_run'', JBool True), (''page_size'', JInt 100),
                                    (''ordering'', JStr ''aggregation_key,start''),
                                    (''include_learner_pathways'', JBool True)],
                          timeout = 15\<rparr>]\<rparr>)
     (\<lparr>server = sconst (Raises (OtherException ''unused'')),
       trace = [Request \<lparr>http_method = POST, url = DISCOVERY_SEARCH_ALL_ENDPOINT,
                          json_payload = Some (JObj [(''content_type'', JStr ''course'')]),
                          params = [(''exclude_expired_course_run'', JBool True), (''page_size'', JInt 100),
                                    (''ordering'', JStr ''aggregation_key,start''),
                                    (''include_learner_pathways'', JBool True)],
                          timeout = 15\<rparr>,
                Sleep 2,
                Request \<lparr>http_method = POST, url = DISCOVERY_SEARCH_ALL_ENDPOINT,
                          json_payload = Some (JObj [(''content_type'', JStr ''course'')]),
                          params = [(''exclude_expired_course_run'', JBool True), (''page_size'', JInt 100),
                                    (''ordering'', JStr ''aggregation_key,start''),
                                    (''include_learner_pathways'', JBool True)],
                          timeout = 15\<rparr>,
                Request \<lparr>http_method = POST, url = DISCOVERY_SEARCH_ALL_ENDPOINT,
                          json_payload = Some (JObj [(''content_type'', JStr ''course'')]),
                          params = [(''exclude_expired_course_run'', JBool True), (''page_size'', JInt 100),
                                    (''ordering'', JStr ''aggregation_key,start''),
                                    (''include_learner_pathways'', JBool True)],
                          timeout = 15\<rparr>,
                Sleep 2,
                Request \<lparr>http_method = POST, url = DISCOVERY_SEARCH_ALL_ENDPOINT,
                          json_payload = Some (JObj [(''content_type'', JStr ''course'')]),
                          params = [(''exclude_expired_course_run'', JBool True), (''page_size'', JInt 100),
                                    (''ordering'', JStr ''aggregation_key,start''),
                                    (''include_learner_pathways'', JBool True)],
                          timeout = 15\<rparr>]\<rparr>) =
   [Request \<lparr>http_method = POST, url = DISCOVERY_SEARCH_ALL_ENDPOINT,
              json_payload = Some (JObj [(''content_type'', JStr ''course'')]),
              params = [(''exclude_expired_course_run'', JBool True), (''page_size'', JInt 100),
                        (''ordering'', JStr ''aggregation_key,start''),
                        (''include_learner_pathways'', JBool True)],
              timeout = 15\<rparr>,
    Sleep 2,
    Request \<lparr>http_method = POST, url = DISCOVERY_SEARCH_ALL_ENDPOINT,
              json_payload = Some (JObj [(''content_type'', JStr ''course'')]),
              params = [(''exclude_expired_course_run'', JBool True), (''page_size'', JInt 100),
                        (''ordering'', JStr ''aggregation_key,start''),
                        (''include_learner_pathways'', JBool True)],
              timeout = 15\<rparr>]"
  using calls_share_no_state
    [where fuel = 1 and self = 0 and c = "Courses_call 100 (Some 0)"
       and h = "\<lparr>client_objs = [\<lparr>MAX_RETRIES = 4, BACKOFF_FACTOR = 2, HTTP_TIMEOUT = 15\<rparr>],
                  query_objs = [\<lparr>content_filter = JObj [(''content_type'', JStr ''course'')]\<rparr>],
                  dict_objs = [[(''ordering'', JStr ''title'')]],
                  list_objs = []\<rparr>"
       and w = "\<lparr>server = served (200, JObj [(''results'', JArr [JStr ''a'']), (''next'', JStr ''p2'')]) ##
                           served (200, JObj [(''results'', JArr [JStr ''b''])]) ##
                           sconst (Raises (OtherException ''unused'')),
                  trace = []\<rparr>"
       and ?r1.0 = "Some (Inr 0)"
       and ?h1.0 = "\<lparr>client_objs = [\<lparr>MAX_RETRIES = 4, BACKOFF_FACTOR = 2, HTTP_TIMEOUT = 15\<rparr>],
                       query_objs = [\<lparr>content_filter = JObj [(''content_type'', JStr ''course'')]\<rparr>],
                       dict_objs = [[(''ordering'', JStr ''title'')],
                                    [(''ordering'', JStr ''title''), (''limit'', JInt 100), (''offset'', JInt 100)]],
                       list_objs = [[JStr ''a'', JStr ''b'']]\<rparr>"
       and ?w1.0 = "\<lparr>server = sconst (Raises (OtherException ''unused'')),
                       trace = [Request \<lparr>http_method = GET, url = DISCOVERY_COURSES_ENDPOINT, json_payload = None,
                                          params = [(''ordering'', JStr ''title''), (''limit'', JInt 100)],
                                          timeout = 15\<rparr>,
                                Request \<lparr>http_method = GET, url = DISCOVERY_COURSES_ENDPOINT, json_payload = None,
                                          params = [(''ordering'', JStr ''title''), (''limit'', JInt 100), (''offset'', JInt 100)],
                                          timeout = 15\<rparr>]\<rparr>"
       and hb = "\<lparr>client_objs = [\<lparr>MAX_RETRIES = 4, BACKOFF_FACTOR = 2, HTTP_TIMEOUT = 15\<rparr>],
                   query_objs = [\<lparr>content_filter = JObj [(''content_type'', JStr ''course'')]\<rparr>],
                   dict_objs = [[(''ordering'', JStr ''title'')],
                                [(''ordering'', JStr ''title''), (''limit'', JInt 100), (''offset'', JInt 100)]],
                   list_objs = [[JStr ''a'', JStr ''b'']]\<rparr>"
       and w' = "\<lparr>server = served (200, JObj [(''results'', JArr [JStr ''a'']), (''next'', JStr ''p2'')]) ##
                            served (200, JObj [(''results'', JArr [JStr ''b''])]) ##
                            sconst (Raises (OtherException ''unused'')),
                   trace = [Request \<lparr>http_method = GET, url = DISCOVERY_COURSES_ENDPOINT, json_payload = None,
                                      params = [(''ordering'', JStr ''title''), (''limit'', JInt 100)],
                                      timeout = 15\<rparr>,
                            Request \<lparr>http_method = GET, url = DISCOVERY_COURSES_ENDPOINT, json_payload = None,
                                      params = [(''ordering'', JStr ''title''), (''limit'', JInt 100), (''offset'', JInt 100)],
                                      timeout = 15\<rparr>]\<rparr>"
       and ?r2.0 = "Some (Inr 1)"
       and ?h2.0 = "\<lparr>client_objs = [\<lparr>MAX_RETRIES = 4, BACKOFF_FACTOR = 2, HTTP_TIMEOUT = 15\<rparr>],
                       query_objs = [\<lparr>content_filter = JObj [(''content_type'', JStr ''course'')]\<rparr>],
                       dict_objs = [[(''ordering'', JStr ''title'')],
                                    [(''ordering'', JStr ''title''), (''limit'', JInt 100), (''offset'', JInt 100)],
                                    [(''ordering'', JStr ''title''), (''limit'', JInt 100), (''offset'', JInt 100)]],
                       list_objs = [[JStr ''a'', JStr ''b''], [JStr ''a'', JStr ''b'']]\<rparr>"
       and ?w2.0 = "\<lparr>server = sconst (Raises (OtherException ''unused'')),
                       trace = [Request \<lparr>http_method = GET, url = DISCOVERY_COURSES_ENDPOINT, json_payload = None,
                                          params = [(''ordering'', JStr ''title''), (''limit'', JInt 100)],
                                          timeout = 15\<rparr>,
                                Request \<lparr>http_method = GET, url = DISCOVERY_COURSES_ENDPOINT, json_payload = None,
                                          params = [(''ordering'', JStr ''title''), (''limit'', JInt 100), (''offset'', JInt 100)],
                                          timeout = 15\<rparr>,
                                Request \<lparr>http_method = GET, url = DISCOVERY_COURSES_ENDPOINT, json_payload = None,
                                          params = [(''ordering'', JStr ''title''), (''limit'', JInt 100)],
                                          timeout = 15\<rparr>,
                                Request \<lparr>http_method = GET, url = DISCOVERY_COURSES_ENDPOINT, json_payload = None,
                                          params = [(''ordering'', JStr ''title''), (''limit'', JInt 100), (''offset'', JInt 100)],
                                          timeout = 15\<rparr>]\<rparr>"]
    calls_share_no_state
    [where fuel = 0 and self = 0 and c = "Search_call 0"
       and h = "\<lparr>client_objs = [\<lparr>MAX_RETRIES = 4, BACKOFF_FACTOR = 2, HTTP_TIMEOUT = 15\<rparr>],
                  query_objs = [\<lparr>content_filter = JObj [(''content_type'', JStr ''course'')]\<rparr>],
                  dict_objs = [[(''ordering'', JStr ''title'')]],
                  list_objs = []\<rparr>"
       and w = "\<lparr>server = served (500, JObj []) ##
                           served (200, JObj [(''results'', JArr [JStr ''a''])]) ##
                           sconst (Raises (OtherException ''unused'')),
                  trace = []\<rparr>"
       and ?r1.0 = "Some (Inr 0)"
       and ?h1.0 = "\<lparr>client_objs = [\<lparr>MAX_RETRIES = 4, BACKOFF_FACTOR = 2, HTTP_TIMEOUT = 15\<rparr>],
                       query_objs = [\<lparr>content_filter = JObj [(''content_type'', JStr ''course'')]\<rparr>],
                       dict_objs = [[(''ordering'', JStr ''title'')],
                                    [(''exclude_expired_course_run'', JBool True), (''page_size'', JInt 100),
                      (''ordering'', JStr ''aggregation_key,start''),
                      (''include_learner_pathways'', JBool True)]],
                       list_objs = [[JStr ''a'']]\<rparr>"
       and ?w1.0 = "\<lparr>server = sconst (Raises (OtherException ''unused'')),
                       trace = [Request \<lparr>http_method = POST, url = DISCOVERY_SEARCH_ALL_ENDPOINT,
                                          json_payload = Some (JObj [(''content_type'', JStr ''course'')]),
                                          params = [(''exclude_expired_course_run'', JBool True), (''page_size'', JInt 100),
                                                    (''ordering'', JStr ''aggregation_key,start''),
                                                    (''include_learner_pathways'', JBool True)],
                                          timeout = 15\<rparr>,
                                Sleep 2,
                                Request \<lparr>http_method = POST, url = DISCOVERY_SEARCH_ALL_ENDPOINT,
                                          json_payload = Some (JObj [(''content_type'', JStr ''course'')]),
                                          params = [(''exclude_expired_course_run'', JBool True), (''page_size'', JInt 100),
                                                    (''ordering'', JStr ''aggregation_key,start''),
                                                    (''include_learner_pathways'', JBool True)],
                                          timeout = 15\<rparr>]\<rparr>"
       and hb = "\<lparr>client_objs = [\<lparr>MAX_RETRIES = 4, BACKOFF_FACTOR = 2, HTTP_TIMEOUT = 15\<rparr>],
                   query_objs = [\<lparr>content_filter = JObj [(''content_type'', JStr ''course'')]\<rparr>],
                   dict_objs = [[(''ordering'', JStr ''title'')],
                                [(''exclude_expired_course_run'', JBool True), (''page_size'', JInt 100),
                  (''ordering'', JStr ''aggregation_key,start''),
                  (''include_learner_pathways'', JBool True)]],
                   list_objs = [[JStr ''a'']]\<rparr>"
       and w' = "\<lparr>server = served (500, JObj []) ##
                            served (200, JObj [(''results'', JArr [JStr ''a''])]) ##
                            sconst (Raises (OtherException ''unused'')),
                   trace = [Request \<lparr>http_method = POST, url = DISCOVERY_SEARCH_ALL_ENDPOINT,
                                      json_payload = Some (JObj [(''content_type'', JStr ''course'')]),
                                      params = [(''exclude_expired_course_run'', JBool True), (''page_size'', JInt 100),
                                                (''ordering'', JStr ''aggregation_key,start''),
                                                (''include_learner_pathways'', JBool True)],
                                      timeout = 15\<rparr>,
                            Sleep 2,
                            Request \<lparr>http_method = POST, url = DISCOVERY_SEARCH_ALL_ENDPOINT,
                                      json_payload = Some (JObj [(''content_type'', JStr ''course'')]),
                                      params = [(''exclude_expired_course_run'', JBool True), (''page_size'', JInt 100),
                                                (''ordering'', JStr ''aggregation_key,start''),
                                                (''include_learner_pathways'', JBool True)],
                                      timeout = 15\<rparr>]\<rparr>"
       and ?r2.0 = "Some (Inr 1)"
       and ?h2.0 = "\<lparr>client_objs = [\<lparr>MAX_RETRIES = 4, BACKOFF_FACTOR = 2, HTTP_TIMEOUT = 15\<rparr>],
                       query_objs = [\<lparr>content_filter = JObj [(''content_type'', JStr ''course'')]\<rparr>],
                       dict_objs = [[(''ordering'', JStr ''title'')],
                                    [(''exclude_expired_course_run'', JBool True), (''page_size'', JInt 100),
                      (''ordering'', JStr ''aggregation_key,start''),
                      (''include_learner_pathways'', JBool True)],
                                    [(''exclude_expired_course_run'', JBool True), (''page_size'', JInt 100),
                      (''ordering'', JStr ''aggregation_key,start''),
                      (''include_learner_pathways'', JBool True)]],
                       list_objs = [[JStr ''a''], [JStr ''a'']]\<rparr>"
       and ?w2.0 = "\<lparr>server = sconst (Raises (OtherException ''unused'')),
                       trace = [Request \<lparr>http_method = POST, url = DISCOVERY_SEARCH_ALL_ENDPOINT,
                                          json_payload = Some (JObj [(''content_type'', JStr ''course'')]),
                                          params = [(''exclude_expired_course_run'', JBool True), (''page_size'', JInt 100),
                                                    (''ordering'', JStr ''aggregation_key,start''),
                                                    (''include_learner_pathways'', JBool True)],
                                          timeout = 15\<rparr>,
                                Sleep 2,
                                Request \<lparr>http_method = POST, url = DISCOVERY_SEARCH_ALL_ENDPOINT,
                                          json_payload = Some (JObj [(''content_type'', JStr ''course'')]),
                                          params = [(''exclude_expired_course_run'', JBool True), (''page_size'', JInt 100),
                                                    (''ordering'', JStr ''aggregation_key,start''),
                                                    (''include_learner_pathways'', JBool True)],
                                          timeout = 15\<rparr>,
                                Request \<lparr>http_method = POST, url = DISCOVERY_SEARCH_ALL_ENDPOINT,
                                          json_payload = Some (JObj [(''content_type'', JStr ''course'')]),
                                          params = [(''exclude_expired_course_run'', JBool True), (''page_size'', JInt 100),
                                                    (''ordering'', JStr ''aggregation_key,start''),
                                                    (''include_learner_pathways'', JBool True)],
                                          timeout = 15\<rparr>,
                                Sleep 2,
                                Request \<lparr>http_method = POST, url = DISCOVERY_SEARCH_ALL_ENDPOINT,
                                          json_payload = Some (JObj [(''content_type'', JStr ''course'')]),
                                          params = [(''exclude_expired_course_run'', JBool True), (''page_size'', JInt 100),
                                                    (''ordering'', JStr ''aggregation_key,start''),
                                                    (''include_learner_pathways'', JBool True)],
                                          timeout = 15\<rparr>]\<rparr>"]
  by (simp add: st_fetch_def st_get_courses_def st_list_try_def st_retrieve_list_def
      st_list_pages_0 st_list_pages_Suc st_list_except_def st_get_metadata_by_query_def
      st_retrieve_metadata_for_content_filter_def st_retry_loop.simps [of _ _ _ 0]
      st_retry_loop.simps [of _ _ _ "Suc 0"] st_search_pages_0 calculate_backoff_def
      new_dict_def new_list_def set_dict_def set_list_def args_allocated_def preserved_def
      returned_def events_since_def send_def sleep_def served_def response_json_def py_get_def
      or_empty_def list_request_def search_request_def Let_def)

subsection \<open>C10: a page without results, first or later\<close>

text \<open>
  C10. The first page of \<open>get_courses\<close> and \<open>get_programs\<close> is read with
  \<^verbatim>\<open>response.get('results')\<close>, the later ones with \<^verbatim>\<open>response.get('results', [])\<close>. So when the
  body \<open>JObj kvs\<close> has no \<open>results\<close> member: as the first page it makes the body of the
  \<^verbatim>\<open>try\<close> raise \<open>TypeError\<close> with nothing accumulated, and the call returns the empty
  list after that one request, whatever its \<open>next\<close>; as a later page (after the pages
  \<open>pre\<close>, before the pages \<open>post\<close>) it adds nothing and the traversal goes on through
  \<open>post\<close>, as far as \<open>next\<close> is truthy.
\<close>

theorem first_page_without_results:
  assumes "map_of kvs ''results'' = None"
  shows "fst (list_try fuel ep self sz rp \<lparr>server = served (st, JObj kvs) ## s, trace = t\<rparr>) =
           Some (Some TypeError, []) \<and>
         get_courses fuel self sz qp \<lparr>server = served (st, JObj kvs) ## s, trace = t\<rparr> =
           (Some [],
            \<lparr>server = s,
             trace = t @ [Request (list_request DISCOVERY_COURSES_ENDPOINT self
                 (dict_update [(''ordering'', JStr ''key''), (''limit'', JInt sz)]
                    (or_empty qp)))]\<rparr>) \<and>
         get_programs fuel self sz qp \<lparr>server = served (st, JObj kvs) ## s, trace = t\<rparr> =
           (Some [],
            \<lparr>server = s,
             trace = t @ [Request (list_request DISCOVERY_PROGRAMS_ENDPOINT self
                 (dict_update [(''ordering'', JStr ''key''), (''limit'', JInt sz),
                               (''extended'', JStr ''True'')] (or_empty qp)))]\<rparr>) \<and>
         (pre \<noteq> [] \<and> list_all (\<lambda>sp. has_results (snd sp)) (pre @ post) \<and>
          list_all has_next (butlast (map snd (pre @ (st, JObj kvs) # post))) \<and>
          \<not> has_next (snd (last (pre @ (st, JObj kvs) # post))) \<and>
          length pre + length post \<le> fuel \<longrightarrow>
          fst (get_courses fuel self sz qp
                 \<lparr>server = map served (pre @ (st, JObj kvs) # post) @- s, trace = t\<rparr>) =
            Some (concat (map (\<lambda>sp. page_results (snd sp)) pre) @
                  concat (map (\<lambda>sp. page_results (snd sp)) post)) \<and>
          server (snd (get_courses fuel self sz qp
                 \<lparr>server = map served (pre @ (st, JObj kvs) # post) @- s, trace = t\<rparr>)) = s \<and>
          fst (get_programs fuel self sz qp
                 \<lparr>server = map served (pre @ (st, JObj kvs) # post) @- s, trace = t\<rparr>) =
            Some (concat (map (\<lambda>sp. page_results (snd sp)) pre) @
                  concat (map (\<lambda>sp. page_results (snd sp)) post)) \<and>
          server (snd (get_programs fuel self sz qp
                 \<lparr>server = map served (pre @ (st, JObj kvs) # post) @- s, trace = t\<rparr>)) = s)"
proof -
  note first = list_try_no_results [OF assms, of fuel _ self sz _ st s t]
  have later: "list_try fuel ep self sz rp
                 \<lparr>server = map served (pre @ (st, JObj kvs) # post) @- s, trace = t\<rparr> =
               (Some (None, concat (map (\<lambda>sp. page_results (snd sp)) pre) @
                            concat (map (\<lambda>sp. page_results (snd sp)) post)),
                \<lparr>server = s,
                 trace = t @ list_trace ep self rp sz (length (pre @ (st, JObj kvs) # post))\<rparr>)"
    if *: "pre \<noteq> []" "list_all (\<lambda>sp. has_results (snd sp)) (pre @ post)"
      "list_all has_next (butlast (map snd (pre @ (st, JObj kvs) # post)))"
      "\<not> has_next (snd (last (pre @ (st, JObj kvs) # post)))"
      "length pre + length post \<le> fuel"
    for ep rp
  proof -
    let ?sps = "pre @ (st, JObj kvs) # post"
    have ne: "?sps \<noteq> []"
      by simp
    from * have hd: "has_results (snd (hd ?sps))"
      by (cases pre) auto
    from * have "list_all (\<lambda>sp. extends (snd sp)) ?sps"
      by (auto simp: list_all_iff has_resultsD(2) lacks_results(1) [OF assms])
    then have tl: "list_all (\<lambda>sp. extends (snd sp)) (tl ?sps)"
      by (rule list_all_tl)
    have len: "length ?sps \<le> Suc fuel"
      using *(5) by simp
    show ?thesis
      using list_try_done [OF ne hd tl *(3) *(4) len, of ep self sz rp s t]
      by (simp add: lacks_results(2) [OF assms])
  qed
  have a: "get_courses fuel self sz qp \<lparr>server = served (st, JObj kvs) ## s, trace = t\<rparr> =
           (Some [],
            \<lparr>server = s,
             trace = t @ [Request (list_request DISCOVERY_COURSES_ENDPOINT self
                 (dict_update [(''ordering'', JStr ''key''), (''limit'', JInt sz)]
                    (or_empty qp)))]\<rparr>)"
    by (simp add: get_courses_done [OF first] list_trace_def offset_params_def)
  have b: "get_programs fuel self sz qp \<lparr>server = served (st, JObj kvs) ## s, trace = t\<rparr> =
           (Some [],
            \<lparr>server = s,
             trace = t @ [Request (list_request DISCOVERY_PROGRAMS_ENDPOINT self
                 (dict_update [(''ordering'', JStr ''key''), (''limit'', JInt sz),
                               (''extended'', JStr ''True'')] (or_empty qp)))]\<rparr>)"
    by (simp add: get_programs_done [OF first] list_trace_def offset_params_def)
  show ?thesis
  proof (intro conjI impI; (elim conjE)?)
    show "fst (list_try fuel ep self sz rp \<lparr>server = served (st, JObj kvs) ## s, trace = t\<rparr>) =
           Some (Some TypeError, [])"
      by (simp add: first)
    show "get_courses fuel self sz qp \<lparr>server = served (st, JObj kvs) ## s, trace = t\<rparr> =
           (Some [],
            \<lparr>server = s,
             trace = t @ [Request (list_request DISCOVERY_COURSES_ENDPOINT self
                 (dict_update [(''ordering'', JStr ''key''), (''limit'', JInt sz)]
                    (or_empty qp)))]\<rparr>)"
      by (rule a)
    show "get_programs fuel self sz qp \<lparr>server = served (st, JObj kvs) ## s, trace = t\<rparr> =
           (Some [],
            \<lparr>server = s,
             trace = t @ [Request (list_request DISCOVERY_PROGRAMS_ENDPOINT self
                 (dict_update [(''ordering'', JStr ''key''), (''limit'', JInt sz),
                               (''extended'', JStr ''True'')] (or_empty qp)))]\<rparr>)"
      by (rule b)
  next
    assume *: "pre \<noteq> []" "list_all (\<lambda>sp. has_results (snd sp)) (pre @ post)"
      "list_all has_next (butlast (map snd (pre @ (st, JObj kvs) # post)))"
      "\<not> has_next (snd (last (pre @ (st, JObj kvs) # post)))"
      "length pre + length post \<le> fuel"
    note c = get_courses_done [OF later [OF *]] and p = get_programs_done [OF later [OF *]]
    show "fst (get_courses fuel self sz qp
                 \<lparr>server = map served (pre @ (st, JObj kvs) # post) @- s, trace = t\<rparr>) =
            Some (concat (map (\<lambda>sp. page_results (snd sp)) pre) @
                  concat (map (\<lambda>sp. page_results (snd sp)) post))"
      by (simp only: c fst_conv)
    show "server (snd (get_courses fuel self sz qp
                 \<lparr>server = map served (pre @ (st, JObj kvs) # post) @- s, trace = t\<rparr>)) = s"
      by (simp only: c snd_conv world.simps)
    show "fst (get_programs fuel self sz qp
                 \<lparr>server = map served (pre @ (st, JObj kvs) # post) @- s, trace = t\<rparr>) =
            Some (concat (map (\<lambda>sp. page_results (snd sp)) pre) @
                  concat (map (\<lambda>sp. page_results (snd sp)) post))"
      by (simp only: p fst_conv)
    show "server (snd (get_programs fuel self sz qp
                 \<lparr>server = map served (pre @ (st, JObj kvs) # post) @- s, trace = t\<rparr>)) = s"
      by (simp only: p snd_conv world.simps)
  qed
qed

theorem first_page_without_results_witness:
  "get_courses 2 \<lparr>MAX_RETRIES = 4, BACKOFF_FACTOR = 2, HTTP_TIMEOUT = 15\<rparr> 100 None
     \<lparr>server = served (200, JObj [(''next'', JStr ''page2'')]) ##
                sconst (Raises (OtherException ''unused'')),
      trace = []\<rparr> =
     (Some [],
      \<lparr>server = sconst (Raises (OtherException ''unused'')),
       trace = [Request \<lparr>http_method = GET, url = DISCOVERY_COURSES_ENDPOINT,
                         json_payload = None,
                         params = [(''ordering'', JStr ''key''), (''limit'', JInt 100)],
                         timeout = 15\<rparr>]\<rparr>) \<and>
   fst (get_courses 2 \<lparr>MAX_RETRIES = 4, BACKOFF_FACTOR = 2, HTTP_TIMEOUT = 15\<rparr> 100 None
          \<lparr>server =
             map served
               ([(200, JObj [(''results'', JArr [JStr ''a'']), (''next'', JStr ''page2'')])] @
                (200, JObj [(''next'', JStr ''page2'')]) #
                [(200, JObj [(''results'', JArr [JStr ''b''])])]) @-
             sconst (Raises (OtherException ''unused'')),
           trace = []\<rparr>) =
     Some [JStr ''a'', JStr ''b'']"
  using first_page_without_results
    [where kvs = "[(''next'', JStr ''page2'')]" and fuel = 2 and sz = 100 and qp = None
       and st = 200 and t = "[]"
       and self = "\<lparr>MAX_RETRIES = 4, BACKOFF_FACTOR = 2, HTTP_TIMEOUT = 15\<rparr>"
       and s = "sconst (Raises (OtherException ''unused''))"
       and pre = "[(200, JObj [(''results'', JArr [JStr ''a'']), (''next'', JStr ''page2'')])]"
       and post = "[(200, JObj [(''results'', JArr [JStr ''b''])])]"]
  by (simp add: has_results_def has_next_def page_results_def py_get_def list_request_def
      or_empty_def)

end
